theory Spec2Isabelle
  imports Complex_Main "HOL-Library.Word"
begin

section \<open>Double-precision values\<close>

text \<open>
  The C++ type \<^verbatim>\<open>double\<close> is modelled with its special values written out: a finite
  value, the two infinities, and NaN. The special-value rules are those of IEEE 754
  (a comparison with NaN is false, \<^verbatim>\<open>0.0 / 0\<close> is NaN, a non-zero value divided by zero
  is an infinity). Arithmetic on finite values is exact real arithmetic: rounding,
  overflow to infinity and the sign of zero are not modelled.
\<close>

datatype double = Finite real | PosInf | NegInf | NaN

definition d_of_int :: "int \<Rightarrow> double" where
  "d_of_int n = Finite (of_int n)"

fun dneg :: "double \<Rightarrow> double" where
  "dneg (Finite x) = Finite (- x)"
| "dneg PosInf = NegInf"
| "dneg NegInf = PosInf"
| "dneg NaN = NaN"

fun dadd :: "double \<Rightarrow> double \<Rightarrow> double" where
  "dadd (Finite x) (Finite y) = Finite (x + y)"
| "dadd NaN b = NaN"
| "dadd a NaN = NaN"
| "dadd PosInf NegInf = NaN"
| "dadd NegInf PosInf = NaN"
| "dadd PosInf b = PosInf"
| "dadd NegInf b = NegInf"
| "dadd a PosInf = PosInf"
| "dadd a NegInf = NegInf"

definition dsub :: "double \<Rightarrow> double \<Rightarrow> double" where
  "dsub a b = dadd a (dneg b)"

fun dmul :: "double \<Rightarrow> double \<Rightarrow> double" where
  "dmul (Finite x) (Finite y) = Finite (x * y)"
| "dmul NaN b = NaN"
| "dmul a NaN = NaN"
| "dmul (Finite x) PosInf = (if x = 0 then NaN else if 0 < x then PosInf else NegInf)"
| "dmul (Finite x) NegInf = (if x = 0 then NaN else if 0 < x then NegInf else PosInf)"
| "dmul PosInf (Finite y) = (if y = 0 then NaN else if 0 < y then PosInf else NegInf)"
| "dmul NegInf (Finite y) = (if y = 0 then NaN else if 0 < y then NegInf else PosInf)"
| "dmul PosInf PosInf = PosInf"
| "dmul PosInf NegInf = NegInf"
| "dmul NegInf PosInf = NegInf"
| "dmul NegInf NegInf = PosInf"

fun ddiv :: "double \<Rightarrow> double \<Rightarrow> double" where
  "ddiv (Finite x) (Finite y) =
     (if y = 0 then (if x = 0 then NaN else if 0 < x then PosInf else NegInf)
      else Finite (x / y))"
| "ddiv NaN b = NaN"
| "ddiv a NaN = NaN"
| "ddiv (Finite x) PosInf = Finite 0"
| "ddiv (Finite x) NegInf = Finite 0"
| "ddiv PosInf (Finite y) = (if 0 \<le> y then PosInf else NegInf)"
| "ddiv NegInf (Finite y) = (if 0 \<le> y then NegInf else PosInf)"
| "ddiv PosInf b = NaN"
| "ddiv NegInf b = NaN"

fun dless :: "double \<Rightarrow> double \<Rightarrow> bool" where
  "dless (Finite x) (Finite y) = (x < y)"
| "dless NaN b = False"
| "dless a NaN = False"
| "dless a NegInf = False"
| "dless PosInf b = False"
| "dless NegInf b = True"
| "dless a PosInf = True"

fun dsqrt :: "double \<Rightarrow> double" where
  "dsqrt (Finite x) = (if x < 0 then NaN else Finite (sqrt x))"
| "dsqrt PosInf = PosInf"
| "dsqrt NegInf = NaN"
| "dsqrt NaN = NaN"

section \<open>Test functions and the external collaborators\<close>

text \<open>
  \<^verbatim>\<open>CTestFn\<close> is declared in \<^verbatim>\<open>testfn.h\<close>; the fields are those \<^verbatim>\<open>tester.h\<close> reads.
  \<^verbatim>\<open>FnDims\<close> is the member \<^verbatim>\<open>CTestFn::Dims\<close> (0 means: use the default dimensionality).
\<close>

record CTestFn =
  Name :: string
  FnDims :: int
  RangeMin :: double
  RangeMax :: double
  OptValue :: double
  Calc :: "double list \<Rightarrow> int \<Rightarrow> double"

text \<open>
  The virtual functions of \<^verbatim>\<open>CTestOpt\<close>, as the base class \<^verbatim>\<open>CBEOOptimizerFan\<close>
  calls them. \<open>None\<close> is an access outside a buffer (undefined behaviour in C++).
\<close>

record 'r hooks =
  hk_getMinValues :: "double list \<Rightarrow> 'r \<Rightarrow> (double list \<times> 'r) option"
  hk_getMaxValues :: "double list \<Rightarrow> 'r \<Rightarrow> (double list \<times> 'r) option"
  hk_optcost :: "double list \<Rightarrow> double option"

text \<open>
  What \<^verbatim>\<open>tester.h\<close> uses and does not define, taken as parameters: the generator
  \<^verbatim>\<open>CBEORnd\<close> (state \<open>'r\<close>; the global \<^verbatim>\<open>rnd\<close>), the cycle counter \<^verbatim>\<open>__rdtsc\<close> (state
  \<open>'c\<close>: the readings are an input of the run), and the base class
  \<^verbatim>\<open>CBEOOptimizerFan\<close> of \<^verbatim>\<open>bitefan.h\<close> (state \<open>'s\<close>).
\<close>

record ('s, 'r, 'c) externals =
  getRndValue :: "'r \<Rightarrow> double \<times> 'r"
  rdtsc :: "'c \<Rightarrow> 64 word \<times> 'c"
  fan_updateDims :: "int \<Rightarrow> int \<Rightarrow> 's \<Rightarrow> 's"
  fan_init :: "'r hooks \<Rightarrow> 's \<Rightarrow> 'r \<Rightarrow> 's \<times> 'r"
  fan_optimize :: "'r hooks \<Rightarrow> 's \<Rightarrow> 'r \<Rightarrow> 's \<times> 'r"
  fan_getBestCost :: "'s \<Rightarrow> double"

section \<open>The optimizer adapter \<^verbatim>\<open>CTester::CTestOpt\<close>\<close>

text \<open>
  \<^verbatim>\<open>optDoRandomize\<close> is the member \<^verbatim>\<open>CTestOpt::DoRandomize\<close>; \<open>fan\<close> is the base-class
  part of the object. \<^verbatim>\<open>fn\<close> points to a constant test function and is modelled by
  the function itself.
\<close>

record 's CTestOpt =
  fn :: CTestFn
  optDoRandomize :: bool
  Dims :: int
  signs :: "double list"
  tp :: "double list"
  fan :: 's

datatype error = BadArrayNewLength | SignedOverflow

text \<open>
  \<^verbatim>\<open>new double[n]\<close>: a negative length throws \<^verbatim>\<open>std::bad_array_new_length\<close>; the
  elements of the new array are indeterminate, and every reader below writes an element
  before it reads it. The model fills the array with NaN. \<^verbatim>\<open>new int[n]\<close> is the same for
  the array \<^verbatim>\<open>Iters\<close>, which the model fills with 0: trial \<open>j\<close> writes entry \<open>j\<close> before the
  statistics read it.
\<close>

definition new_double :: "int \<Rightarrow> double list" where
  "new_double n = replicate (nat n) NaN"

definition new_int :: "int \<Rightarrow> int list" where
  "new_int n = replicate (nat n) 0"

definition updateDims ::
  "('s, 'r, 'c) externals \<Rightarrow> int \<Rightarrow> int \<Rightarrow> 's CTestOpt \<Rightarrow> error + 's CTestOpt" where
  "updateDims X aDims aFanSize t =
     (if aDims < 0 then Inl BadArrayNewLength
      else Inr (t\<lparr>Dims := aDims, signs := new_double aDims, tp := new_double aDims,
                  fan := fan_updateDims X aDims aFanSize (fan t)\<rparr>))"

text \<open>
  The loop \<^verbatim>\<open>for( i = 0; i < Dims; i++ ) p[ i ] = v;\<close> where the value \<open>v\<close> may draw
  from the generator: \<open>fill g [0..<nat Dims] p r\<close>.
\<close>

fun fill :: "('r \<Rightarrow> double \<times> 'r) \<Rightarrow> nat list \<Rightarrow> double list \<Rightarrow> 'r \<Rightarrow> double list \<times> 'r" where
  "fill g [] p r = (p, r)"
| "fill g (i # is) p r = (case g r of (v, r') \<Rightarrow> fill g is (p[i := v]) r')"

definition scaled :: "('s, 'r, 'c) externals \<Rightarrow> double \<Rightarrow> 'r \<Rightarrow> double \<times> 'r" where
  "scaled X b r =
     (case getRndValue X r of (v, r') \<Rightarrow>
        (dmul b (dadd (Finite (1/2)) (dmul v (Finite (1/2)))), r'))"

definition getMinValues ::
  "('s, 'r, 'c) externals \<Rightarrow> 's CTestOpt \<Rightarrow> double list \<Rightarrow> 'r \<Rightarrow> (double list \<times> 'r) option" where
  "getMinValues X t p r =
     (if length p < nat (Dims t) then None
      else if optDoRandomize t
        then Some (fill (scaled X (RangeMin (fn t))) [0..<nat (Dims t)] p r)
        else Some (fill (\<lambda>r. (RangeMin (fn t), r)) [0..<nat (Dims t)] p r))"

definition getMaxValues ::
  "('s, 'r, 'c) externals \<Rightarrow> 's CTestOpt \<Rightarrow> double list \<Rightarrow> 'r \<Rightarrow> (double list \<times> 'r) option" where
  "getMaxValues X t p r =
     (if length p < nat (Dims t) then None
      else if optDoRandomize t
        then Some (fill (scaled X (RangeMax (fn t))) [0..<nat (Dims t)] p r)
        else Some (fill (\<lambda>r. (RangeMax (fn t), r)) [0..<nat (Dims t)] p r))"

text \<open>
  \<^verbatim>\<open>optcost\<close>: the loop writes \<^verbatim>\<open>tp[ i ] = p[ i ] * signs[ i ]\<close>, then the test function is
  evaluated on \<^verbatim>\<open>tp\<close>. The buffer \<^verbatim>\<open>tp\<close> is scratch storage: each call overwrites the
  entries it reads, so what a call leaves in it is not kept in the model.
\<close>

fun optcost_loop :: "nat list \<Rightarrow> double list \<Rightarrow> double list \<Rightarrow> double list \<Rightarrow> double list" where
  "optcost_loop [] p sg t = t"
| "optcost_loop (i # is) p sg t = optcost_loop is p sg (t[i := dmul (p ! i) (sg ! i)])"

definition optcost :: "'s CTestOpt \<Rightarrow> double list \<Rightarrow> double option" where
  "optcost t p =
     (if length p < nat (Dims t) \<or> length (signs t) < nat (Dims t) \<or> length (tp t) < nat (Dims t)
      then None
      else Some (Calc (fn t) (optcost_loop [0..<nat (Dims t)] p (signs t) (tp t)) (Dims t)))"

definition hooks :: "('s, 'r, 'c) externals \<Rightarrow> 's CTestOpt \<Rightarrow> 'r hooks" where
  "hooks X t = \<lparr>hk_getMinValues = getMinValues X t, hk_getMaxValues = getMaxValues X t,
                hk_optcost = optcost t\<rparr>"

section \<open>The tester \<^verbatim>\<open>CTester\<close>\<close>

text \<open>
  The members of \<^verbatim>\<open>CTester\<close>. \<^verbatim>\<open>Funcs\<close> is a NULL-limited array of pointers to test
  functions: the list holds the entries before the terminator.
\<close>

record 's CTester =
  DefDims :: int
  opt :: "'s CTestOpt"
  ItAvg :: double
  ItRtAvg :: double
  RjAvg :: double
  tc :: "64 word"
  Funcs :: "CTestFn list"
  FnCount :: int
  CostThreshold :: double
  IterCount :: int
  InnerIterCount :: int
  DoRandomize :: bool
  DoPrint :: bool

text \<open>The loop of \<^verbatim>\<open>init\<close> that counts the entries before the terminator.\<close>

fun count_corpus :: "CTestFn list \<Rightarrow> int \<Rightarrow> int" where
  "count_corpus [] n = n"
| "count_corpus (f # Corpus) n = count_corpus Corpus (n + 1)"

definition init ::
  "int \<Rightarrow> CTestFn list \<Rightarrow> double \<Rightarrow> int \<Rightarrow> int \<Rightarrow> bool \<Rightarrow> bool \<Rightarrow> 's CTester \<Rightarrow> 's CTester" where
  "init aDefDims Corpus aThreshold aIterCount aInnerIterCount aDoRandomize aDoPrint T =
     T\<lparr>DefDims := aDefDims, CostThreshold := aThreshold, IterCount := aIterCount,
       InnerIterCount := aInnerIterCount, DoRandomize := aDoRandomize, DoPrint := aDoPrint,
       FnCount := count_corpus Corpus 0, Funcs := Corpus\<rparr>"

text \<open>The local variables of the body of the loop over the functions in \<^verbatim>\<open>run\<close>.\<close>

record locals =
  AvgIter :: double
  AvgCost :: double
  AvgRjCost :: double
  Rej :: int
  Iters :: "int list"

definition INT_MAX :: int where
  "INT_MAX = 2147483647"

text \<open>
  One optimizer step between two readings of the cycle counter:
  \<^verbatim>\<open>t1 = __rdtsc(); opt -> optimize( rnd ); tc += __rdtsc() - t1;\<close>
\<close>

definition timed_optimize ::
  "('s, 'r, 'c) externals \<Rightarrow> 's CTester \<Rightarrow> 'r \<Rightarrow> 'c \<Rightarrow> 's CTester \<times> 'r \<times> 'c" where
  "timed_optimize X T r c =
     (case rdtsc X c of (t1, c1) \<Rightarrow>
      case fan_optimize X (hooks X (opt T)) (fan (opt T)) r of (s, r') \<Rightarrow>
      case rdtsc X c1 of (t2, c2) \<Rightarrow>
        (T\<lparr>opt := (opt T)\<lparr>fan := s\<rparr>, tc := tc T + (t2 - t1)\<rparr>, r', c2))"

definition getBestCost :: "('s, 'r, 'c) externals \<Rightarrow> 's CTester \<Rightarrow> double" where
  "getBestCost X T = fan_getBestCost X (fan (opt T))"

text \<open>
  The loop \<^verbatim>\<open>while( true )\<close> of one trial \<open>j\<close>, entered with the step counter \<open>i\<close>.
  \<^verbatim>\<open>i++\<close> on \<^verbatim>\<open>INT_MAX\<close> is a signed overflow (undefined behaviour): the model stops there
  with an error.
\<close>

function while_loop ::
  "('s, 'r, 'c) externals \<Rightarrow> 's CTester \<Rightarrow> int \<Rightarrow> int \<Rightarrow> locals \<Rightarrow> 'r \<Rightarrow> 'c \<Rightarrow>
     error + ('s CTester \<times> locals \<times> 'r \<times> 'c)" where
  "while_loop X T j i L r c =
     (case timed_optimize X T r c of (T', r', c') \<Rightarrow>
        if INT_MAX \<le> i then Inl SignedOverflow
        else if dless (dsub (getBestCost X T') (OptValue (fn (opt T')))) (CostThreshold T') then
          Inr (T', L\<lparr>AvgCost := dadd (AvgCost L) (getBestCost X T'),
                     Iters := (Iters L)[nat j := i + 1],
                     AvgIter := dadd (AvgIter L) (d_of_int (i + 1))\<rparr>, r', c')
        else if i + 1 = InnerIterCount T' then
          Inr (T', L\<lparr>AvgRjCost := dadd (AvgRjCost L) (getBestCost X T'),
                     Rej := Rej L + 1,
                     Iters := (Iters L)[nat j := - 1]\<rparr>, r', c')
        else while_loop X T' j (i + 1) L r' c')"
  by pat_completeness auto
termination
  by (relation "measure (\<lambda>(X, T, j, i, L, r, c). nat (INT_MAX - i))") auto

declare while_loop.simps [simp del]

text \<open>The draw of one sign: \<^verbatim>\<open>( rnd.getRndValue() < 0.5 ? 1.0 : -1.0 )\<close>.\<close>

definition rnd_sign :: "('s, 'r, 'c) externals \<Rightarrow> 'r \<Rightarrow> double \<times> 'r" where
  "rnd_sign X r =
     (case getRndValue X r of (v, r') \<Rightarrow>
        (if dless v (Finite (1/2)) then Finite 1 else Finite (- 1), r'))"

text \<open>
  The body of the loop over the trials \<open>j\<close>: the signs are drawn when randomization is
  on, the optimizer is initialized, and the steps run. \<open>D\<close> is the local \<^verbatim>\<open>Dims\<close>.
\<close>

definition trial ::
  "('s, 'r, 'c) externals \<Rightarrow> 's CTester \<Rightarrow> int \<Rightarrow> int \<Rightarrow> locals \<Rightarrow> 'r \<Rightarrow> 'c \<Rightarrow>
     error + ('s CTester \<times> locals \<times> 'r \<times> 'c)" where
  "trial X T D j L r c =
     (case (if DoRandomize T then fill (rnd_sign X) [0..<nat D] (signs (opt T)) r
            else (signs (opt T), r)) of (sg, r1) \<Rightarrow>
      case fan_init X (hooks X ((opt T)\<lparr>signs := sg\<rparr>)) (fan (opt T)) r1 of (s, r2) \<Rightarrow>
        while_loop X (T\<lparr>opt := (opt T)\<lparr>signs := sg, fan := s\<rparr>\<rparr>) j 0 L r2 c)"

fun trials ::
  "('s, 'r, 'c) externals \<Rightarrow> 's CTester \<Rightarrow> int \<Rightarrow> nat list \<Rightarrow> locals \<Rightarrow> 'r \<Rightarrow> 'c \<Rightarrow>
     error + ('s CTester \<times> locals \<times> 'r \<times> 'c)" where
  "trials X T D [] L r c = Inr (T, L, r, c)"
| "trials X T D (j # js) L r c =
     (case trial X T D (int j) L r c of
        Inl e \<Rightarrow> Inl e
      | Inr (T', L', r', c') \<Rightarrow> trials X T' D js L' r' c')"

text \<open>
  The statistics of one function, computed after its trials (the divisions of the two
  cost sums, the average and the deviation of the step counts). The result is the
  locals with the two averaged costs, \<^verbatim>\<open>Avg\<close> and \<^verbatim>\<open>RMS\<close>.
\<close>

fun rms_loop :: "int list \<Rightarrow> double \<Rightarrow> nat list \<Rightarrow> double \<Rightarrow> double" where
  "rms_loop It Avg [] RMS = RMS"
| "rms_loop It Avg (j # js) RMS =
     rms_loop It Avg js
       (if 0 \<le> It ! j
        then dadd RMS (dmul (dsub (d_of_int (It ! j)) Avg) (dsub (d_of_int (It ! j)) Avg))
        else RMS)"

definition function_stats :: "'s CTester \<Rightarrow> locals \<Rightarrow> locals \<times> double \<times> double" where
  "function_stats T L =
     (let L1 = L\<lparr>AvgCost := ddiv (AvgCost L) (d_of_int (IterCount T - Rej L))\<rparr>;
          L2 = L1\<lparr>AvgRjCost := ddiv (AvgRjCost L1) (d_of_int (Rej L1))\<rparr>
      in if IterCount T \<le> Rej L2 then (L2, Finite 1000000, Finite 1000000)
         else let Avg = ddiv (AvgIter L2) (d_of_int (IterCount T - Rej L2));
                  RMS = rms_loop (Iters L2) Avg [0..<nat (IterCount T)] (Finite 0)
              in (L2, Avg, dsqrt (ddiv RMS (d_of_int (IterCount T - Rej L2)))))"

text \<open>
  What \<^verbatim>\<open>printf\<close> receives: the arguments of the line of one function and of the four
  summary lines. The formatting is not modelled.
\<close>

datatype report =
  FnLine double double double double double string int
| Summary double double double "64 word"

text \<open>
  The start of the body of the loop over the functions: the adapter is set up for the
  function \<open>f\<close> with its resolved dimensionality, and the signs are set to 1 when
  randomization is off.
\<close>

definition resolved_dims :: "'s CTester \<Rightarrow> CTestFn \<Rightarrow> int" where
  "resolved_dims T f = (if FnDims f = 0 then DefDims T else FnDims f)"

definition fn_setup ::
  "('s, 'r, 'c) externals \<Rightarrow> 's CTester \<Rightarrow> CTestFn \<Rightarrow> error + 's CTester" where
  "fn_setup X T f =
     (let D = resolved_dims T f
      in case updateDims X D 0 ((opt T)\<lparr>fn := f\<rparr>) of
           Inl e \<Rightarrow> Inl e
         | Inr t \<Rightarrow>
             let t1 = t\<lparr>optDoRandomize := DoRandomize T\<rparr>
             in Inr (T\<lparr>opt := (if \<not> DoRandomize T
                                then t1\<lparr>signs := fst (fill (\<lambda>u. (Finite 1, u)) [0..<nat D] (signs t1) ())\<rparr>
                                else t1)\<rparr>))"

text \<open>
  The trials of one function: after the setup, the \<^verbatim>\<open>IterCount\<close> trials run on fresh
  locals. \<open>It\<close> is the array \<^verbatim>\<open>Iters\<close>, allocated once per run.
\<close>

definition fn_trials ::
  "('s, 'r, 'c) externals \<Rightarrow> 's CTester \<Rightarrow> CTestFn \<Rightarrow> int list \<Rightarrow> 'r \<Rightarrow> 'c \<Rightarrow>
     error + ('s CTester \<times> locals \<times> 'r \<times> 'c)" where
  "fn_trials X T f It r c =
     (case fn_setup X T f of
        Inl e \<Rightarrow> Inl e
      | Inr T1 \<Rightarrow>
          trials X T1 (resolved_dims T f) [0..<nat (IterCount T)]
            \<lparr>AvgIter = Finite 0, AvgCost = Finite 0, AvgRjCost = Finite 0, Rej = 0, Iters = It\<rparr> r c)"

text \<open>The body of the loop over the functions: trials, statistics, report, sums.\<close>

definition run_fn ::
  "('s, 'r, 'c) externals \<Rightarrow> 's CTester \<Rightarrow> CTestFn \<Rightarrow> int list \<Rightarrow> 'r \<Rightarrow> 'c \<Rightarrow> report list \<Rightarrow>
     error + ('s CTester \<times> int list \<times> 'r \<times> 'c \<times> report list)" where
  "run_fn X T f It r c out =
     (case fn_trials X T f It r c of
        Inl e \<Rightarrow> Inl e
      | Inr (T1, L1, r1, c1) \<Rightarrow>
          (case function_stats T1 L1 of (L2, Avg, RMS) \<Rightarrow>
             Inr (T1\<lparr>ItAvg := dadd (ItAvg T1) Avg,
                     ItRtAvg := dadd (ItRtAvg T1) (ddiv RMS Avg),
                     RjAvg := dadd (RjAvg T1) (ddiv (d_of_int (Rej L2)) (d_of_int (IterCount T1)))\<rparr>,
                  Iters L2, r1, c1,
                  if DoPrint T1
                  then out @ [FnLine Avg RMS
                                (ddiv (dmul (Finite 100) (d_of_int (Rej L2))) (d_of_int (IterCount T1)))
                                (AvgCost L2) (AvgRjCost L2) (Name (fn (opt T1))) (resolved_dims T f)]
                  else out)))"

fun run_fns ::
  "('s, 'r, 'c) externals \<Rightarrow> 's CTester \<Rightarrow> CTestFn list \<Rightarrow> int list \<Rightarrow> 'r \<Rightarrow> 'c \<Rightarrow> report list \<Rightarrow>
     error + ('s CTester \<times> int list \<times> 'r \<times> 'c \<times> report list)" where
  "run_fns X T [] It r c out = Inr (T, It, r, c, out)"
| "run_fns X T (f # fs) It r c out =
     (case run_fn X T f It r c out of
        Inl e \<Rightarrow> Inl e
      | Inr (T', It', r', c', out') \<Rightarrow> run_fns X T' fs It' r' c' out')"

text \<open>
  \<^verbatim>\<open>CTester::run\<close>. The loop over \<^verbatim>\<open>k < FnCount\<close> visits the first \<^verbatim>\<open>FnCount\<close> entries of
  \<^verbatim>\<open>Funcs\<close>; \<^verbatim>\<open>new int[ IterCount ]\<close> throws on a negative length.
\<close>

definition run ::
  "('s, 'r, 'c) externals \<Rightarrow> 's CTester \<Rightarrow> 'r \<Rightarrow> 'c \<Rightarrow>
     error + ('s CTester \<times> 'r \<times> 'c \<times> report list)" where
  "run X T r c =
     (let T0 = T\<lparr>ItAvg := Finite 0, ItRtAvg := Finite 0, RjAvg := Finite 0, tc := 0\<rparr>
      in if IterCount T0 < 0 then Inl BadArrayNewLength
         else case run_fns X T0 (take (nat (FnCount T0)) (Funcs T0)) (new_int (IterCount T0)) r c [] of
                Inl e \<Rightarrow> Inl e
              | Inr (T1, It, r1, c1, out) \<Rightarrow>
                  let T2 = T1\<lparr>ItAvg := ddiv (ItAvg T1) (d_of_int (FnCount T1)),
                              ItRtAvg := ddiv (ItRtAvg T1) (d_of_int (FnCount T1)),
                              RjAvg := ddiv (RjAvg T1) (d_of_int (FnCount T1))\<rparr>
                  in Inr (T2, r1, c1,
                          if DoPrint T2
                          then out @ [Summary (ItAvg T2) (ItRtAvg T2)
                                        (dmul (RjAvg T2) (Finite 100)) (tc T2)]
                          else out))"

section \<open>The Python binding \<^verbatim>\<open>minimize_func\<close>\<close>

text \<open>
  The Python objects the binding receives: a number (what \<^verbatim>\<open>PyFloat_AsDouble\<close> converts),
  an iterable with its items, or any other object.
\<close>

datatype pyobj = PyNum double | PySeq "pyobj list" | PyOther

text \<open>
  The exceptions: a \<^verbatim>\<open>TypeError\<close> with the message that the binding sets, and any
  exception set by the C API or by the objective, of which the binding uses only that it
  is set.
\<close>

datatype pyerr = TypeError string | OtherError

text \<open>
  The state of the interpreter: the error indicator, which \<^verbatim>\<open>PyErr_Occurred\<close> reads and
  \<^verbatim>\<open>PyErr_SetString\<close> writes, and the rest of the state, which the objective may change.
\<close>

record 'w interp =
  pending :: "pyerr option"
  world :: 'w

definition PyErr_SetString :: "string \<Rightarrow> 'w interp \<Rightarrow> 'w interp" where
  "PyErr_SetString msg w = w\<lparr>pending := Some (TypeError msg)\<rparr>"

text \<open>
  \<^verbatim>\<open>PyObject_GetIter\<close> gives the items of an iterable and fails on any other object; the
  exception it sets on a failure is replaced at once by the one of the binding.
  \<^verbatim>\<open>PyFloat_AsDouble\<close> returns the value of a number; on any other object, and on the
  null pointer, it sets an exception and returns -1.
\<close>

fun PyObject_GetIter :: "pyobj \<Rightarrow> pyobj list option" where
  "PyObject_GetIter (PySeq xs) = Some xs"
| "PyObject_GetIter x = None"

fun PyFloat_AsDouble :: "pyobj option \<Rightarrow> 'w interp \<Rightarrow> double \<times> 'w interp" where
  "PyFloat_AsDouble (Some (PyNum d)) w = (d, w)"
| "PyFloat_AsDouble x w = (Finite (- 1), w\<lparr>pending := Some OtherError\<rparr>)"

text \<open>
  The loop that reads the items of a bound list into a vector: the converted value is
  appended, then the error indicator is tested.
\<close>

fun read_doubles :: "pyobj list \<Rightarrow> double list \<Rightarrow> 'w interp \<Rightarrow> double list option \<times> 'w interp" where
  "read_doubles [] v w = (Some v, w)"
| "read_doubles (x # xs) v w =
     (case PyFloat_AsDouble (Some x) w of (d, w1) \<Rightarrow>
        if pending w1 \<noteq> None
        then (None, PyErr_SetString ''minimize: numerical list is required'' w1)
        else read_doubles xs (v @ [d]) w1)"

text \<open>The loop \<^verbatim>\<open>if(lower[i] > upper[i])\<close> over the indices.\<close>

fun bounds_loop :: "nat list \<Rightarrow> double list \<Rightarrow> double list \<Rightarrow> bool" where
  "bounds_loop [] lower upper = True"
| "bounds_loop (i # is) lower upper =
     (if dless (upper ! i) (lower ! i) then False else bounds_loop is lower upper)"

text \<open>
  The conversion of a \<^verbatim>\<open>size_t\<close> to \<^verbatim>\<open>int\<close> (\<^verbatim>\<open>int dimensions = lower.size()\<close>, and the first
  argument of \<^verbatim>\<open>biteopt_minimize\<close>): the value modulo \<open>2 ^ 32\<close>, read as a signed number.
\<close>

definition size_to_int :: "nat \<Rightarrow> int" where
  "size_to_int n = sint (word_of_nat n :: 32 word)"

text \<open>
  The lambda given to the optimizer. \<open>func\<close> is the call of the Python objective on the
  first \<open>N\<close> values (\<^verbatim>\<open>PyObject_CallFunctionObjArgs\<close>): its result is an object, or the
  null pointer when the call raised. The result is converted with \<^verbatim>\<open>PyFloat_AsDouble\<close>,
  and nothing tests the error indicator: when the result is no number, the lambda
  returns -1 and leaves the exception set.
\<close>

definition closure ::
  "(double list \<Rightarrow> 'w interp \<Rightarrow> pyobj option \<times> 'w interp) \<Rightarrow> int \<Rightarrow> double list \<Rightarrow> 'w interp \<Rightarrow>
     double \<times> 'w interp" where
  "closure func N x w =
     (case func (take (nat N) x) w of (res, w') \<Rightarrow> PyFloat_AsDouble res w')"

text \<open>
  A NumPy array made by \<^verbatim>\<open>PyArray_SimpleNewFromData\<close>: its length and the storage it
  points to, which it does not copy. \<open>None\<close> is storage that has been freed.
\<close>

datatype ndarray = NdArray int "double list option"

text \<open>What \<^verbatim>\<open>minimize_func\<close> returns: the null pointer, or the tuple \<^verbatim>\<open>(fun, res)\<close>.\<close>

datatype pyret = PyNULL | PyTuple double ndarray

text \<open>
  \<^verbatim>\<open>minimize_func\<close>, after the arguments are parsed (\<open>iter\<close>, \<open>Mi\<close> and \<open>attc\<close> are
  optional, with the defaults 1, 1 and 10). \<open>BM\<close> is \<^verbatim>\<open>biteopt_minimize\<close> of
  \<^verbatim>\<open>biteopt.h\<close>, a parameter: it receives the dimension, the objective, the bounds, the
  buffer for the best point and the three integers, and gives the best point and the
  minimum.

  The array \<^verbatim>\<open>res\<close> of the result is made on \<^verbatim>\<open>best_x.data()\<close>, and \<^verbatim>\<open>best_x\<close> is a local
  vector: its destructor frees that storage when the function returns, so the array
  that the caller receives points to freed storage. The function returns the tuple
  whether or not the objective has left an exception set (the interpreter turns a
  result that comes with an exception set into a \<^verbatim>\<open>SystemError\<close>).
\<close>

definition minimize_func ::
  "(int \<Rightarrow> (int \<Rightarrow> double list \<Rightarrow> 'w interp \<Rightarrow> double \<times> 'w interp) \<Rightarrow> double list \<Rightarrow> double list \<Rightarrow>
      double list \<Rightarrow> int \<Rightarrow> int \<Rightarrow> int \<Rightarrow> 'w interp \<Rightarrow> (double list \<times> double) \<times> 'w interp) \<Rightarrow>
   (double list \<Rightarrow> 'w interp \<Rightarrow> pyobj option \<times> 'w interp) \<Rightarrow> pyobj \<Rightarrow> pyobj \<Rightarrow>
   int option \<Rightarrow> int option \<Rightarrow> int option \<Rightarrow> 'w interp \<Rightarrow> pyret \<times> 'w interp" where
  "minimize_func BM func_py lower_py upper_py iter Mi attc w =
     (let iter_py = (case iter of None \<Rightarrow> 1 | Some n \<Rightarrow> n);
          M_py = (case Mi of None \<Rightarrow> 1 | Some n \<Rightarrow> n);
          attc_py = (case attc of None \<Rightarrow> 10 | Some n \<Rightarrow> n)
      in case PyObject_GetIter lower_py of
           None \<Rightarrow> (PyNULL, PyErr_SetString ''minimize: a list is required in 2nd pos'' w)
         | Some ls \<Rightarrow>
        (case read_doubles ls [] w of
           (None, w1) \<Rightarrow> (PyNULL, w1)
         | (Some lower, w1) \<Rightarrow>
        (case PyObject_GetIter upper_py of
           None \<Rightarrow> (PyNULL, PyErr_SetString ''minimize: a list is required in 3rd pos'' w1)
         | Some us \<Rightarrow>
        (case read_doubles us [] w1 of
           (None, w2) \<Rightarrow> (PyNULL, w2)
         | (Some upper, w2) \<Rightarrow>
             if length lower \<noteq> length upper
             then (PyNULL, PyErr_SetString ''minimize: matching list lengths required'' w2)
             else if \<not> bounds_loop [0..<length lower] lower upper
             then (PyNULL, PyErr_SetString ''minimize: lower should not be greater than upper'' w2)
             else (case BM (size_to_int (length lower)) (closure func_py) lower upper
                           (replicate (length lower) (Finite 0)) iter_py M_py attc_py w2 of
                     ((best_x, min_f), w') \<Rightarrow>
                       (PyTuple min_f (NdArray (size_to_int (length lower)) None), w'))))))"

text \<open>The comparison \<^verbatim>\<open><=\<close> on doubles, used to state properties.\<close>

fun dle :: "double \<Rightarrow> double \<Rightarrow> bool" where
  "dle (Finite x) (Finite y) = (x \<le> y)"
| "dle NaN b = False"
| "dle a NaN = False"
| "dle NegInf b = True"
| "dle a PosInf = True"
| "dle a NegInf = False"
| "dle PosInf b = False"

subsection \<open>A stub optimizer and stub objectives that count their calls\<close>

text \<open>
  The rest of the interpreter state of the examples is a pair of counters: the calls of
  the optimizer and the evaluations of the objective. The stub optimizer evaluates the
  objective once, at the lower bounds. One stub objective returns the number 7, the
  other an object that is no number.
\<close>

definition bm_stub ::
  "int \<Rightarrow> (int \<Rightarrow> double list \<Rightarrow> (nat \<times> nat) interp \<Rightarrow> double \<times> (nat \<times> nat) interp) \<Rightarrow>
     double list \<Rightarrow> double list \<Rightarrow> double list \<Rightarrow> int \<Rightarrow> int \<Rightarrow> int \<Rightarrow> (nat \<times> nat) interp \<Rightarrow>
     (double list \<times> double) \<times> (nat \<times> nat) interp" where
  "bm_stub N f lb ub x it M a w =
     (case f N lb (w\<lparr>world := (fst (world w) + 1, snd (world w))\<rparr>) of (v, w') \<Rightarrow> ((lb, v), w'))"

definition func_stub :: "double list \<Rightarrow> (nat \<times> nat) interp \<Rightarrow> pyobj option \<times> (nat \<times> nat) interp" where
  "func_stub x w = (Some (PyNum (Finite 7)), w\<lparr>world := (fst (world w), snd (world w) + 1)\<rparr>)"

definition func_none :: "double list \<Rightarrow> (nat \<times> nat) interp \<Rightarrow> pyobj option \<times> (nat \<times> nat) interp" where
  "func_none x w = (Some PyOther, w\<lparr>world := (fst (world w), snd (world w) + 1)\<rparr>)"

definition w_stub :: "(nat \<times> nat) interp" where
  "w_stub = \<lparr>pending = None, world = (0, 0)\<rparr>"

section \<open>Notions used to state the properties\<close>

text \<open>The values of \<open>n\<close> successive calls of \<open>g\<close>, and the state after them.\<close>

fun draws :: "('r \<Rightarrow> 'a \<times> 'r) \<Rightarrow> nat \<Rightarrow> 'r \<Rightarrow> 'a list \<times> 'r" where
  "draws g 0 r = ([], r)"
| "draws g (Suc n) r =
     (case g r of (v, r') \<Rightarrow> (case draws g n r' of (vs, r'') \<Rightarrow> (v # vs, r'')))"

text \<open>The factor \<^verbatim>\<open>0.5 + rnd * 0.5\<close> applied to a bound, and the sign chosen from a draw.\<close>

definition scale_by :: "double \<Rightarrow> double \<Rightarrow> double" where
  "scale_by b v = dmul b (dadd (Finite (1/2)) (dmul v (Finite (1/2))))"

definition sign_of :: "double \<Rightarrow> double" where
  "sign_of v = (if dless v (Finite (1/2)) then Finite 1 else Finite (- 1))"

subsection \<open>Stub collaborators for the examples\<close>

text \<open>
  A generator that alternates between 1/4 and 3/4, a cycle counter that advances by 5
  between two readings, and an optimizer whose state is a distance to the optimum:
  \<open>init\<close> draws the start (1 or 3), a step moves one unit closer, and the best cost is
  the distance.
\<close>

definition rnd_stub :: "nat \<Rightarrow> double \<times> nat" where
  "rnd_stub r = (if even r then Finite (1/4) else Finite (3/4), Suc r)"

definition clock_stub :: "nat \<Rightarrow> 64 word \<times> nat" where
  "clock_stub c = (of_nat c, c + 5)"

definition stub_init :: "nat hooks \<Rightarrow> nat \<Rightarrow> nat \<Rightarrow> nat \<times> nat" where
  "stub_init h s r = (case rnd_stub r of (v, r') \<Rightarrow> (if dless v (Finite (1/2)) then 1 else 3, r'))"

definition X_stub :: "(nat, nat, nat) externals" where
  "X_stub = \<lparr>getRndValue = rnd_stub, rdtsc = clock_stub,
             fan_updateDims = (\<lambda>d fs s. s), fan_init = stub_init,
             fan_optimize = (\<lambda>h s r. (s - 1, r)),
             fan_getBestCost = (\<lambda>s. Finite (real s))\<rparr>"

text \<open>The sum of squares, with the optimum 0 at the origin.\<close>

definition sphere :: CTestFn where
  "sphere = \<lparr>Name = ''sphere'', FnDims = 0, RangeMin = Finite (- 10), RangeMax = Finite 10,
             OptValue = Finite 0,
             Calc = (\<lambda>p N. foldl dadd (Finite 0) (map (\<lambda>x. dmul x x) (take (nat N) p)))\<rparr>"

definition opt_stub :: "bool \<Rightarrow> nat CTestOpt" where
  "opt_stub rz = \<lparr>fn = sphere, optDoRandomize = rz, Dims = 2,
                  signs = [Finite 1, Finite (- 1)], tp = [NaN, NaN], fan = 0\<rparr>"

text \<open>
  The state (tester, generator, counter) after \<open>n\<close> timed optimizer steps, and the test
  of the stop condition \<^verbatim>\<open>getBestCost() - OptValue < CostThreshold\<close> after \<open>n\<close> steps.
\<close>

fun steps ::
  "('s, 'r, 'c) externals \<Rightarrow> nat \<Rightarrow> 's CTester \<times> 'r \<times> 'c \<Rightarrow> 's CTester \<times> 'r \<times> 'c" where
  "steps X 0 S = S"
| "steps X (Suc n) S = (case S of (T, r, c) \<Rightarrow> steps X n (timed_optimize X T r c))"

definition converged :: "('s, 'r, 'c) externals \<Rightarrow> 's CTester \<Rightarrow> bool" where
  "converged X T =
     dless (dsub (getBestCost X T) (OptValue (fn (opt T)))) (CostThreshold T)"

definition reached :: "('s, 'r, 'c) externals \<Rightarrow> 's CTester \<Rightarrow> 'r \<Rightarrow> 'c \<Rightarrow> nat \<Rightarrow> bool" where
  "reached X T r c n = converged X (fst (steps X n (T, r, c)))"

text \<open>
  A tester as \<^verbatim>\<open>init\<close> leaves it, for the one-function corpus of the sum of squares (in two
  dimensions, by the default). The members that \<^verbatim>\<open>init\<close> does not set are indeterminate
  in C++ and given here; \<open>s\<close> is the state of the stub optimizer.
\<close>

definition T_stub :: "CTestFn list \<Rightarrow> double \<Rightarrow> int \<Rightarrow> int \<Rightarrow> bool \<Rightarrow> nat \<Rightarrow> nat CTester" where
  "T_stub Corpus thr ic iic rz s =
     init 2 Corpus thr ic iic rz False
       \<lparr>DefDims = 0, opt = (opt_stub rz)\<lparr>fan := s\<rparr>, ItAvg = NaN, ItRtAvg = NaN, RjAvg = NaN,
        tc = 0, Funcs = [], FnCount = 0, CostThreshold = NaN, IterCount = 0,
        InnerIterCount = 0, DoRandomize = False, DoPrint = False\<rparr>"

definition L_stub :: "int list \<Rightarrow> locals" where
  "L_stub It = \<lparr>AvgIter = Finite 0, AvgCost = Finite 0, AvgRjCost = Finite 0, Rej = 0, Iters = It\<rparr>"

text \<open>
  The sign vector of a trial that starts with the generator in state \<open>r\<close>: \<open>n\<close> signs
  chosen from \<open>n\<close> successive draws when randomization is on, and \<open>n\<close> times 1 otherwise.
\<close>

definition trial_signs :: "('s, 'r, 'c) externals \<Rightarrow> bool \<Rightarrow> nat \<Rightarrow> 'r \<Rightarrow> double list" where
  "trial_signs X rz n r =
     (if rz then map sign_of (fst (draws (getRndValue X) n r)) else replicate n (Finite 1))"

text \<open>
  The generator after the sign draws of a trial, and the tester and generator at the
  entry of the inner loop of a trial: the signs are those of \<open>trial_signs\<close> and the
  optimizer has been initialized.
\<close>

definition trial_rnd :: "('s, 'r, 'c) externals \<Rightarrow> bool \<Rightarrow> nat \<Rightarrow> 'r \<Rightarrow> 'r" where
  "trial_rnd X rz n r = (if rz then snd (draws (getRndValue X) n r) else r)"

definition trial_entry ::
  "('s, 'r, 'c) externals \<Rightarrow> 's CTester \<Rightarrow> int \<Rightarrow> 'r \<Rightarrow> 's CTester \<times> 'r" where
  "trial_entry X T D r =
     (let sg = trial_signs X (DoRandomize T) (nat D) r;
          I = fan_init X (hooks X ((opt T)\<lparr>signs := sg\<rparr>)) (fan (opt T))
                (trial_rnd X (DoRandomize T) (nat D) r)
      in (T\<lparr>opt := (opt T)\<lparr>signs := sg, fan := fst I\<rparr>\<rparr>, snd I))"

text \<open>
  The adapter is set up for the function \<open>f\<close> in \<open>D\<close> dimensions, with the signs at 1
  when there is no randomization.
\<close>

definition adapter_ready :: "'s CTester \<Rightarrow> CTestFn \<Rightarrow> int \<Rightarrow> bool" where
  "adapter_ready T f D =
     (fn (opt T) = f \<and> Dims (opt T) = D \<and> 0 \<le> D \<and> length (signs (opt T)) = nat D \<and>
      length (tp (opt T)) = nat D \<and>
      (if DoRandomize T then True else signs (opt T) = replicate (nat D) (Finite 1)))"

text \<open>
  The two ways in which a trial \<open>j\<close> changes the locals: a success after \<open>s\<close> steps with
  best cost \<open>b\<close>, and a reject with best cost \<open>b\<close>.
\<close>

definition record_success :: "locals \<Rightarrow> int \<Rightarrow> int \<Rightarrow> double \<Rightarrow> locals" where
  "record_success L j s b =
     L\<lparr>AvgCost := dadd (AvgCost L) b, Iters := (Iters L)[nat j := s],
       AvgIter := dadd (AvgIter L) (d_of_int s)\<rparr>"

definition record_reject :: "locals \<Rightarrow> int \<Rightarrow> double \<Rightarrow> locals" where
  "record_reject L j b =
     L\<lparr>AvgRjCost := dadd (AvgRjCost L) b, Rej := Rej L + 1, Iters := (Iters L)[nat j := - 1]\<rparr>"

text \<open>
  The cycle counter is read twice for each optimizer step: the sum of the differences
  of the two readings over \<open>n\<close> steps from the counter state \<open>c\<close>, and the counter
  state after them.
\<close>

fun ticks :: "('s, 'r, 'c) externals \<Rightarrow> nat \<Rightarrow> 'c \<Rightarrow> 64 word" where
  "ticks X 0 c = 0"
| "ticks X (Suc n) c =
     (case rdtsc X c of (t1, c1) \<Rightarrow> case rdtsc X c1 of (t2, c2) \<Rightarrow> (t2 - t1) + ticks X n c2)"

fun clock_after :: "('s, 'r, 'c) externals \<Rightarrow> nat \<Rightarrow> 'c \<Rightarrow> 'c" where
  "clock_after X 0 c = c"
| "clock_after X (Suc n) c = clock_after X n (snd (rdtsc X (snd (rdtsc X c))))"

text \<open>
  The number of optimizer steps of a trial, read from its entry of \<^verbatim>\<open>Iters\<close>: the step
  budget for a reject (-1), the recorded count for a success.
\<close>

definition trial_steps :: "int \<Rightarrow> int \<Rightarrow> nat" where
  "trial_steps N v = (if v = - 1 then nat N else nat v)"

text \<open>
  The state of the locals after the first \<open>k\<close> trials of a function, for the step budget
  \<open>N\<close>: each of the first \<open>k\<close> entries of \<^verbatim>\<open>Iters\<close> is -1 or a step count between 1 and \<open>N\<close>
  (and then \<open>P\<close> holds), and \<^verbatim>\<open>Rej\<close> is the number of entries -1 among them. A cost sum
  that no trial has been added to is still 0.
\<close>

definition tallied :: "bool \<Rightarrow> int \<Rightarrow> nat \<Rightarrow> locals \<Rightarrow> bool" where
  "tallied P N k L =
     (k \<le> length (Iters L) \<and>
      list_all (\<lambda>v. v = - 1 \<or> (1 \<le> v \<and> v \<le> N \<and> P)) (take k (Iters L)) \<and>
      Rej L = int (length (filter (\<lambda>v. v = - 1) (take k (Iters L)))) \<and>
      (if Rej L = 0 then AvgRjCost L = Finite 0 else True) \<and>
      (if Rej L = int k then AvgCost L = Finite 0 \<and> AvgIter L = Finite 0 else True))"

text \<open>Some state of the optimizer meets the stop condition for the function \<open>f\<close>.\<close>

definition can_converge :: "('s, 'r, 'c) externals \<Rightarrow> CTestFn \<Rightarrow> double \<Rightarrow> bool" where
  "can_converge X f thr = (\<exists>s. dless (dsub (fan_getBestCost X s) (OptValue f)) thr)"

text \<open>
  The statistics of one function as the specification names them, read from the
  variables of \<^verbatim>\<open>run\<close> after the trials of the function (\<^verbatim>\<open>trialIters\<close> is the array
  \<^verbatim>\<open>Iters\<close>), and the statistics of the functions of a corpus in the order of the run.
\<close>

record FunctionStats =
  avgIterations :: double
  rmsIterations :: double
  rejectRate :: double
  avgCostOnSuccess :: double
  avgCostOnReject :: double
  rejectCount :: int
  trialIters :: "int list"

definition stats_of :: "'s CTester \<Rightarrow> locals \<Rightarrow> FunctionStats" where
  "stats_of T L =
     (case function_stats T L of (L2, Avg, RMS) \<Rightarrow>
        \<lparr>avgIterations = Avg, rmsIterations = RMS,
         rejectRate = ddiv (d_of_int (Rej L2)) (d_of_int (IterCount T)),
         avgCostOnSuccess = AvgCost L2, avgCostOnReject = AvgRjCost L2,
         rejectCount = Rej L2, trialIters = Iters L2\<rparr>)"

fun corpus_stats ::
  "('s, 'r, 'c) externals \<Rightarrow> 's CTester \<Rightarrow> CTestFn list \<Rightarrow> int list \<Rightarrow> 'r \<Rightarrow> 'c \<Rightarrow> report list \<Rightarrow>
     FunctionStats list" where
  "corpus_stats X T [] It r c out = []"
| "corpus_stats X T (f # fs) It r c out =
     (case fn_trials X T f It r c of
        Inl e \<Rightarrow> []
      | Inr (T1, L1, r1, c1) \<Rightarrow>
          stats_of T1 L1 #
          (case run_fn X T f It r c out of
             Inl e \<Rightarrow> []
           | Inr (T', It', r', c', out') \<Rightarrow> corpus_stats X T' fs It' r' c' out'))"

definition run_stats ::
  "('s, 'r, 'c) externals \<Rightarrow> 's CTester \<Rightarrow> 'r \<Rightarrow> 'c \<Rightarrow> FunctionStats list" where
  "run_stats X T r c =
     corpus_stats X (T\<lparr>ItAvg := Finite 0, ItRtAvg := Finite 0, RjAvg := Finite 0, tc := 0\<rparr>)
       (take (nat (FnCount T)) (Funcs T)) (new_int (IterCount T)) r c []"

text \<open>The sum of doubles from 0.0, in the order of the list, and the arithmetic mean.\<close>

definition dsum :: "double list \<Rightarrow> double" where
  "dsum xs = foldl dadd (Finite 0) xs"

definition dmean :: "double list \<Rightarrow> double" where
  "dmean xs = ddiv (dsum xs) (d_of_int (int (length xs)))"

text \<open>
  Two testers with the same configuration (the members that \<^verbatim>\<open>run\<close> does not write).
\<close>

definition same_config :: "'s CTester \<Rightarrow> 's CTester \<Rightarrow> bool" where
  "same_config T T' =
     (DefDims T' = DefDims T \<and> Funcs T' = Funcs T \<and> FnCount T' = FnCount T \<and>
      CostThreshold T' = CostThreshold T \<and> IterCount T' = IterCount T \<and>
      InnerIterCount T' = InnerIterCount T \<and> DoRandomize T' = DoRandomize T \<and>
      DoPrint T' = DoPrint T)"

text \<open>
  A record of statistics is that of the function \<open>f\<close> in a run of the tester \<open>T\<close>: it is
  computed from locals that tally the \<^verbatim>\<open>IterCount\<close> trials of \<open>f\<close>. The number of
  optimizer steps behind a list of statistics is the sum of the steps of the trials.
\<close>

definition fn_summary ::
  "('s, 'r, 'c) externals \<Rightarrow> 's CTester \<Rightarrow> CTestFn \<Rightarrow> FunctionStats \<Rightarrow> bool" where
  "fn_summary X T f s =
     (\<exists>(T1 :: 's CTester) L1. s = stats_of T1 L1 \<and> IterCount T1 = IterCount T \<and>
        length (Iters L1) = nat (IterCount T) \<and>
        tallied (can_converge X f (CostThreshold T)) (InnerIterCount T) (nat (IterCount T)) L1)"

definition stats_steps :: "int \<Rightarrow> FunctionStats list \<Rightarrow> nat" where
  "stats_steps N S = sum_list (map (\<lambda>s. sum_list (map (trial_steps N) (trialIters s))) S)"

text \<open>
  A stub optimizer that counts its initializations and its steps, and whose best cost
  is always 0.
\<close>

definition X_count :: "(nat \<times> nat, nat, nat) externals" where
  "X_count = \<lparr>getRndValue = rnd_stub, rdtsc = clock_stub,
              fan_updateDims = (\<lambda>d fs s. s),
              fan_init = (\<lambda>h s r. ((fst s + 1, snd s), r)),
              fan_optimize = (\<lambda>h s r. ((fst s, snd s + 1), r)),
              fan_getBestCost = (\<lambda>s. Finite 0)\<rparr>"

definition tester_count :: "(nat \<times> nat) CTester" where
  "tester_count =
     \<lparr>DefDims = 0, opt = \<lparr>fn = sphere, optDoRandomize = False, Dims = 0, signs = [], tp = [],
                              fan = (0, 0)\<rparr>,
      ItAvg = NaN, ItRtAvg = NaN, RjAvg = NaN, tc = 0, Funcs = [], FnCount = 0,
      CostThreshold = NaN, IterCount = 0, InnerIterCount = 0, DoRandomize = False,
      DoPrint = False\<rparr>"

definition T_count :: "int \<Rightarrow> CTestFn list \<Rightarrow> int \<Rightarrow> int \<Rightarrow> (nat \<times> nat) CTester" where
  "T_count d Corpus ic iic = init d Corpus (Finite (1/2)) ic iic False False tester_count"

text \<open>The state of the optimizer after the calls of \<^verbatim>\<open>updateDims\<close> for the functions only.\<close>

definition dims_only ::
  "('s, 'r, 'c) externals \<Rightarrow> 's CTester \<Rightarrow> CTestFn list \<Rightarrow> 's \<Rightarrow> 's" where
  "dims_only X T fs s = foldl (\<lambda>s f. fan_updateDims X (resolved_dims T f) 0 s) s fs"

text \<open>
  The view of a run without its timing: the cycle counter replaced by one that always
  reads 0, the tick total erased from the tester and from the summary line, and the
  state of the counter dropped from the result.
\<close>

definition no_clock :: "('s, 'r, 'c) externals \<Rightarrow> ('s, 'r, 'c) externals" where
  "no_clock X = X\<lparr>rdtsc := (\<lambda>c. (0, c))\<rparr>"

definition erase_tc :: "'s CTester \<Rightarrow> 's CTester" where
  "erase_tc T = T\<lparr>tc := 0\<rparr>"

fun erase_report :: "report \<Rightarrow> report" where
  "erase_report (Summary a b d t) = Summary a b d 0"
| "erase_report (FnLine a b d e g n k) = FnLine a b d e g n k"

definition stats_view ::
  "error + ('s CTester \<times> 'r \<times> 'c \<times> report list) \<Rightarrow> error + ('s CTester \<times> 'r \<times> report list)" where
  "stats_view res =
     (case res of
        Inl e \<Rightarrow> Inl e
      | Inr (T', r', c', out) \<Rightarrow> Inr (erase_tc T', r', map erase_report out))"

text \<open>The same erasure for the results of the loops inside a run.\<close>

definition erase_loop ::
  "'c \<Rightarrow> error + ('s CTester \<times> locals \<times> 'r \<times> 'c) \<Rightarrow> error + ('s CTester \<times> locals \<times> 'r \<times> 'c)" where
  "erase_loop c0 res =
     (case res of
        Inl e \<Rightarrow> Inl e
      | Inr (T', L', r', c') \<Rightarrow> Inr (erase_tc T', L', r', c0))"

definition erase_fn ::
  "'c \<Rightarrow> error + ('s CTester \<times> int list \<times> 'r \<times> 'c \<times> report list) \<Rightarrow>
     error + ('s CTester \<times> int list \<times> 'r \<times> 'c \<times> report list)" where
  "erase_fn c0 res =
     (case res of
        Inl e \<Rightarrow> Inl e
      | Inr (T', It', r', c', out') \<Rightarrow> Inr (erase_tc T', It', r', c0, out'))"


text \<open>
  The best cost that the optimizer reports in a trial never meets the stop condition:
  after none of the \<^verbatim>\<open>InnerIterCount\<close> steps from the entry of the trial is
  \<^verbatim>\<open>getBestCost() - OptValue < CostThreshold\<close>. The same for the trials of a function, for
  the functions of a corpus and for a run, each trial taken in the state in which the run
  reaches it.
\<close>

definition trial_never_within ::
  "('s, 'r, 'c) externals \<Rightarrow> 's CTester \<Rightarrow> int \<Rightarrow> 'r \<Rightarrow> 'c \<Rightarrow> bool" where
  "trial_never_within X T D r c =
     (case trial_entry X T D r of (T0, r0) \<Rightarrow>
        list_all (\<lambda>n. \<not> reached X T0 r0 c n) [1..<Suc (nat (InnerIterCount T))])"

fun trials_never_within ::
  "('s, 'r, 'c) externals \<Rightarrow> 's CTester \<Rightarrow> int \<Rightarrow> nat list \<Rightarrow> locals \<Rightarrow> 'r \<Rightarrow> 'c \<Rightarrow> bool" where
  "trials_never_within X T D [] L r c = True"
| "trials_never_within X T D (j # js) L r c =
     (trial_never_within X T D r c \<and>
      (case trial X T D (int j) L r c of
         Inl e \<Rightarrow> True
       | Inr (T', L', r', c') \<Rightarrow> trials_never_within X T' D js L' r' c'))"

fun fns_never_within ::
  "('s, 'r, 'c) externals \<Rightarrow> 's CTester \<Rightarrow> CTestFn list \<Rightarrow> int list \<Rightarrow> 'r \<Rightarrow> 'c \<Rightarrow> report list \<Rightarrow>
     bool" where
  "fns_never_within X T [] It r c out = True"
| "fns_never_within X T (f # fs) It r c out =
     ((case fn_setup X T f of
         Inl e \<Rightarrow> True
       | Inr T1 \<Rightarrow>
           trials_never_within X T1 (resolved_dims T f) [0..<nat (IterCount T)]
             \<lparr>AvgIter = Finite 0, AvgCost = Finite 0, AvgRjCost = Finite 0, Rej = 0, Iters = It\<rparr>
             r c) \<and>
      (case run_fn X T f It r c out of
         Inl e \<Rightarrow> True
       | Inr (T', It', r', c', out') \<Rightarrow> fns_never_within X T' fs It' r' c' out'))"

definition run_never_within :: "('s, 'r, 'c) externals \<Rightarrow> 's CTester \<Rightarrow> 'r \<Rightarrow> 'c \<Rightarrow> bool" where
  "run_never_within X T r c =
     fns_never_within X (T\<lparr>ItAvg := Finite 0, ItRtAvg := Finite 0, RjAvg := Finite 0, tc := 0\<rparr>)
       (take (nat (FnCount T)) (Funcs T)) (new_int (IterCount T)) r c []"

text \<open>The sum of squares in one dimension.\<close>

definition sphere1 :: CTestFn where
  "sphere1 = sphere\<lparr>Name := ''sphere1'', FnDims := 1\<rparr>"

section \<open>Properties of the binding\<close>

lemma read_doubles_nums:
  "pending w = None \<Longrightarrow> read_doubles (map PyNum ds) v w = (Some (v @ ds), w)"
  by (induction ds arbitrary: v) simp_all

lemma read_doubles_pending:
  "pending w \<noteq> None \<Longrightarrow> ds \<noteq> [] \<Longrightarrow>
     read_doubles (map PyNum ds) v w
       = (None, PyErr_SetString ''minimize: numerical list is required'' w)"
  by (cases ds) simp_all

lemma dle_not_greater: "dle a b \<Longrightarrow> \<not> dless b a"
  by (cases a; cases b) simp_all

lemma bounds_loop_iff:
  "bounds_loop is lower upper \<longleftrightarrow> (\<forall>i \<in> set is. \<not> dless (upper ! i) (lower ! i))"
  by (induction "is") simp_all

text \<open>
  C5. When the bound lists (numeric lists \<open>ls\<close> and \<open>us\<close>) differ in length, or some
  lower bound is greater than the upper bound at the same index, \<^verbatim>\<open>minimize_func\<close>
  returns the null pointer with a \<^verbatim>\<open>TypeError\<close> set and leaves the rest of the
  interpreter state as it was, whatever the optimizer and the objective are: neither is
  called. When the lengths are equal and every lower bound is at most its upper bound
  (and no exception is pending at the call), \<^verbatim>\<open>biteopt_minimize\<close> is called on the two
  vectors with the objective, and the function returns the tuple of the minimum and of
  the array on the freed storage, in the state that the call leaves.
\<close>

theorem minimize_func_validates:
  "((length ls \<noteq> length us \<or> (\<exists>i < min (length ls) (length us). dless (us ! i) (ls ! i))) \<longrightarrow>
      (\<exists>msg. minimize_func BM func_py (PySeq (map PyNum ls)) (PySeq (map PyNum us)) iter Mi attc w
                = (PyNULL, w\<lparr>pending := Some (TypeError msg)\<rparr>))) \<and>
   ((pending w = None \<and> length ls = length us \<and> (\<forall>i < length ls. dle (ls ! i) (us ! i))) \<longrightarrow>
      minimize_func BM func_py (PySeq (map PyNum ls)) (PySeq (map PyNum us)) iter Mi attc w
        = (case BM (size_to_int (length ls)) (closure func_py) ls us
                   (replicate (length ls) (Finite 0))
                   (case iter of None \<Rightarrow> 1 | Some n \<Rightarrow> n) (case Mi of None \<Rightarrow> 1 | Some n \<Rightarrow> n)
                   (case attc of None \<Rightarrow> 10 | Some n \<Rightarrow> n) w of
             ((best_x, min_f), w') \<Rightarrow>
               (PyTuple min_f (NdArray (size_to_int (length ls)) None), w')))"
proof (intro conjI impI)
  let ?m = "minimize_func BM func_py (PySeq (map PyNum ls)) (PySeq (map PyNum us)) iter Mi attc w"
  assume bad: "length ls \<noteq> length us \<or> (\<exists>i < min (length ls) (length us). dless (us ! i) (ls ! i))"
  show "\<exists>msg. ?m = (PyNULL, w\<lparr>pending := Some (TypeError msg)\<rparr>)"
  proof (cases "pending w = None")
    case True
    note rd = read_doubles_nums [OF True]
    show ?thesis
    proof (cases "length ls = length us")
      case False
      then have "?m = (PyNULL, w\<lparr>pending := Some (TypeError ''minimize: matching list lengths required'')\<rparr>)"
        by (simp add: minimize_func_def rd PyErr_SetString_def)
      then show ?thesis by blast
    next
      case eq: True
      with bad obtain i where i: "i < length ls" "dless (us ! i) (ls ! i)"
        by auto
      then have "\<not> bounds_loop [0..<length ls] ls us"
        by (auto simp: bounds_loop_iff)
      with eq have "?m = (PyNULL, w\<lparr>pending := Some (TypeError ''minimize: lower should not be greater than upper'')\<rparr>)"
        by (simp add: minimize_func_def rd PyErr_SetString_def)
      then show ?thesis by blast
    qed
  next
    case False
    from bad have ne: "ls \<noteq> [] \<or> us \<noteq> []" by auto
    have "?m = (PyNULL, w\<lparr>pending := Some (TypeError ''minimize: numerical list is required'')\<rparr>)"
    proof (cases "ls = []")
      case True
      with ne have "us \<noteq> []" by simp
      from read_doubles_pending [OF False this] True show ?thesis
        by (simp add: minimize_func_def PyErr_SetString_def)
    next
      case nel: False
      from read_doubles_pending [OF False nel] show ?thesis
        by (simp add: minimize_func_def PyErr_SetString_def)
    qed
    then show ?thesis by blast
  qed
next
  assume ok: "pending w = None \<and> length ls = length us \<and> (\<forall>i < length ls. dle (ls ! i) (us ! i))"
  then have "bounds_loop [0..<length ls] ls us"
    by (auto simp: bounds_loop_iff dest: dle_not_greater)
  with ok show "minimize_func BM func_py (PySeq (map PyNum ls)) (PySeq (map PyNum us)) iter Mi attc w
        = (case BM (size_to_int (length ls)) (closure func_py) ls us
                   (replicate (length ls) (Finite 0))
                   (case iter of None \<Rightarrow> 1 | Some n \<Rightarrow> n) (case Mi of None \<Rightarrow> 1 | Some n \<Rightarrow> n)
                   (case attc of None \<Rightarrow> 10 | Some n \<Rightarrow> n) w of
             ((best_x, min_f), w') \<Rightarrow>
               (PyTuple min_f (NdArray (size_to_int (length ls)) None), w'))"
    by (simp add: minimize_func_def read_doubles_nums Let_def)
qed

lemma size_to_int_small: "size_to_int (Suc 0) = 1" "size_to_int (Suc (Suc 0)) = 2"
  by (simp_all add: size_to_int_def)

theorem minimize_func_validates_witness:
  "(length [Finite 0, Finite 0] \<noteq> length [Finite 1] \<and>
    minimize_func bm_stub func_stub (PySeq (map PyNum [Finite 0, Finite 0])) (PySeq (map PyNum [Finite 1]))
        None None None w_stub
      = (PyNULL, \<lparr>pending = Some (TypeError ''minimize: matching list lengths required''),
                  world = (0, 0)\<rparr>)) \<and>
   (dless ([Finite 1] ! 0) ([Finite 5] ! 0) \<and>
    minimize_func bm_stub func_stub (PySeq (map PyNum [Finite 5])) (PySeq (map PyNum [Finite 1]))
        None None None w_stub
      = (PyNULL, \<lparr>pending = Some (TypeError ''minimize: lower should not be greater than upper''),
                  world = (0, 0)\<rparr>)) \<and>
   (pending w_stub = None \<and>
    dle ([Finite 0, Finite 0] ! 0) ([Finite 1, Finite 1] ! 0) \<and>
    dle ([Finite 0, Finite 0] ! 1) ([Finite 1, Finite 1] ! 1) \<and>
    minimize_func bm_stub func_stub (PySeq (map PyNum [Finite 0, Finite 0]))
        (PySeq (map PyNum [Finite 1, Finite 1])) None None None w_stub
      = (PyTuple (Finite 7) (NdArray 2 None), \<lparr>pending = None, world = (1, 1)\<rparr>) \<and>
    minimize_func bm_stub func_none (PySeq (map PyNum [Finite 0, Finite 0]))
        (PySeq (map PyNum [Finite 1, Finite 1])) None None None w_stub
      = (PyTuple (Finite (- 1)) (NdArray 2 None), \<lparr>pending = Some OtherError, world = (1, 1)\<rparr>))"
proof -
  have a: "\<exists>msg. minimize_func bm_stub func_stub (PySeq (map PyNum [Finite 0, Finite 0]))
        (PySeq (map PyNum [Finite 1])) None None None w_stub
          = (PyNULL, w_stub\<lparr>pending := Some (TypeError msg)\<rparr>)"
    using minimize_func_validates [of "[Finite 0, Finite 0]" "[Finite 1]" bm_stub func_stub None None None w_stub]
    by simp
  have b: "\<exists>msg. minimize_func bm_stub func_stub (PySeq (map PyNum [Finite 5]))
        (PySeq (map PyNum [Finite 1])) None None None w_stub
          = (PyNULL, w_stub\<lparr>pending := Some (TypeError msg)\<rparr>)"
    using minimize_func_validates [of "[Finite 5]" "[Finite 1]" bm_stub func_stub None None None w_stub]
    by simp
  have c: "minimize_func bm_stub func_stub (PySeq (map PyNum [Finite 0, Finite 0]))
        (PySeq (map PyNum [Finite 1, Finite 1])) None None None w_stub
      = (PyTuple (Finite 7) (NdArray 2 None), \<lparr>pending = None, world = (1, 1)\<rparr>)"
    using minimize_func_validates [of "[Finite 0, Finite 0]" "[Finite 1, Finite 1]" bm_stub func_stub None None None w_stub]
    by (simp add: less_Suc_eq bm_stub_def func_stub_def closure_def w_stub_def size_to_int_small)
  have d: "minimize_func bm_stub func_none (PySeq (map PyNum [Finite 0, Finite 0]))
        (PySeq (map PyNum [Finite 1, Finite 1])) None None None w_stub
      = (PyTuple (Finite (- 1)) (NdArray 2 None), \<lparr>pending = Some OtherError, world = (1, 1)\<rparr>)"
    using minimize_func_validates [of "[Finite 0, Finite 0]" "[Finite 1, Finite 1]" bm_stub func_none None None None w_stub]
    by (simp add: less_Suc_eq bm_stub_def func_none_def closure_def w_stub_def size_to_int_small)
  from a have a': "minimize_func bm_stub func_stub (PySeq (map PyNum [Finite 0, Finite 0]))
        (PySeq (map PyNum [Finite 1])) None None None w_stub
      = (PyNULL, \<lparr>pending = Some (TypeError ''minimize: matching list lengths required''),
                  world = (0, 0)\<rparr>)"
    by (simp add: minimize_func_def w_stub_def PyErr_SetString_def)
  from b have b': "minimize_func bm_stub func_stub (PySeq (map PyNum [Finite 5]))
        (PySeq (map PyNum [Finite 1])) None None None w_stub
      = (PyNULL, \<lparr>pending = Some (TypeError ''minimize: lower should not be greater than upper''),
                  world = (0, 0)\<rparr>)"
    by (simp add: minimize_func_def w_stub_def PyErr_SetString_def)
  from a' b' c d show ?thesis
    by (simp add: w_stub_def)
qed

section \<open>Properties of the adapter\<close>

lemma fill_draws:
  "k + n \<le> length p \<Longrightarrow>
   fill g [k..<k + n] p r = (take k p @ fst (draws g n r) @ drop (k + n) p, snd (draws g n r))"
proof (induction n arbitrary: k p r)
  case 0
  then show ?case by simp
next
  case (Suc n)
  obtain v r' where g: "g r = (v, r')" by (cases "g r")
  have up: "[k..<k + Suc n] = k # [Suc k..<Suc k + n]"
    by (simp add: upt_conv_Cons)
  from Suc.prems have len: "Suc k + n \<le> length (p[k := v])" by simp
  from Suc.prems have k: "k < length p" by simp
  have "take (Suc k) (p[k := v]) = take k p @ [v]"
    using k by (simp add: take_Suc_conv_app_nth)
  moreover have "drop (Suc k + n) (p[k := v]) = drop (k + Suc n) p"
    by simp
  ultimately show ?case
    using Suc.IH [OF len, of r'] g up
    by (simp add: case_prod_beta)
qed

lemma fill_draws0:
  "n \<le> length p \<Longrightarrow> fill g [0..<n] p r = (fst (draws g n r) @ drop n p, snd (draws g n r))"
  using fill_draws [of 0 n p g r] by simp

lemma draws_const: "draws (\<lambda>r. (b, r)) n r = (replicate n b, r)"
  by (induction n) simp_all

lemma draws_scaled:
  "draws (scaled X b) n r =
     (map (scale_by b) (fst (draws (getRndValue X) n r)), snd (draws (getRndValue X) n r))"
  by (induction n arbitrary: r) (simp_all add: scaled_def scale_by_def case_prod_beta)

lemma draws_rnd_sign:
  "draws (rnd_sign X) n r =
     (map sign_of (fst (draws (getRndValue X) n r)), snd (draws (getRndValue X) n r))"
  by (induction n arbitrary: r) (simp_all add: rnd_sign_def sign_of_def case_prod_beta)

lemma length_draws: "length (fst (draws g n r)) = n"
  by (induction n arbitrary: r) (simp_all add: case_prod_beta)

text \<open>
  C7. For an output buffer \<open>p\<close> with room for \<^verbatim>\<open>Dims\<close> entries, \<^verbatim>\<open>getMinValues\<close> and
  \<^verbatim>\<open>getMaxValues\<close> overwrite the first \<^verbatim>\<open>Dims\<close> entries and leave the rest. With
  randomization, entry \<open>i\<close> is the bound times \<open>0.5 + v\<^sub>i * 0.5\<close>, where \<open>v\<^sub>i\<close> is the
  \<open>i\<close>-th of \<^verbatim>\<open>Dims\<close> successive draws of the generator (one draw of its own for each
  entry); without, every entry is the bound and the generator is not used.
\<close>

theorem bounds_getters:
  assumes "nat (Dims t) \<le> length p"
  shows "getMinValues X t p r =
           Some (if optDoRandomize t
                 then (map (scale_by (RangeMin (fn t))) (fst (draws (getRndValue X) (nat (Dims t)) r))
                         @ drop (nat (Dims t)) p,
                       snd (draws (getRndValue X) (nat (Dims t)) r))
                 else (replicate (nat (Dims t)) (RangeMin (fn t)) @ drop (nat (Dims t)) p, r)) \<and>
         getMaxValues X t p r =
           Some (if optDoRandomize t
                 then (map (scale_by (RangeMax (fn t))) (fst (draws (getRndValue X) (nat (Dims t)) r))
                         @ drop (nat (Dims t)) p,
                       snd (draws (getRndValue X) (nat (Dims t)) r))
                 else (replicate (nat (Dims t)) (RangeMax (fn t)) @ drop (nat (Dims t)) p, r))"
  using assms
  by (simp add: getMinValues_def getMaxValues_def fill_draws0 draws_scaled draws_const)

theorem bounds_getters_witness:
  "nat (Dims (opt_stub True)) \<le> length [NaN, NaN, Finite 9] \<and>
   getMinValues X_stub (opt_stub True) [NaN, NaN, Finite 9] 0
     = Some ([Finite (- 25 / 4), Finite (- 35 / 4), Finite 9], 2) \<and>
   getMaxValues X_stub (opt_stub True) [NaN, NaN, Finite 9] 1
     = Some ([Finite (35 / 4), Finite (25 / 4), Finite 9], 3) \<and>
   getMinValues X_stub (opt_stub False) [NaN, NaN, Finite 9] 0
     = Some ([Finite (- 10), Finite (- 10), Finite 9], 0) \<and>
   getMaxValues X_stub (opt_stub False) [NaN, NaN, Finite 9] 0
     = Some ([Finite 10, Finite 10, Finite 9], 0)"
proof -
  have d: "Dims (opt_stub rz) = 2" "optDoRandomize (opt_stub rz) = rz" "fn (opt_stub rz) = sphere"
    "getRndValue X_stub = rnd_stub" for rz
    by (simp_all add: opt_stub_def X_stub_def)
  have b: "RangeMin sphere = Finite (- 10)" "RangeMax sphere = Finite 10"
    by (simp_all add: sphere_def)
  show ?thesis
    using bounds_getters [of "opt_stub True" "[NaN, NaN, Finite 9]" X_stub 0]
      bounds_getters [of "opt_stub True" "[NaN, NaN, Finite 9]" X_stub 1]
      bounds_getters [of "opt_stub False" "[NaN, NaN, Finite 9]" X_stub 0]
    by (simp add: d b rnd_stub_def scale_by_def numeral_2_eq_2)
qed

section \<open>Properties of the trial loop\<close>

lemma timed_optimize_opt:
  "opt (fst (timed_optimize X T r c))
     = (opt T)\<lparr>fan := fst (fan_optimize X (hooks X (opt T)) (fan (opt T)) r)\<rparr>"
  by (simp add: timed_optimize_def case_prod_beta)

lemma timed_optimize_more:
  "fst (timed_optimize X T r c)
     = T\<lparr>opt := opt (fst (timed_optimize X T r c)), tc := tc (fst (timed_optimize X T r c))\<rparr>"
  by (simp add: timed_optimize_def case_prod_beta)

lemma timed_optimize_fields [simp]:
  "CostThreshold (fst (timed_optimize X T r c)) = CostThreshold T"
  "InnerIterCount (fst (timed_optimize X T r c)) = InnerIterCount T"
  "IterCount (fst (timed_optimize X T r c)) = IterCount T"
  "DoRandomize (fst (timed_optimize X T r c)) = DoRandomize T"
  "DoPrint (fst (timed_optimize X T r c)) = DoPrint T"
  "DefDims (fst (timed_optimize X T r c)) = DefDims T"
  "FnCount (fst (timed_optimize X T r c)) = FnCount T"
  "Funcs (fst (timed_optimize X T r c)) = Funcs T"
  "ItAvg (fst (timed_optimize X T r c)) = ItAvg T"
  "ItRtAvg (fst (timed_optimize X T r c)) = ItRtAvg T"
  "RjAvg (fst (timed_optimize X T r c)) = RjAvg T"
  "fn (opt (fst (timed_optimize X T r c))) = fn (opt T)"
  "signs (opt (fst (timed_optimize X T r c))) = signs (opt T)"
  "Dims (opt (fst (timed_optimize X T r c))) = Dims (opt T)"
  "tp (opt (fst (timed_optimize X T r c))) = tp (opt T)"
  "optDoRandomize (opt (fst (timed_optimize X T r c))) = optDoRandomize (opt T)"
  by (simp_all add: timed_optimize_def case_prod_beta)

lemma while_loop_unfold:
  "while_loop X T j i L r c =
     (let S = timed_optimize X T r c; T' = fst S in
        if INT_MAX \<le> i then Inl SignedOverflow
        else if converged X T' then
          Inr (T', L\<lparr>AvgCost := dadd (AvgCost L) (getBestCost X T'),
                     Iters := (Iters L)[nat j := i + 1],
                     AvgIter := dadd (AvgIter L) (d_of_int (i + 1))\<rparr>, snd S)
        else if i + 1 = InnerIterCount T then
          Inr (T', L\<lparr>AvgRjCost := dadd (AvgRjCost L) (getBestCost X T'),
                     Rej := Rej L + 1,
                     Iters := (Iters L)[nat j := - 1]\<rparr>, snd S)
        else while_loop X T' j (i + 1) L (fst (snd S)) (snd (snd S)))"
proof -
  obtain T' r' c' where S: "timed_optimize X T r c = (T', r', c')"
    by (cases "timed_optimize X T r c")
  have "InnerIterCount T' = InnerIterCount T"
    using timed_optimize_fields(2) [of X T r c] S by simp
  with S show ?thesis
    by (subst while_loop.simps) (simp add: converged_def Let_def)
qed

lemma steps_Suc_reached: 
  "reached X T r c (Suc k) = reached X (fst (timed_optimize X T r c)) (fst (snd (timed_optimize X T r c))) (snd (snd (timed_optimize X T r c))) k"
  by (simp add: reached_def)

lemma while_loop_success:
  "\<lbrakk>reached X T r c (Suc m);
    \<forall>k. 1 \<le> k \<and> k \<le> m \<longrightarrow> \<not> reached X T r c k \<and> i + int k \<noteq> InnerIterCount T;
    i + int (Suc m) \<le> INT_MAX\<rbrakk> \<Longrightarrow>
   while_loop X T j i L r c =
     (let S = steps X (Suc m) (T, r, c) in
      Inr (fst S, L\<lparr>AvgCost := dadd (AvgCost L) (getBestCost X (fst S)),
                     Iters := (Iters L)[nat j := i + int (Suc m)],
                     AvgIter := dadd (AvgIter L) (d_of_int (i + int (Suc m)))\<rparr>, snd S))"
proof (induction m arbitrary: T r c i)
  case 0
  then show ?case
    by (subst while_loop_unfold) (simp add: reached_def Let_def)
next
  case (Suc m)
  let ?S = "timed_optimize X T r c"
  have r1: "\<not> reached X T r c 1" and n1: "i + 1 \<noteq> InnerIterCount T"
    using Suc.prems(2) by (auto dest: spec [of _ 1])
  have a: "reached X (fst ?S) (fst (snd ?S)) (snd (snd ?S)) (Suc m)"
    using Suc.prems(1) by (simp add: steps_Suc_reached)
  have b: "\<forall>k. 1 \<le> k \<and> k \<le> m \<longrightarrow> \<not> reached X (fst ?S) (fst (snd ?S)) (snd (snd ?S)) k
             \<and> (i + 1) + int k \<noteq> InnerIterCount (fst ?S)"
  proof (intro allI impI)
    fix k assume "1 \<le> k \<and> k \<le> m"
    then have "1 \<le> Suc k \<and> Suc k \<le> Suc m" by simp
    with Suc.prems(2) have "\<not> reached X T r c (Suc k) \<and> i + int (Suc k) \<noteq> InnerIterCount T"
      by blast
    then show "\<not> reached X (fst ?S) (fst (snd ?S)) (snd (snd ?S)) k
             \<and> (i + 1) + int k \<noteq> InnerIterCount (fst ?S)"
      by (simp add: steps_Suc_reached add.commute add.left_commute)
  qed
  have c: "(i + 1) + int (Suc m) \<le> INT_MAX"
    using Suc.prems(3) by simp
  have lt: "\<not> INT_MAX \<le> i" using Suc.prems(3) by simp
  have nc: "\<not> converged X (fst ?S)"
    using r1 by (simp add: reached_def)
  have e: "(i + 1) + int (Suc m) = i + int (Suc (Suc m))" by simp
  show ?case
    using Suc.IH [OF a b c] lt nc n1
    by (subst while_loop_unfold) (simp add: Let_def e del: of_nat_Suc)
qed


lemma while_loop_reject:
  "\<lbrakk>\<forall>k. 1 \<le> k \<and> k \<le> Suc m \<longrightarrow> \<not> reached X T r c k;
    i + int (Suc m) = InnerIterCount T;
    InnerIterCount T \<le> INT_MAX\<rbrakk> \<Longrightarrow>
   while_loop X T j i L r c =
     (let S = steps X (Suc m) (T, r, c) in
      Inr (fst S, L\<lparr>AvgRjCost := dadd (AvgRjCost L) (getBestCost X (fst S)),
                     Rej := Rej L + 1,
                     Iters := (Iters L)[nat j := - 1]\<rparr>, snd S))"
proof (induction m arbitrary: T r c i)
  case 0
  then have "\<not> reached X T r c 1" by simp
  with 0 show ?case
    by (subst while_loop_unfold) (simp add: reached_def Let_def)
next
  case (Suc m)
  let ?S = "timed_optimize X T r c"
  have r1: "\<not> reached X T r c 1"
    using Suc.prems(1) by simp
  have n1: "i + 1 \<noteq> InnerIterCount T"
    using Suc.prems(2) by simp
  have a: "\<forall>k. 1 \<le> k \<and> k \<le> Suc m \<longrightarrow> \<not> reached X (fst ?S) (fst (snd ?S)) (snd (snd ?S)) k"
  proof (intro allI impI)
    fix k assume "1 \<le> k \<and> k \<le> Suc m"
    then have "1 \<le> Suc k \<and> Suc k \<le> Suc (Suc m)" by simp
    with Suc.prems(1) have "\<not> reached X T r c (Suc k)" by blast
    then show "\<not> reached X (fst ?S) (fst (snd ?S)) (snd (snd ?S)) k"
      by (simp add: steps_Suc_reached)
  qed
  have b: "(i + 1) + int (Suc m) = InnerIterCount (fst ?S)"
    using Suc.prems(2) by simp
  have c: "InnerIterCount (fst ?S) \<le> INT_MAX"
    using Suc.prems(3) by simp
  have lt: "\<not> INT_MAX \<le> i" using Suc.prems(2,3) by simp
  have nc: "\<not> converged X (fst ?S)"
    using r1 by (simp add: reached_def)
  show ?case
    using Suc.IH [OF a b c] lt nc n1
    by (subst while_loop_unfold) (simp add: Let_def)
qed

lemma first_reached:
  assumes "reached X T r c s" "1 \<le> s"
  shows "\<exists>m. Suc m \<le> s \<and> reached X T r c (Suc m) \<and> (\<forall>k. 1 \<le> k \<and> k \<le> m \<longrightarrow> \<not> reached X T r c k)"
proof -
  let ?P = "\<lambda>k. 1 \<le> k \<and> reached X T r c k"
  let ?l = "LEAST k. ?P k"
  have P: "?P s" using assms by simp
  have l: "?P ?l" by (rule LeastI [of ?P, OF P])
  have le: "?l \<le> s" by (rule Least_le [of ?P, OF P])
  obtain m where m: "?l = Suc m" using l by (cases ?l) auto
  have "\<forall>k. 1 \<le> k \<and> k \<le> m \<longrightarrow> \<not> reached X T r c k"
  proof (intro allI impI notI)
    fix k assume k: "1 \<le> k \<and> k \<le> m" and "reached X T r c k"
    then have "?P k" by simp
    then have "?l \<le> k" by (rule Least_le)
    with k m show False by simp
  qed
  with l le m show ?thesis by auto
qed

subsection \<open>Facts about the stub collaborators\<close>

lemma T_stub_fields:
  "InnerIterCount (T_stub Cs thr ic iic rz s) = iic"
  "IterCount (T_stub Cs thr ic iic rz s) = ic"
  "CostThreshold (T_stub Cs thr ic iic rz s) = thr"
  "DoRandomize (T_stub Cs thr ic iic rz s) = rz"
  "DoPrint (T_stub Cs thr ic iic rz s) = False"
  "DefDims (T_stub Cs thr ic iic rz s) = 2"
  "Funcs (T_stub Cs thr ic iic rz s) = Cs"
  "opt (T_stub Cs thr ic iic rz s) = (opt_stub rz)\<lparr>fan := s\<rparr>"
  "tc (T_stub Cs thr ic iic rz s) = 0"
  by (simp_all add: T_stub_def init_def)

lemma X_stub_step:
  "timed_optimize X_stub T r c =
     (T\<lparr>opt := (opt T)\<lparr>fan := fan (opt T) - 1\<rparr>, tc := tc T + 5\<rparr>, r, c + 10)"
  by (simp add: timed_optimize_def X_stub_def clock_stub_def)

subsection \<open>Classification of a trial\<close>

text \<open>
  C1. For a step budget \<^verbatim>\<open>InnerIterCount\<close> of at least 1 (an \<^verbatim>\<open>int\<close>), the inner loop of a
  trial, entered with the step counter 0, ends as a success exactly when the stop
  condition holds after some step \<open>s\<close> with \<open>1 \<le> s \<le> InnerIterCount\<close>: if \<open>s\<close> is the
  first such step, the loop stops after \<open>s\<close> steps, stores \<open>s\<close> in \<^verbatim>\<open>Iters[j]\<close> and adds
  the best cost to \<^verbatim>\<open>AvgCost\<close> and \<open>s\<close> to \<^verbatim>\<open>AvgIter\<close>. If the condition holds after none
  of the steps 1 to \<^verbatim>\<open>InnerIterCount\<close>, the loop stops after \<^verbatim>\<open>InnerIterCount\<close> steps,
  adds the best cost to \<^verbatim>\<open>AvgRjCost\<close>, increments \<^verbatim>\<open>Rej\<close> and stores -1.
\<close>

theorem trial_classification:
  assumes "1 \<le> InnerIterCount T" "InnerIterCount T \<le> INT_MAX"
  shows "(\<forall>s. 1 \<le> s \<and> int s \<le> InnerIterCount T \<and> reached X T r c s \<and>
              (\<forall>k. 1 \<le> k \<and> k < s \<longrightarrow> \<not> reached X T r c k) \<longrightarrow>
            while_loop X T j 0 L r c =
              Inr (fst (steps X s (T, r, c)),
                   L\<lparr>AvgCost := dadd (AvgCost L) (getBestCost X (fst (steps X s (T, r, c)))),
                     Iters := (Iters L)[nat j := int s],
                     AvgIter := dadd (AvgIter L) (d_of_int (int s))\<rparr>,
                   snd (steps X s (T, r, c)))) \<and>
         ((\<forall>s. 1 \<le> s \<and> int s \<le> InnerIterCount T \<longrightarrow> \<not> reached X T r c s) \<longrightarrow>
            while_loop X T j 0 L r c =
              Inr (fst (steps X (nat (InnerIterCount T)) (T, r, c)),
                   L\<lparr>AvgRjCost := dadd (AvgRjCost L)
                                     (getBestCost X (fst (steps X (nat (InnerIterCount T)) (T, r, c)))),
                     Rej := Rej L + 1,
                     Iters := (Iters L)[nat j := - 1]\<rparr>,
                   snd (steps X (nat (InnerIterCount T)) (T, r, c))))"
proof (intro conjI allI impI)
  fix s
  assume s: "1 \<le> s \<and> int s \<le> InnerIterCount T \<and> reached X T r c s \<and>
              (\<forall>k. 1 \<le> k \<and> k < s \<longrightarrow> \<not> reached X T r c k)"
  then obtain m where m: "s = Suc m" by (cases s) auto
  have a: "reached X T r c (Suc m)" using s m by simp
  have b: "\<forall>k. 1 \<le> k \<and> k \<le> m \<longrightarrow> \<not> reached X T r c k \<and> 0 + int k \<noteq> InnerIterCount T"
    using s m by auto
  have c: "0 + int (Suc m) \<le> INT_MAX" using s m assms(2) by simp
  show "while_loop X T j 0 L r c =
              Inr (fst (steps X s (T, r, c)),
                   L\<lparr>AvgCost := dadd (AvgCost L) (getBestCost X (fst (steps X s (T, r, c)))),
                     Iters := (Iters L)[nat j := int s],
                     AvgIter := dadd (AvgIter L) (d_of_int (int s))\<rparr>,
                   snd (steps X s (T, r, c)))"
    using while_loop_success [OF a b c, of j L] m by (simp add: Let_def del: steps.simps)
next
  assume n: "\<forall>s. 1 \<le> s \<and> int s \<le> InnerIterCount T \<longrightarrow> \<not> reached X T r c s"
  obtain m where m: "nat (InnerIterCount T) = Suc m"
    using assms(1) by (cases "nat (InnerIterCount T)") auto
  then have N: "InnerIterCount T = int (Suc m)" by linarith
  have a: "\<forall>k. 1 \<le> k \<and> k \<le> Suc m \<longrightarrow> \<not> reached X T r c k"
    using n N by auto
  have b: "0 + int (Suc m) = InnerIterCount T" using N by simp
  show "while_loop X T j 0 L r c =
              Inr (fst (steps X (nat (InnerIterCount T)) (T, r, c)),
                   L\<lparr>AvgRjCost := dadd (AvgRjCost L)
                                     (getBestCost X (fst (steps X (nat (InnerIterCount T)) (T, r, c)))),
                     Rej := Rej L + 1,
                     Iters := (Iters L)[nat j := - 1]\<rparr>,
                   snd (steps X (nat (InnerIterCount T)) (T, r, c)))"
    using while_loop_reject [OF a b assms(2), of j L] m by (simp add: Let_def del: steps.simps)
qed

theorem trial_classification_witness:
  "1 \<le> InnerIterCount (T_stub [sphere] (Finite (1/2)) 1 5 False 3) \<and>
   InnerIterCount (T_stub [sphere] (Finite (1/2)) 1 5 False 3) \<le> INT_MAX \<and>
   \<not> reached X_stub (T_stub [sphere] (Finite (1/2)) 1 5 False 3) 0 0 1 \<and>
   \<not> reached X_stub (T_stub [sphere] (Finite (1/2)) 1 5 False 3) 0 0 2 \<and>
   reached X_stub (T_stub [sphere] (Finite (1/2)) 1 5 False 3) 0 0 3 \<and>
   (case while_loop X_stub (T_stub [sphere] (Finite (1/2)) 1 5 False 3) 0 0 (L_stub [0]) 0 0 of
      Inl e \<Rightarrow> False
    | Inr (T', L', r', c') \<Rightarrow>
        L' = \<lparr>AvgIter = Finite 3, AvgCost = Finite 0, AvgRjCost = Finite 0, Rej = 0, Iters = [3]\<rparr> \<and>
        fan (opt T') = 0 \<and> tc T' = 15 \<and> c' = 30) \<and>
   (case while_loop X_stub (T_stub [sphere] (Finite (1/2)) 1 2 False 3) 0 0 (L_stub [0]) 0 0 of
      Inl e \<Rightarrow> False
    | Inr (T', L', r', c') \<Rightarrow>
        L' = \<lparr>AvgIter = Finite 0, AvgCost = Finite 0, AvgRjCost = Finite 1, Rej = 1, Iters = [- 1]\<rparr> \<and>
        fan (opt T') = 1 \<and> tc T' = 10 \<and> c' = 20)"
proof -
  let ?T = "T_stub [sphere] (Finite (1/2)) 1 5 False 3"
  let ?U = "T_stub [sphere] (Finite (1/2)) 1 2 False 3"
  have st: "steps X_stub (Suc n) (T, r, c) = steps X_stub n (timed_optimize X_stub T r c)" for n T r c
    by simp
  have r: "\<not> reached X_stub (T_stub [sphere] (Finite (1/2)) 1 iic False 3) 0 0 1"
    "\<not> reached X_stub (T_stub [sphere] (Finite (1/2)) 1 iic False 3) 0 0 2"
    "reached X_stub (T_stub [sphere] (Finite (1/2)) 1 iic False 3) 0 0 3" for iic
    by (simp_all add: reached_def converged_def eval_nat_numeral X_stub_step T_stub_fields
        getBestCost_def dsub_def opt_stub_def sphere_def, simp_all add: X_stub_def)
  have h1: "1 \<le> (3::nat) \<and> int 3 \<le> InnerIterCount ?T \<and> reached X_stub ?T 0 0 3 \<and>
              (\<forall>k. 1 \<le> k \<and> k < 3 \<longrightarrow> \<not> reached X_stub ?T 0 0 k)"
  proof -
    have "\<not> reached X_stub ?T 0 0 k" if "1 \<le> k \<and> k < 3" for k
    proof -
      from that have "k = 1 \<or> k = 2" by arith
      then show ?thesis using r(1,2) [of 5] by auto
    qed
    then show ?thesis using r(3) [of 5] by (simp add: T_stub_fields)
  qed
  have h2: "\<forall>s. 1 \<le> s \<and> int s \<le> InnerIterCount ?U \<longrightarrow> \<not> reached X_stub ?U 0 0 s"
  proof (intro allI impI)
    fix s :: nat assume "1 \<le> s \<and> int s \<le> InnerIterCount ?U"
    then have "s = 1 \<or> s = 2" by (simp add: T_stub_fields) arith
    then show "\<not> reached X_stub ?U 0 0 s" using r(1,2) [of 2] by auto
  qed
  have b: "1 \<le> InnerIterCount ?T" "InnerIterCount ?T \<le> INT_MAX"
    "1 \<le> InnerIterCount ?U" "InnerIterCount ?U \<le> INT_MAX"
    by (simp_all add: T_stub_fields INT_MAX_def)
  have w1: "while_loop X_stub ?T 0 0 (L_stub [0]) 0 0 =
              Inr (fst (steps X_stub 3 (?T, 0, 0)),
                   (L_stub [0])\<lparr>AvgCost := dadd (AvgCost (L_stub [0])) (getBestCost X_stub (fst (steps X_stub 3 (?T, 0, 0)))),
                     Iters := (Iters (L_stub [0]))[nat 0 := int 3],
                     AvgIter := dadd (AvgIter (L_stub [0])) (d_of_int (int 3))\<rparr>,
                   snd (steps X_stub 3 (?T, 0, 0)))"
    using trial_classification [OF b(1,2), of X_stub 0 0 0 "L_stub [0]"] h1 by blast
  have w2: "while_loop X_stub ?U 0 0 (L_stub [0]) 0 0 =
              Inr (fst (steps X_stub (nat (InnerIterCount ?U)) (?U, 0, 0)),
                   (L_stub [0])\<lparr>AvgRjCost := dadd (AvgRjCost (L_stub [0]))
                                     (getBestCost X_stub (fst (steps X_stub (nat (InnerIterCount ?U)) (?U, 0, 0)))),
                     Rej := Rej (L_stub [0]) + 1,
                     Iters := (Iters (L_stub [0]))[nat 0 := - 1]\<rparr>,
                   snd (steps X_stub (nat (InnerIterCount ?U)) (?U, 0, 0)))"
    using trial_classification [OF b(3,4), of X_stub 0 0 0 "L_stub [0]"] h2 by blast
  have e1: "steps X_stub 3 (?T, 0, 0) = (?T\<lparr>opt := (opt ?T)\<lparr>fan := 0\<rparr>, tc := 15\<rparr>, 0, 30)"
    by (simp add: eval_nat_numeral X_stub_step T_stub_fields)
  have e2: "steps X_stub 2 (?U, 0, 0) = (?U\<lparr>opt := (opt ?U)\<lparr>fan := 1\<rparr>, tc := 10\<rparr>, 0, 20)"
    by (simp add: eval_nat_numeral X_stub_step T_stub_fields)
  have g: "getBestCost X_stub T = Finite (real (fan (opt T)))" for T
    by (simp add: getBestCost_def X_stub_def)
  have L: "(L_stub It)\<lparr>AvgCost := a, Iters := b, AvgIter := d\<rparr>
             = \<lparr>AvgIter = d, AvgCost = a, AvgRjCost = Finite 0, Rej = 0, Iters = b\<rparr>"
    "(L_stub It)\<lparr>AvgRjCost := a, Rej := n, Iters := b\<rparr>
             = \<lparr>AvgIter = Finite 0, AvgCost = Finite 0, AvgRjCost = a, Rej = n, Iters = b\<rparr>"
    "AvgCost (L_stub It) = Finite 0" "AvgIter (L_stub It) = Finite 0"
    "AvgRjCost (L_stub It) = Finite 0" "Rej (L_stub It) = 0" "Iters (L_stub It) = It" for It a b d n
    by (simp_all add: L_stub_def)
  show ?thesis
    using b r(1,2,3) [of 5]
    by (simp add: w1 w2 e1 e2 g T_stub_fields L d_of_int_def)
qed

section \<open>The sign vector of a trial\<close>

lemma hooks_fan [simp]: "hooks X (t\<lparr>fan := s\<rparr>) = hooks X t"
  by (simp add: hooks_def getMinValues_def getMaxValues_def optcost_def fun_eq_iff)

lemma optcost_loop_map:
  "k + n \<le> length t \<Longrightarrow>
   optcost_loop [k..<k + n] p sg t
     = take k t @ map (\<lambda>i. dmul (p ! i) (sg ! i)) [k..<k + n] @ drop (k + n) t"
proof (induction n arbitrary: k t)
  case 0
  then show ?case by simp
next
  case (Suc n)
  let ?v = "dmul (p ! k) (sg ! k)"
  have up: "[k..<k + Suc n] = k # [Suc k..<Suc k + n]"
    by (simp add: upt_conv_Cons)
  from Suc.prems have len: "Suc k + n \<le> length (t[k := ?v])" by simp
  from Suc.prems have k: "k < length t" by simp
  have "take (Suc k) (t[k := ?v]) = take k t @ [?v]"
    using k by (simp add: take_Suc_conv_app_nth)
  moreover have "drop (Suc k + n) (t[k := ?v]) = drop (k + Suc n) t"
    by simp
  ultimately show ?case
    using Suc.IH [OF len] up by simp
qed

lemma optcost_value:
  assumes "nat (Dims t) \<le> length p" "length (signs t) = nat (Dims t)" "length (tp t) = nat (Dims t)"
  shows "optcost t p
           = Some (Calc (fn t) (map (\<lambda>i. dmul (p ! i) (signs t ! i)) [0..<nat (Dims t)]) (Dims t))"
  using assms optcost_loop_map [of 0 "nat (Dims t)" "tp t" p "signs t"]
  by (simp add: optcost_def)

lemma steps_frame:
  "fst (steps X n (T, r, c))
     = T\<lparr>opt := (opt T)\<lparr>fan := fan (opt (fst (steps X n (T, r, c))))\<rparr>,
         tc := tc (fst (steps X n (T, r, c)))\<rparr>"
proof (induction n arbitrary: T r c)
  case 0
  show ?case by simp
next
  case (Suc n)
  obtain T1 r1 c1 where S: "timed_optimize X T r c = (T1, r1, c1)"
    by (cases "timed_optimize X T r c")
  have T1: "T1 = T\<lparr>opt := (opt T)\<lparr>fan := fan (opt T1)\<rparr>, tc := tc T1\<rparr>"
    using S by (auto simp: timed_optimize_def case_prod_beta)
  have "fst (steps X n (T1, r1, c1))
     = T1\<lparr>opt := (opt T1)\<lparr>fan := fan (opt (fst (steps X n (T1, r1, c1))))\<rparr>,
         tc := tc (fst (steps X n (T1, r1, c1)))\<rparr>"
    by (rule Suc.IH)
  then show ?case
    using S by (simp, subst (asm) T1, subst (asm) (2) T1, simp)
qed

lemma steps_hooks: "hooks X (opt (fst (steps X n (T, r, c)))) = hooks X (opt T)"
  by (subst steps_frame) simp

lemma steps_signs: "signs (opt (fst (steps X n (T, r, c)))) = signs (opt T)"
  by (subst steps_frame) simp


lemma while_loop_steps:
  "while_loop X T j i L r c = Inr (T', L', r', c') \<Longrightarrow> \<exists>n. (T', r', c') = steps X n (T, r, c)"
proof (induction X T j i L r c rule: while_loop.induct)
  case (1 X T j i L r c)
  obtain T1 r1 c1 where S: "timed_optimize X T r c = (T1, r1, c1)"
    by (cases "timed_optimize X T r c")
  have one: "steps X (Suc 0) (T, r, c) = (T1, r1, c1)" using S by simp
  show ?case
  proof (cases "\<not> INT_MAX \<le> i \<and> \<not> converged X T1 \<and> i + 1 \<noteq> InnerIterCount T")
    case True
    then have rec: "while_loop X T1 j (i + 1) L r1 c1 = Inr (T', L', r', c')"
      using "1.prems" S by (subst (asm) while_loop_unfold) (simp add: Let_def)
    have "InnerIterCount T1 = InnerIterCount T"
      using timed_optimize_fields(2) [of X T r c] S by simp
    with True have "\<exists>n. (T', r', c') = steps X n (T1, r1, c1)"
      using "1.IH" [of T1 "(r1, c1)" r1 c1] S rec by (simp add: converged_def)
    then obtain n where "(T', r', c') = steps X n (T1, r1, c1)" ..
    then have "(T', r', c') = steps X (Suc n) (T, r, c)" using S by simp
    then show ?thesis ..
  next
    case False
    then have "(T', r', c') = (T1, r1, c1)"
      using "1.prems" S by (subst (asm) while_loop_unfold) (auto simp: Let_def split: if_splits)
    with one show ?thesis by metis
  qed
qed


lemma fn_setup_ready:
  assumes "fn_setup X T f = Inr T1"
  shows "adapter_ready T1 f (resolved_dims T f)" and "T1 = T\<lparr>opt := opt T1\<rparr>"
    and "fan (opt T1) = fan_updateDims X (resolved_dims T f) 0 (fan (opt T))"
    and "DoRandomize T1 = DoRandomize T"
  using assms
  by (auto simp: fn_setup_def updateDims_def Let_def adapter_ready_def new_double_def
      fill_draws0 draws_const split: if_splits)

lemma trial_eq_entry:
  assumes "adapter_ready T f D"
  shows "trial X T D j L r c
           = while_loop X (fst (trial_entry X T D r)) j 0 L (snd (trial_entry X T D r)) c"
proof (cases "DoRandomize T")
  case True
  with assms show ?thesis
    by (simp add: trial_def trial_entry_def trial_signs_def trial_rnd_def adapter_ready_def
        fill_draws0 draws_rnd_sign Let_def case_prod_beta)
next
  case False
  with assms have "(opt T)\<lparr>signs := replicate (nat D) (Finite 1)\<rparr> = opt T"
    by (simp add: adapter_ready_def)
  with False assms show ?thesis
    by (simp add: trial_def trial_entry_def trial_signs_def trial_rnd_def adapter_ready_def
        Let_def case_prod_beta)
qed

lemma length_trial_signs: "length (trial_signs X rz n r) = n"
  by (simp add: trial_signs_def length_draws)

lemma trial_entry_ready:
  assumes "adapter_ready T f D"
  shows "adapter_ready (fst (trial_entry X T D r)) f D"
    and "signs (opt (fst (trial_entry X T D r))) = trial_signs X (DoRandomize T) (nat D) r"
    and "DoRandomize (fst (trial_entry X T D r)) = DoRandomize T"
  using assms
  by (auto simp: trial_entry_def Let_def adapter_ready_def length_trial_signs)
    (simp_all add: trial_signs_def)

lemma steps_ready:
  "adapter_ready (fst (steps X n (T, r, c))) f D = adapter_ready T f D"
proof -
  have "adapter_ready (T\<lparr>opt := (opt T)\<lparr>fan := s\<rparr>, tc := t\<rparr>) f D = adapter_ready T f D" for s t
    by (simp add: adapter_ready_def)
  then show ?thesis
    by (subst steps_frame) simp
qed

lemma trial_ready:
  assumes "adapter_ready T f D" "trial X T D j L r c = Inr (T', L', r', c')"
  shows "adapter_ready T' f D" and "DoRandomize T' = DoRandomize T"
    and "signs (opt T') = trial_signs X (DoRandomize T) (nat D) r"
proof -
  let ?E = "trial_entry X T D r"
  from assms have "while_loop X (fst ?E) j 0 L (snd ?E) c = Inr (T', L', r', c')"
    by (simp add: trial_eq_entry)
  then obtain n where n: "(T', r', c') = steps X n (fst ?E, snd ?E, c)"
    by (blast dest: while_loop_steps)
  then have T': "T' = fst (steps X n (fst ?E, snd ?E, c))"
    by (metis fst_conv)
  show "adapter_ready T' f D"
    using trial_entry_ready(1) [OF assms(1)] by (simp add: T' steps_ready)
  show "DoRandomize T' = DoRandomize T"
    unfolding T' by (subst steps_frame) (simp add: trial_entry_ready(3) [OF assms(1)])
  show "signs (opt T') = trial_signs X (DoRandomize T) (nat D) r"
    unfolding T' by (simp add: steps_signs trial_entry_ready(2) [OF assms(1)])
qed

lemma trials_ready:
  assumes "adapter_ready T f D" "trials X T D js L r c = Inr (T', L', r', c')"
  shows "adapter_ready T' f D \<and> DoRandomize T' = DoRandomize T"
  using assms
proof (induction js arbitrary: T L r c)
  case Nil
  then show ?case by simp
next
  case (Cons j js)
  from Cons.prems(2) obtain T1 L1 r1 c1 where
    t: "trial X T D (int j) L r c = Inr (T1, L1, r1, c1)" and
    ts: "trials X T1 D js L1 r1 c1 = Inr (T', L', r', c')"
    by (auto split: sum.splits)
  from trial_ready [OF Cons.prems(1) t] Cons.IH [OF _ ts] show ?case
    by simp
qed

subsection \<open>Evaluation with the stub collaborators\<close>

lemma sphere_fields:
  "FnDims sphere = 0" "RangeMin sphere = Finite (- 10)" "RangeMax sphere = Finite 10"
  "OptValue sphere = Finite 0" "Name sphere = ''sphere''"
  by (simp_all add: sphere_def)

lemma T_stub_explicit:
  "T_stub Cs thr ic iic rz s =
     \<lparr>DefDims = 2, opt = \<lparr>fn = sphere, optDoRandomize = rz, Dims = 2,
                  signs = [Finite 1, Finite (- 1)], tp = [NaN, NaN], fan = s\<rparr>,
      ItAvg = NaN, ItRtAvg = NaN, RjAvg = NaN, tc = 0, Funcs = Cs, FnCount = count_corpus Cs 0,
      CostThreshold = thr, IterCount = ic, InnerIterCount = iic, DoRandomize = rz, DoPrint = False\<rparr>"
  by (simp add: T_stub_def init_def opt_stub_def)

lemma X_stub_sel:
  "getRndValue X_stub = rnd_stub" "rdtsc X_stub = clock_stub"
  "fan_updateDims X_stub = (\<lambda>d fs s. s)" "fan_init X_stub = stub_init"
  "fan_optimize X_stub = (\<lambda>h s r. (s - 1, r))" "fan_getBestCost X_stub = (\<lambda>s. Finite (real s))"
  by (simp_all add: X_stub_def)

lemmas stub_eval = T_stub_explicit X_stub_sel sphere_fields rnd_stub_def clock_stub_def stub_init_def
  fn_trials_def fn_setup_def updateDims_def resolved_dims_def new_double_def new_int_def
  trial_def rnd_sign_def while_loop_unfold timed_optimize_def getBestCost_def converged_def
  dsub_def d_of_int_def Let_def INT_MAX_def

lemma small_lists:
  "replicate 2 x = [x, x]" "replicate 1 x = [x]" "replicate 3 x = [x, x, x]"
  "[0..<1] = [0]" "[0..<2] = [0, 1]" "[0..<3] = [0, 1, 2]"
  by (simp_all add: eval_nat_numeral upt_rec)

lemma draws_2:
  "draws g 2 r = (case g r of (v, r') \<Rightarrow> case g r' of (v', r'') \<Rightarrow> ([v, v'], r''))"
  by (simp add: numeral_2_eq_2 case_prod_beta)

subsection \<open>The signs are fixed for a trial\<close>

text \<open>
  C6. Let trial \<open>j\<close> of a function \<open>f\<close> start in the state that the setup for \<open>f\<close> and the
  trials before \<open>j\<close> leave, with the generator in state \<open>rj\<close>. Its sign vector \<open>sg\<close> is
  chosen before the optimizer is initialized: with randomization, sign \<open>i\<close> is 1 when the
  \<open>i\<close>-th of \<^verbatim>\<open>Dims\<close> successive draws from \<open>rj\<close> is below 0.5 and -1 otherwise; without
  randomization it is the vector of ones written once by the setup, and no draw is
  made. The virtual functions that the optimizer receives at its initialization and
  at every step of the trial are the same, built on \<open>sg\<close>; every evaluation of the
  objective on \<open>p\<close> returns the cost of the function at the vector of the products
  \<open>p\<^sub>i * sg\<^sub>i\<close>; and the trial leaves \<open>sg\<close> in the adapter.
\<close>

theorem signs_fixed_in_trial:
  assumes "fn_setup X T f = Inr T1"
    and "trials X T1 (resolved_dims T f) [0..<j] L0 r c = Inr (Tj, Lj, rj, cj)"
  shows "let D = resolved_dims T f;
             sg = trial_signs X (DoRandomize T) (nat D) rj;
             E = trial_entry X Tj D rj;
             h = hooks X ((opt Tj)\<lparr>signs := sg\<rparr>)
         in trial X Tj D (int j) Lj rj cj = while_loop X (fst E) (int j) 0 Lj (snd E) cj \<and>
            E = (Tj\<lparr>opt := (opt Tj)\<lparr>signs := sg,
                        fan := fst (fan_init X h (fan (opt Tj)) (trial_rnd X (DoRandomize T) (nat D) rj))\<rparr>\<rparr>,
                 snd (fan_init X h (fan (opt Tj)) (trial_rnd X (DoRandomize T) (nat D) rj))) \<and>
            (\<forall>n. hooks X (opt (fst (steps X n (fst E, snd E, cj)))) = h \<and>
                 signs (opt (fst (steps X n (fst E, snd E, cj)))) = sg) \<and>
            (\<forall>p. nat D \<le> length p \<longrightarrow>
                 hk_optcost h p = Some (Calc f (map (\<lambda>i. dmul (p ! i) (sg ! i)) [0..<nat D]) D)) \<and>
            (\<forall>T' L' r' c'. trial X Tj D (int j) Lj rj cj = Inr (T', L', r', c') \<longrightarrow>
                 signs (opt T') = sg)"
proof -
  let ?D = "resolved_dims T f"
  let ?sg = "trial_signs X (DoRandomize T) (nat ?D) rj"
  let ?E = "trial_entry X Tj ?D rj"
  let ?h = "hooks X ((opt Tj)\<lparr>signs := ?sg\<rparr>)"
  have r1: "adapter_ready T1 f ?D" and d1: "DoRandomize T1 = DoRandomize T"
    using fn_setup_ready(1,4) [OF assms(1)] by simp_all
  from trials_ready [OF r1 assms(2)] d1
  have rj: "adapter_ready Tj f ?D" and dj: "DoRandomize Tj = DoRandomize T"
    by simp_all
  have E: "?E = (Tj\<lparr>opt := (opt Tj)\<lparr>signs := ?sg,
                        fan := fst (fan_init X ?h (fan (opt Tj)) (trial_rnd X (DoRandomize T) (nat ?D) rj))\<rparr>\<rparr>,
                 snd (fan_init X ?h (fan (opt Tj)) (trial_rnd X (DoRandomize T) (nat ?D) rj)))"
    by (simp add: trial_entry_def Let_def dj)
  have hE: "hooks X (opt (fst ?E)) = ?h"
    by (subst E) simp
  have sE: "signs (opt (fst ?E)) = ?sg"
    by (subst E) simp
  have a: "trial X Tj ?D (int j) Lj rj cj = while_loop X (fst ?E) (int j) 0 Lj (snd ?E) cj"
    by (rule trial_eq_entry [OF rj])
  have b: "\<forall>n. hooks X (opt (fst (steps X n (fst ?E, snd ?E, cj)))) = ?h \<and>
                 signs (opt (fst (steps X n (fst ?E, snd ?E, cj)))) = ?sg"
    by (simp add: steps_hooks steps_signs hE sE)
  have c: "\<forall>p. nat ?D \<le> length p \<longrightarrow>
                 hk_optcost ?h p = Some (Calc f (map (\<lambda>i. dmul (p ! i) (?sg ! i)) [0..<nat ?D]) ?D)"
  proof (intro allI impI)
    fix p :: "double list" assume p: "nat ?D \<le> length p"
    let ?t = "(opt Tj)\<lparr>signs := ?sg\<rparr>"
    have "optcost ?t p = Some (Calc (fn ?t) (map (\<lambda>i. dmul (p ! i) (signs ?t ! i)) [0..<nat (Dims ?t)]) (Dims ?t))"
      using rj p by (intro optcost_value) (simp_all add: adapter_ready_def length_trial_signs)
    then show "hk_optcost ?h p = Some (Calc f (map (\<lambda>i. dmul (p ! i) (?sg ! i)) [0..<nat ?D]) ?D)"
      using rj by (simp add: hooks_def adapter_ready_def)
  qed
  have d: "\<forall>T' L' r' c'. trial X Tj ?D (int j) Lj rj cj = Inr (T', L', r', c') \<longrightarrow>
                 signs (opt T') = ?sg"
    using trial_ready(3) [OF rj] dj by auto
  from a E b c d show ?thesis
    unfolding Let_def by blast
qed

theorem signs_fixed_in_trial_witness:
  "\<exists>T1 Tj Lj.
     fn_setup X_stub (T_stub [sphere] (Finite (1/2)) 2 5 True 0) sphere = Inr T1 \<and>
     trials X_stub T1 (resolved_dims (T_stub [sphere] (Finite (1/2)) 2 5 True 0) sphere) [0..<1]
       (L_stub [0, 0]) 0 0 = Inr (Tj, Lj, 3, 10) \<and>
     signs (opt Tj) = [Finite 1, Finite (- 1)] \<and>
     trial_signs X_stub True 2 3 = [Finite (- 1), Finite 1] \<and>
     hk_optcost (hooks X_stub ((opt Tj)\<lparr>signs := [Finite (- 1), Finite 1]\<rparr>)) [Finite 2, Finite 3]
       = Some (Calc sphere [Finite (- 2), Finite 3] 2) \<and>
     (\<exists>T' L' r' c'. trial X_stub Tj 2 1 Lj 3 10 = Inr (T', L', r', c') \<and>
        signs (opt T') = [Finite (- 1), Finite 1] \<and> Iters L' = [1, 3])"
proof -
  let ?T = "T_stub [sphere] (Finite (1/2)) 2 5 True 0"
  let ?T1 = "?T\<lparr>opt := \<lparr>fn = sphere, optDoRandomize = True, Dims = 2, signs = [NaN, NaN],
                          tp = [NaN, NaN], fan = 0\<rparr>\<rparr>"
  let ?Tj = "?T\<lparr>opt := \<lparr>fn = sphere, optDoRandomize = True, Dims = 2,
                          signs = [Finite 1, Finite (- 1)], tp = [NaN, NaN], fan = 0\<rparr>, tc := 5\<rparr>"
  let ?Lj = "\<lparr>AvgIter = Finite 1, AvgCost = Finite 0, AvgRjCost = Finite 0, Rej = 0, Iters = [1, 0]\<rparr>"
  have D: "resolved_dims ?T sphere = 2"
    by (simp add: stub_eval)
  have s: "fn_setup X_stub ?T sphere = Inr ?T1"
    by (simp add: stub_eval small_lists)
  have t: "trials X_stub ?T1 (resolved_dims ?T sphere) [0..<1] (L_stub [0, 0]) 0 0
             = Inr (?Tj, ?Lj, 3, 10)"
    unfolding D by (simp add: stub_eval small_lists L_stub_def)
  have sg: "trial_signs X_stub True 2 3 = [Finite (- 1), Finite 1]"
    by (simp add: trial_signs_def sign_of_def stub_eval draws_2)
  have rz: "DoRandomize ?T = True"
    by (simp add: stub_eval)
  have "\<forall>p. nat 2 \<le> length p \<longrightarrow>
          hk_optcost (hooks X_stub ((opt ?Tj)\<lparr>signs := trial_signs X_stub True (nat 2) 3\<rparr>)) p
            = Some (Calc sphere (map (\<lambda>i. dmul (p ! i) (trial_signs X_stub True (nat 2) 3 ! i)) [0..<nat 2]) 2)"
    using signs_fixed_in_trial [OF s t] unfolding Let_def D rz by blast
  from this [rule_format, of "[Finite 2, Finite 3]"]
  have oc: "hk_optcost (hooks X_stub ((opt ?Tj)\<lparr>signs := [Finite (- 1), Finite 1]\<rparr>)) [Finite 2, Finite 3]
       = Some (Calc sphere [Finite (- 2), Finite 3] 2)"
    by (simp add: sg small_lists)
  have tr: "trial X_stub ?Tj 2 1 ?Lj 3 10
      = Inr (?T\<lparr>opt := \<lparr>fn = sphere, optDoRandomize = True, Dims = 2,
                          signs = [Finite (- 1), Finite 1], tp = [NaN, NaN], fan = 0\<rparr>, tc := 20\<rparr>,
             \<lparr>AvgIter = Finite 4, AvgCost = Finite 0, AvgRjCost = Finite 0, Rej = 0, Iters = [1, 3]\<rparr>,
             6, 40)"
    by (simp add: stub_eval small_lists)
  show ?thesis
    using s t sg oc tr by (intro exI [of _ ?T1] exI [of _ ?Tj] exI [of _ ?Lj]) simp
qed

section \<open>The trials of a function\<close>

lemma steps_ticks:
  "tc (fst (steps X n (T, r, c))) = tc T + ticks X n c \<and>
   snd (snd (steps X n (T, r, c))) = clock_after X n c"
proof (induction n arbitrary: T r c)
  case 0
  show ?case by simp
next
  case (Suc n)
  obtain T1 r1 c1 where S: "timed_optimize X T r c = (T1, r1, c1)"
    by (cases "timed_optimize X T r c")
  then have a: "tc T1 = tc T + (fst (rdtsc X (snd (rdtsc X c))) - fst (rdtsc X c))"
    and b: "c1 = snd (rdtsc X (snd (rdtsc X c)))"
    by (auto simp: timed_optimize_def case_prod_beta)
  show ?case
    using Suc.IH [of T1 r1 c1] S a b by (simp add: case_prod_beta add.assoc)
qed

lemma ticks_add:
  "ticks X (m + n) c = ticks X m c + ticks X n (clock_after X m c) \<and>
   clock_after X (m + n) c = clock_after X n (clock_after X m c)"
  by (induction m arbitrary: c) (simp_all add: case_prod_beta add.assoc)

lemma while_loop_outcome:
  assumes "1 \<le> InnerIterCount T" "InnerIterCount T \<le> INT_MAX"
  shows "\<exists>n. 1 \<le> n \<and> int n \<le> InnerIterCount T \<and>
           (let S = steps X n (T, r, c) in
              while_loop X T j 0 L r c
                = Inr (fst S, record_success L j (int n) (getBestCost X (fst S)), snd S) \<and>
              converged X (fst S)
            \<or> int n = InnerIterCount T \<and>
              while_loop X T j 0 L r c
                = Inr (fst S, record_reject L j (getBestCost X (fst S)), snd S))"
proof (cases "\<exists>s. 1 \<le> s \<and> int s \<le> InnerIterCount T \<and> reached X T r c s")
  case True
  then obtain s where s: "1 \<le> s" "int s \<le> InnerIterCount T" "reached X T r c s"
    by blast
  from first_reached [OF s(3) s(1)] obtain m where
    m: "Suc m \<le> s" "reached X T r c (Suc m)" "\<forall>k. 1 \<le> k \<and> k \<le> m \<longrightarrow> \<not> reached X T r c k"
    by blast
  have b: "\<forall>k. 1 \<le> k \<and> k \<le> m \<longrightarrow> \<not> reached X T r c k \<and> 0 + int k \<noteq> InnerIterCount T"
    using m(1,3) s(2) by auto
  have c: "0 + int (Suc m) \<le> INT_MAX"
    using m(1) s(2) assms(2) by simp
  have "while_loop X T j 0 L r c
          = Inr (fst (steps X (Suc m) (T, r, c)),
                 record_success L j (int (Suc m)) (getBestCost X (fst (steps X (Suc m) (T, r, c)))),
                 snd (steps X (Suc m) (T, r, c)))"
    using while_loop_success [OF m(2) b c, of j L]
    by (simp add: Let_def record_success_def del: steps.simps)
  moreover have "converged X (fst (steps X (Suc m) (T, r, c)))"
    using m(2) by (simp add: reached_def del: steps.simps)
  moreover have "1 \<le> Suc m" "int (Suc m) \<le> InnerIterCount T"
    using m(1) s(2) by simp_all
  ultimately show ?thesis
    unfolding Let_def by blast
next
  case False
  obtain m where m: "nat (InnerIterCount T) = Suc m"
    using assms(1) by (cases "nat (InnerIterCount T)") auto
  then have N: "InnerIterCount T = int (Suc m)" by linarith
  have a: "\<forall>k. 1 \<le> k \<and> k \<le> Suc m \<longrightarrow> \<not> reached X T r c k"
    using False N by auto
  have b: "0 + int (Suc m) = InnerIterCount T" using N by simp
  have "while_loop X T j 0 L r c
          = Inr (fst (steps X (Suc m) (T, r, c)),
                 record_reject L j (getBestCost X (fst (steps X (Suc m) (T, r, c)))),
                 snd (steps X (Suc m) (T, r, c)))"
    using while_loop_reject [OF a b assms(2), of j L]
    by (simp add: Let_def record_reject_def del: steps.simps)
  moreover have "1 \<le> Suc m" "int (Suc m) = InnerIterCount T"
    using N by simp_all
  ultimately show ?thesis
    unfolding Let_def by (metis order_refl)
qed

lemma trial_entry_frame:
  "fst (trial_entry X T D r) = T\<lparr>opt := opt (fst (trial_entry X T D r))\<rparr>"
  by (simp add: trial_entry_def Let_def)

lemma frame_collapse:
  "T' = T\<lparr>opt := t, tc := w\<rparr> \<Longrightarrow> T' = T\<lparr>opt := opt T', tc := tc T'\<rparr>"
  by simp

lemma trial_outcome:
  assumes "adapter_ready T f D" "1 \<le> InnerIterCount T" "InnerIterCount T \<le> INT_MAX"
  shows "\<exists>n T' L' r' c'. 1 \<le> n \<and> int n \<le> InnerIterCount T \<and>
           trial X T D j L r c = Inr (T', L', r', c') \<and>
           tc T' = tc T + ticks X n c \<and> c' = clock_after X n c \<and>
           T' = T\<lparr>opt := opt T', tc := tc T'\<rparr> \<and> adapter_ready T' f D \<and>
           (L' = record_success L j (int n) (getBestCost X T') \<and> converged X T'
            \<or> int n = InnerIterCount T \<and> L' = record_reject L j (getBestCost X T'))"
proof -
  let ?E = "trial_entry X T D r"
  have fr: "fst ?E = T\<lparr>opt := opt (fst ?E)\<rparr>" by (rule trial_entry_frame)
  have N: "InnerIterCount (fst ?E) = InnerIterCount T" and tcE: "tc (fst ?E) = tc T"
    by (subst fr, simp)+
  have eq: "trial X T D j L r c = while_loop X (fst ?E) j 0 L (snd ?E) c"
    by (rule trial_eq_entry [OF assms(1)])
  from while_loop_outcome [of "fst ?E" X "snd ?E" c j L] assms(2,3) N
  obtain n where n: "1 \<le> n" "int n \<le> InnerIterCount T"
    and w: "while_loop X (fst ?E) j 0 L (snd ?E) c
                = Inr (fst (steps X n (fst ?E, snd ?E, c)),
                       record_success L j (int n) (getBestCost X (fst (steps X n (fst ?E, snd ?E, c)))),
                       snd (steps X n (fst ?E, snd ?E, c))) \<and>
              converged X (fst (steps X n (fst ?E, snd ?E, c)))
            \<or> int n = InnerIterCount T \<and>
              while_loop X (fst ?E) j 0 L (snd ?E) c
                = Inr (fst (steps X n (fst ?E, snd ?E, c)),
                       record_reject L j (getBestCost X (fst (steps X n (fst ?E, snd ?E, c)))),
                       snd (steps X n (fst ?E, snd ?E, c)))"
    unfolding Let_def by auto
  let ?S = "steps X n (fst ?E, snd ?E, c)"
  let ?T' = "fst ?S"
  have t: "tc ?T' = tc T + ticks X n c" and cl: "snd (snd ?S) = clock_after X n c"
    using steps_ticks [of X n "fst ?E" "snd ?E" c] tcE by simp_all
  have "?T' = (fst ?E)\<lparr>opt := (opt (fst ?E))\<lparr>fan := fan (opt ?T')\<rparr>, tc := tc ?T'\<rparr>"
    by (rule steps_frame)
  then have "?T' = T\<lparr>opt := (opt (fst ?E))\<lparr>fan := fan (opt ?T')\<rparr>, tc := tc ?T'\<rparr>"
    by (subst (asm) fr) simp
  then have fr': "?T' = T\<lparr>opt := opt ?T', tc := tc ?T'\<rparr>"
    by (rule frame_collapse)
  have rd: "adapter_ready ?T' f D"
    using trial_entry_ready(1) [OF assms(1)] by (simp add: steps_ready)
  have S: "snd ?S = (fst (snd ?S), clock_after X n c)"
    using cl by (metis prod.collapse)
  from w show ?thesis
  proof
    assume a: "while_loop X (fst ?E) j 0 L (snd ?E) c
                = Inr (?T', record_success L j (int n) (getBestCost X ?T'), snd ?S) \<and> converged X ?T'"
    then have "trial X T D j L r c
                 = Inr (?T', record_success L j (int n) (getBestCost X ?T'), fst (snd ?S), clock_after X n c)"
      using eq S by simp
    with n t fr' rd a show ?thesis by blast
  next
    assume a: "int n = InnerIterCount T \<and> while_loop X (fst ?E) j 0 L (snd ?E) c
                = Inr (?T', record_reject L j (getBestCost X ?T'), snd ?S)"
    then have "trial X T D j L r c
                 = Inr (?T', record_reject L j (getBestCost X ?T'), fst (snd ?S), clock_after X n c)"
      using eq S by simp
    with n t fr' rd a show ?thesis by blast
  qed
qed


lemma tallied_success:
  assumes "tallied P N k L" "k < length (Iters L)" "1 \<le> v" "v \<le> N" "P"
  shows "tallied P N (Suc k) (record_success L (int k) v b)"
proof -
  have tk: "take (Suc k) ((Iters L)[k := v]) = take k (Iters L) @ [v]"
    using assms(2) by (simp add: take_Suc_conv_app_nth)
  have "Rej L \<le> int k"
    using assms(1) by (simp add: tallied_def) (metis length_filter_le length_take min.absorb2 of_nat_le_iff assms(2) less_imp_le_nat)
  with assms tk show ?thesis
    by (auto simp: tallied_def record_success_def)
qed

lemma tallied_reject:
  assumes "tallied P N k L" "k < length (Iters L)"
  shows "tallied P N (Suc k) (record_reject L (int k) b)"
proof -
  have tk: "take (Suc k) ((Iters L)[k := - 1]) = take k (Iters L) @ [- 1]"
    using assms(2) by (simp add: take_Suc_conv_app_nth)
  have "0 \<le> Rej L"
    using assms(1) by (simp add: tallied_def)
  with assms tk show ?thesis
    by (auto simp: tallied_def record_reject_def)
qed


lemma record_Iters [simp]:
  "Iters (record_success L j v b) = (Iters L)[nat j := v]"
  "Iters (record_reject L j b) = (Iters L)[nat j := - 1]"
  by (simp_all add: record_success_def record_reject_def)

lemma converged_can:
  "converged X T \<Longrightarrow> can_converge X (fn (opt T)) (CostThreshold T)"
  by (auto simp: converged_def can_converge_def getBestCost_def)

lemma trials_outcome:
  assumes "adapter_ready T f D" "1 \<le> InnerIterCount T" "InnerIterCount T \<le> INT_MAX"
    and "n = length (Iters L)" "k \<le> n"
    and "tallied (can_converge X f (CostThreshold T)) (InnerIterCount T) k L"
  shows "\<exists>T' L' r' c'. trials X T D [k..<n] L r c = Inr (T', L', r', c') \<and>
           T' = T\<lparr>opt := opt T', tc := tc T'\<rparr> \<and> adapter_ready T' f D \<and>
           length (Iters L') = n \<and> take k (Iters L') = take k (Iters L) \<and>
           tallied (can_converge X f (CostThreshold T)) (InnerIterCount T) n L' \<and>
           tc T' = tc T + ticks X (sum_list (map (trial_steps (InnerIterCount T)) (drop k (Iters L')))) c \<and>
           c' = clock_after X (sum_list (map (trial_steps (InnerIterCount T)) (drop k (Iters L')))) c"
  using assms
proof (induction "n - k" arbitrary: k T L r c)
  case 0
  then have "k = n" by simp
  with 0 show ?case by simp
next
  case (Suc d)
  let ?N = "InnerIterCount T" and ?P = "can_converge X f (CostThreshold T)"
  from Suc.hyps(2) Suc.prems(5) have kn: "k < n" by simp
  then have up: "[k..<n] = k # [Suc k..<n]" by (simp add: upt_conv_Cons)
  from trial_outcome [OF Suc.prems(1-3), of X "int k" L r c]
  obtain m T1 L1 r1 c1 where m: "1 \<le> m" "int m \<le> ?N"
    and t: "trial X T D (int k) L r c = Inr (T1, L1, r1, c1)"
    and tc1: "tc T1 = tc T + ticks X m c" and c1: "c1 = clock_after X m c"
    and fr1: "T1 = T\<lparr>opt := opt T1, tc := tc T1\<rparr>" and rd1: "adapter_ready T1 f D"
    and L1: "L1 = record_success L (int k) (int m) (getBestCost X T1) \<and> converged X T1
            \<or> int m = ?N \<and> L1 = record_reject L (int k) (getBestCost X T1)"
    by blast
  have N1: "InnerIterCount T1 = ?N" and thr1: "CostThreshold T1 = CostThreshold T"
    by (subst fr1, simp)+
  have kl: "k < length (Iters L)" using kn Suc.prems(4) by simp
  have len1: "n = length (Iters L1)" using L1 Suc.prems(4) by auto
  have tk1: "take k (Iters L1) = take k (Iters L)" using L1 by auto
  have at1: "Iters L1 ! k = (if L1 = record_reject L (int k) (getBestCost X T1) then - 1 else int m)"
    using L1 kl m(1) by (auto simp: record_reject_def record_success_def)
  have st1: "trial_steps ?N (Iters L1 ! k) = m"
    using L1 kl m by (auto simp: trial_steps_def)
  have tal1: "tallied ?P ?N (Suc k) L1"
  proof -
    from L1 show ?thesis
    proof
      assume a: "L1 = record_success L (int k) (int m) (getBestCost X T1) \<and> converged X T1"
      then have "?P"
        using converged_can [of X T1] rd1 thr1 by (simp add: adapter_ready_def)
      with a m kl Suc.prems(6) show ?thesis
        by (simp add: tallied_success)
    next
      assume "int m = ?N \<and> L1 = record_reject L (int k) (getBestCost X T1)"
      with kl Suc.prems(6) show ?thesis
        by (simp add: tallied_reject)
    qed
  qed
  have d: "d = n - Suc k" using Suc.hyps(2) by simp
  from Suc.hyps(1) [OF d rd1, of L1 r1 c1] N1 thr1 Suc.prems(2,3) len1 kn tal1
  obtain T' L' r' c' where
    ts: "trials X T1 D [Suc k..<n] L1 r1 c1 = Inr (T', L', r', c')"
    and fr: "T' = T1\<lparr>opt := opt T', tc := tc T'\<rparr>" and rd: "adapter_ready T' f D"
    and len: "length (Iters L') = n" and tk: "take (Suc k) (Iters L') = take (Suc k) (Iters L1)"
    and tal: "tallied ?P ?N n L'"
    and tc': "tc T' = tc T1 + ticks X (sum_list (map (trial_steps ?N) (drop (Suc k) (Iters L')))) c1"
    and c': "c' = clock_after X (sum_list (map (trial_steps ?N) (drop (Suc k) (Iters L')))) c1"
    by auto
  have "Iters L' ! k = Iters L1 ! k"
    using tk kn len len1 by (metis lessI nth_take)
  then have dr: "drop k (Iters L') = Iters L1 ! k # drop (Suc k) (Iters L')"
    using kn len by (metis Cons_nth_drop_Suc)
  have tkk: "take k (Iters L') = take k (Iters L)"
    using tk tk1 by (metis le_add2 plus_1_eq_Suc take_take min.absorb1 Suc_n_not_le_n nat_le_linear)
  have frT: "T' = T\<lparr>opt := opt T', tc := tc T'\<rparr>"
    by (subst fr, subst fr1) simp
  let ?M = "sum_list (map (trial_steps ?N) (drop (Suc k) (Iters L')))"
  have "tc T' = tc T + ticks X (m + ?M) c" "c' = clock_after X (m + ?M) c"
    using tc' c' tc1 c1 ticks_add [of X m ?M c] by (simp_all add: add.assoc)
  then have "tc T' = tc T + ticks X (sum_list (map (trial_steps ?N) (drop k (Iters L')))) c"
    "c' = clock_after X (sum_list (map (trial_steps ?N) (drop k (Iters L')))) c"
    by (simp_all add: dr st1)
  moreover have "trials X T D [k..<n] L r c = Inr (T', L', r', c')"
    using t ts up by simp
  ultimately show ?case
    using frT rd len tkk tal by blast
qed


lemma fn_setup_Inr:
  "0 \<le> resolved_dims T f \<Longrightarrow> \<exists>T1. fn_setup X T f = Inr T1"
  by (simp add: fn_setup_def updateDims_def Let_def)

lemma fn_trials_outcome:
  assumes "0 \<le> resolved_dims T f" "1 \<le> InnerIterCount T" "InnerIterCount T \<le> INT_MAX"
    and "length It = nat (IterCount T)"
  shows "\<exists>T' L' r' c'. fn_trials X T f It r c = Inr (T', L', r', c') \<and>
           T' = T\<lparr>opt := opt T', tc := tc T'\<rparr> \<and> adapter_ready T' f (resolved_dims T f) \<and>
           length (Iters L') = nat (IterCount T) \<and>
           tallied (can_converge X f (CostThreshold T)) (InnerIterCount T) (nat (IterCount T)) L' \<and>
           tc T' = tc T + ticks X (sum_list (map (trial_steps (InnerIterCount T)) (Iters L'))) c \<and>
           c' = clock_after X (sum_list (map (trial_steps (InnerIterCount T)) (Iters L'))) c"
proof -
  let ?L = "\<lparr>AvgIter = Finite 0, AvgCost = Finite 0, AvgRjCost = Finite 0, Rej = 0, Iters = It\<rparr>"
  from fn_setup_Inr [OF assms(1)] obtain T1 where s: "fn_setup X T f = Inr T1" ..
  note rd = fn_setup_ready(1) [OF s] and fr = fn_setup_ready(2) [OF s]
  have c1: "InnerIterCount T1 = InnerIterCount T" "CostThreshold T1 = CostThreshold T"
    "tc T1 = tc T"
    by (subst fr, simp)+
  have tal: "tallied (can_converge X f (CostThreshold T1)) (InnerIterCount T1) 0 ?L"
    by (simp add: tallied_def)
  from trials_outcome [OF rd _ _ _ _ tal, of "nat (IterCount T)" r c] assms(2-4) c1
  obtain T' L' r' c' where
    ts: "trials X T1 (resolved_dims T f) [0..<nat (IterCount T)] ?L r c = Inr (T', L', r', c')"
    and fr': "T' = T1\<lparr>opt := opt T', tc := tc T'\<rparr>"
    and rest: "adapter_ready T' f (resolved_dims T f)" "length (Iters L') = nat (IterCount T)"
      "tallied (can_converge X f (CostThreshold T)) (InnerIterCount T) (nat (IterCount T)) L'"
      "tc T' = tc T + ticks X (sum_list (map (trial_steps (InnerIterCount T)) (Iters L'))) c"
      "c' = clock_after X (sum_list (map (trial_steps (InnerIterCount T)) (Iters L'))) c"
    by auto
  have "T' = T\<lparr>opt := opt T', tc := tc T'\<rparr>"
    by (subst fr', subst fr) simp
  moreover have "fn_trials X T f It r c = Inr (T', L', r', c')"
    using s ts by (simp add: fn_trials_def)
  ultimately show ?thesis
    using rest by auto
qed

lemma tallied_counts:
  assumes "tallied P N k L" "length (Iters L) = k"
  shows "\<forall>j < k. Iters L ! j = - 1 \<or> (1 \<le> Iters L ! j \<and> Iters L ! j \<le> N)"
    and "Rej L = int (length (filter (\<lambda>v. v = - 1) (Iters L)))"
    and "int (length (filter (\<lambda>v. 0 \<le> v) (Iters L))) + Rej L = int k"
    and "0 \<le> Rej L" and "Rej L \<le> int k"
proof -
  from assms have la: "list_all (\<lambda>v. v = - 1 \<or> (1 \<le> v \<and> v \<le> N \<and> P)) (Iters L)"
    and rj: "Rej L = int (length (filter (\<lambda>v. v = - 1) (Iters L)))"
    by (simp_all add: tallied_def)
  show "\<forall>j < k. Iters L ! j = - 1 \<or> (1 \<le> Iters L ! j \<and> Iters L ! j \<le> N)"
    using la assms(2) by (auto simp: list_all_length)
  show "Rej L = int (length (filter (\<lambda>v. v = - 1) (Iters L)))" by (rule rj)
  have "filter (\<lambda>v. 0 \<le> v) (Iters L) = filter (\<lambda>v. \<not> v = - 1) (Iters L)"
    using la by (intro filter_cong) (auto simp: list_all_iff)
  then have "length (filter (\<lambda>v. 0 \<le> v) (Iters L)) + length (filter (\<lambda>v. v = - 1) (Iters L))
               = length (Iters L)"
    using sum_length_filter_compl [of "\<lambda>v. v = - 1" "Iters L"] by simp
  then show "int (length (filter (\<lambda>v. 0 \<le> v) (Iters L))) + Rej L = int k"
    using rj assms(2) by simp
  then show "0 \<le> Rej L" "Rej L \<le> int k" using rj by simp_all
qed

subsection \<open>One outcome for each trial\<close>

text \<open>
  C10. For \<^verbatim>\<open>IterCount\<close> and \<^verbatim>\<open>InnerIterCount\<close> of at least 1 (and a resolved dimensionality
  that the allocation accepts), the trials of a function return, and then each of the
  \<^verbatim>\<open>IterCount\<close> entries of \<^verbatim>\<open>Iters\<close> holds the outcome of its trial: -1 for a reject, or a
  step count between 1 and \<^verbatim>\<open>InnerIterCount\<close>. \<^verbatim>\<open>Rej\<close> is the number of entries -1, the
  successes and the rejects add up to \<^verbatim>\<open>IterCount\<close>, and the reject rate
  \<^verbatim>\<open>(double) Rej / IterCount\<close> is a finite value between 0 and 1.
\<close>

theorem trials_record_outcomes:
  assumes "1 \<le> IterCount T" "1 \<le> InnerIterCount T" "InnerIterCount T \<le> INT_MAX"
    and "0 \<le> resolved_dims T f" "length It = nat (IterCount T)"
  shows "\<exists>T' L' r' c'. fn_trials X T f It r c = Inr (T', L', r', c') \<and>
           length (Iters L') = nat (IterCount T) \<and>
           (\<forall>j < nat (IterCount T).
              Iters L' ! j = - 1 \<or> (1 \<le> Iters L' ! j \<and> Iters L' ! j \<le> InnerIterCount T)) \<and>
           Rej L' = int (length (filter (\<lambda>v. v = - 1) (Iters L'))) \<and>
           int (length (filter (\<lambda>v. 0 \<le> v) (Iters L'))) + Rej L' = IterCount T \<and>
           (\<exists>q. ddiv (d_of_int (Rej L')) (d_of_int (IterCount T)) = Finite q \<and> 0 \<le> q \<and> q \<le> 1)"
proof -
  from fn_trials_outcome [OF assms(4,2,3,5), of X r c]
  obtain T' L' r' c' where f: "fn_trials X T f It r c = Inr (T', L', r', c')"
    and len: "length (Iters L') = nat (IterCount T)"
    and tal: "tallied (can_converge X f (CostThreshold T)) (InnerIterCount T) (nat (IterCount T)) L'"
    by blast
  note c = tallied_counts [OF tal len]
  have ic: "int (nat (IterCount T)) = IterCount T" using assms(1) by simp
  have "ddiv (d_of_int (Rej L')) (d_of_int (IterCount T))
          = Finite (real_of_int (Rej L') / real_of_int (IterCount T))"
    using assms(1) by (simp add: d_of_int_def)
  moreover have "0 \<le> real_of_int (Rej L') / real_of_int (IterCount T)"
    "real_of_int (Rej L') / real_of_int (IterCount T) \<le> 1"
    using c(4,5) ic assms(1) by simp_all
  ultimately have "\<exists>q. ddiv (d_of_int (Rej L')) (d_of_int (IterCount T)) = Finite q \<and> 0 \<le> q \<and> q \<le> 1"
    by blast
  with f len c(1,2,3) ic show ?thesis
    by auto
qed


theorem trials_record_outcomes_witness:
  "1 \<le> IterCount (T_stub [sphere] (Finite (1/2)) 2 2 False 0) \<and>
   1 \<le> InnerIterCount (T_stub [sphere] (Finite (1/2)) 2 2 False 0) \<and>
   InnerIterCount (T_stub [sphere] (Finite (1/2)) 2 2 False 0) \<le> INT_MAX \<and>
   0 \<le> resolved_dims (T_stub [sphere] (Finite (1/2)) 2 2 False 0) sphere \<and>
   length [0, 0] = nat (IterCount (T_stub [sphere] (Finite (1/2)) 2 2 False 0)) \<and>
   (\<exists>T'. fn_trials X_stub (T_stub [sphere] (Finite (1/2)) 2 2 False 0) sphere [0, 0] 0 0
           = Inr (T', \<lparr>AvgIter = Finite 1, AvgCost = Finite 0, AvgRjCost = Finite 1, Rej = 1,
                       Iters = [1, - 1]\<rparr>, 2, 30)) \<and>
   ddiv (d_of_int 1) (d_of_int (IterCount (T_stub [sphere] (Finite (1/2)) 2 2 False 0))) = Finite (1/2)"
proof -
  let ?T = "T_stub [sphere] (Finite (1/2)) 2 2 False 0"
  have h: "1 \<le> IterCount ?T" "1 \<le> InnerIterCount ?T" "InnerIterCount ?T \<le> INT_MAX"
    "0 \<le> resolved_dims ?T sphere" "length [0, 0 :: int] = nat (IterCount ?T)"
    by (simp_all add: stub_eval)
  have ev: "fn_trials X_stub ?T sphere [0, 0] 0 0
      = Inr (?T\<lparr>opt := \<lparr>fn = sphere, optDoRandomize = False, Dims = 2,
                          signs = [Finite 1, Finite 1], tp = [NaN, NaN], fan = 1\<rparr>, tc := 15\<rparr>,
             \<lparr>AvgIter = Finite 1, AvgCost = Finite 0, AvgRjCost = Finite 1, Rej = 1, Iters = [1, - 1]\<rparr>,
             2, 30)"
    by (simp add: stub_eval small_lists)
  from trials_record_outcomes [OF h, of X_stub 0 0]
  obtain T' L' r' c' where "fn_trials X_stub ?T sphere [0, 0] 0 0 = Inr (T', L', r', c')"
    and "\<exists>q. ddiv (d_of_int (Rej L')) (d_of_int (IterCount ?T)) = Finite q \<and> 0 \<le> q \<and> q \<le> 1"
    by blast
  with ev have "\<exists>q. ddiv (d_of_int 1) (d_of_int (IterCount ?T)) = Finite q \<and> 0 \<le> q \<and> q \<le> 1"
    by simp
  then have "ddiv (d_of_int 1) (d_of_int (IterCount ?T)) = Finite (1/2)"
    by (simp add: stub_eval)
  with h ev show ?thesis
    by simp
qed

section \<open>The statistics of a function\<close>

lemma function_stats_costs:
  "AvgCost (fst (function_stats T L)) = ddiv (AvgCost L) (d_of_int (IterCount T - Rej L))"
  "AvgRjCost (fst (function_stats T L)) = ddiv (AvgRjCost L) (d_of_int (Rej L))"
  "Rej (fst (function_stats T L)) = Rej L"
  "Iters (fst (function_stats T L)) = Iters L"
  by (simp_all add: function_stats_def Let_def)

lemmas stats_eval = stats_of_def function_stats_def d_of_int_def Let_def small_lists

subsection \<open>The average costs\<close>

text \<open>
  C2, as the code has it. After the trials of a function (with a step budget of at least
  1 and a trial count that is not negative), the average cost of the successes is the
  quotient \<^verbatim>\<open>AvgCost / ( IterCount - Rej )\<close> and the average cost of the rejects is the
  quotient \<^verbatim>\<open>AvgRjCost / Rej\<close>; neither division is guarded. When the count in the
  denominator is not zero it is positive. When no trial succeeded the sum of the
  success costs is still 0.0 and the average is NaN, and when no trial was rejected
  the average cost of the rejects is NaN: there is no sentinel.
\<close>

theorem cost_averages_unguarded:
  assumes "0 \<le> IterCount T" "1 \<le> InnerIterCount T" "InnerIterCount T \<le> INT_MAX"
    and "0 \<le> resolved_dims T f" "length It = nat (IterCount T)"
  shows "\<exists>T1 L1 r1 c1. fn_trials X T f It r c = Inr (T1, L1, r1, c1) \<and>
           avgCostOnSuccess (stats_of T1 L1)
             = ddiv (AvgCost L1) (d_of_int (IterCount T - Rej L1)) \<and>
           avgCostOnReject (stats_of T1 L1) = ddiv (AvgRjCost L1) (d_of_int (Rej L1)) \<and>
           (if IterCount T - Rej L1 = 0 then avgCostOnSuccess (stats_of T1 L1) = NaN
            else 0 < IterCount T - Rej L1) \<and>
           (if Rej L1 = 0 then avgCostOnReject (stats_of T1 L1) = NaN else 0 < Rej L1)"
proof -
  from fn_trials_outcome [OF assms(4,2,3,5), of X r c]
  obtain T1 L1 r1 c1 where f: "fn_trials X T f It r c = Inr (T1, L1, r1, c1)"
    and fr: "T1 = T\<lparr>opt := opt T1, tc := tc T1\<rparr>"
    and len: "length (Iters L1) = nat (IterCount T)"
    and tal: "tallied (can_converge X f (CostThreshold T)) (InnerIterCount T) (nat (IterCount T)) L1"
    by blast
  have ic: "IterCount T1 = IterCount T" by (subst fr) simp
  have nn: "int (nat (IterCount T)) = IterCount T" using assms(1) by simp
  note c = tallied_counts(4,5) [OF tal len]
  have a: "avgCostOnSuccess (stats_of T1 L1) = ddiv (AvgCost L1) (d_of_int (IterCount T - Rej L1))"
    and b: "avgCostOnReject (stats_of T1 L1) = ddiv (AvgRjCost L1) (d_of_int (Rej L1))"
    using function_stats_costs(1,2) [of T1 L1] ic
    by (simp_all add: stats_of_def case_prod_beta)
  have z1: "AvgRjCost L1 = Finite 0" if "Rej L1 = 0"
    using tal that by (simp add: tallied_def)
  have z2: "AvgCost L1 = Finite 0" if "IterCount T - Rej L1 = 0"
    using tal that nn by (simp add: tallied_def)
  from f a b c z1 z2 nn show ?thesis
    by (auto simp: d_of_int_def)
qed

theorem cost_averages_unguarded_witness:
  "0 \<le> IterCount (T_stub [sphere] (Finite (1/2)) 2 2 False 0) \<and>
   1 \<le> InnerIterCount (T_stub [sphere] (Finite (1/2)) 2 2 False 0) \<and>
   InnerIterCount (T_stub [sphere] (Finite (1/2)) 2 2 False 0) \<le> INT_MAX \<and>
   0 \<le> resolved_dims (T_stub [sphere] (Finite (1/2)) 2 2 False 0) sphere \<and>
   length [0, 0] = nat (IterCount (T_stub [sphere] (Finite (1/2)) 2 2 False 0)) \<and>
   (case fn_trials X_stub (T_stub [sphere] (Finite (1/2)) 2 2 False 0) sphere [0, 0] 0 0 of
      Inl e \<Rightarrow> False
    | Inr (T1, L1, r1, c1) \<Rightarrow>
        Rej L1 = 1 \<and> AvgCost L1 = Finite 0 \<and> AvgRjCost L1 = Finite 1 \<and>
        avgCostOnSuccess (stats_of T1 L1) = Finite 0 \<and>
        avgCostOnReject (stats_of T1 L1) = Finite 1)"
proof -
  let ?T = "T_stub [sphere] (Finite (1/2)) 2 2 False 0"
  have h: "0 \<le> IterCount ?T" "1 \<le> InnerIterCount ?T" "InnerIterCount ?T \<le> INT_MAX"
    "0 \<le> resolved_dims ?T sphere" "length [0, 0 :: int] = nat (IterCount ?T)"
    by (simp_all add: stub_eval)
  have ev: "fn_trials X_stub ?T sphere [0, 0] 0 0
      = Inr (?T\<lparr>opt := \<lparr>fn = sphere, optDoRandomize = False, Dims = 2,
                          signs = [Finite 1, Finite 1], tp = [NaN, NaN], fan = 1\<rparr>, tc := 15\<rparr>,
             \<lparr>AvgIter = Finite 1, AvgCost = Finite 0, AvgRjCost = Finite 1, Rej = 1, Iters = [1, - 1]\<rparr>,
             2, 30)"
    by (simp add: stub_eval small_lists)
  have ic: "IterCount ?T = 2" by (simp add: stub_eval)
  from cost_averages_unguarded [OF h, of X_stub 0 0]
  obtain T1 L1 r1 c1 where f: "fn_trials X_stub ?T sphere [0, 0] 0 0 = Inr (T1, L1, r1, c1)"
    and a: "avgCostOnSuccess (stats_of T1 L1) = ddiv (AvgCost L1) (d_of_int (IterCount ?T - Rej L1))"
    and b: "avgCostOnReject (stats_of T1 L1) = ddiv (AvgRjCost L1) (d_of_int (Rej L1))"
    by blast
  from f ev have "Rej L1 = 1" "AvgCost L1 = Finite 0" "AvgRjCost L1 = Finite 1"
    by auto
  with a b ic have "avgCostOnSuccess (stats_of T1 L1) = Finite 0"
    "avgCostOnReject (stats_of T1 L1) = Finite 1"
    by (simp_all add: d_of_int_def)
  with f h \<open>Rej L1 = 1\<close> \<open>AvgCost L1 = Finite 0\<close> \<open>AvgRjCost L1 = Finite 1\<close> show ?thesis
    by simp
qed

text \<open>
  With the stub optimizer: one trial that succeeds leaves the average reject cost NaN,
  and one trial that is rejected leaves the average success cost NaN.
\<close>

theorem cost_averages_counterexample:
  "(case fn_trials X_stub (T_stub [sphere] (Finite (1/2)) 1 5 False 0) sphere [0] 0 0 of
      Inl e \<Rightarrow> False
    | Inr (T1, L1, r1, c1) \<Rightarrow>
        Rej L1 = 0 \<and> avgCostOnSuccess (stats_of T1 L1) = Finite 0 \<and>
        avgCostOnReject (stats_of T1 L1) = NaN) \<and>
   (case fn_trials X_stub (T_stub [sphere] (Finite (1/2)) 1 2 False 0) sphere [0] 1 0 of
      Inl e \<Rightarrow> False
    | Inr (T1, L1, r1, c1) \<Rightarrow>
        IterCount T1 - Rej L1 = 0 \<and> avgCostOnSuccess (stats_of T1 L1) = NaN \<and>
        avgCostOnReject (stats_of T1 L1) = Finite 1)"
  by (simp add: stub_eval stats_eval)

section \<open>The run over the corpus\<close>

lemma count_corpus_length: "count_corpus Corpus n = n + int (length Corpus)"
  by (induction Corpus arbitrary: n) simp_all

lemma init_fields [simp]:
  "DefDims (init d Corpus thr ic iic rz pr T) = d"
  "CostThreshold (init d Corpus thr ic iic rz pr T) = thr"
  "IterCount (init d Corpus thr ic iic rz pr T) = ic"
  "InnerIterCount (init d Corpus thr ic iic rz pr T) = iic"
  "DoRandomize (init d Corpus thr ic iic rz pr T) = rz"
  "DoPrint (init d Corpus thr ic iic rz pr T) = pr"
  "FnCount (init d Corpus thr ic iic rz pr T) = int (length Corpus)"
  "Funcs (init d Corpus thr ic iic rz pr T) = Corpus"
  "opt (init d Corpus thr ic iic rz pr T) = opt T"
  by (simp_all add: init_def count_corpus_length)

lemma same_config_frame:
  "T' = T\<lparr>opt := opt T', tc := tc T'\<rparr> \<Longrightarrow> same_config T T'"
  unfolding same_config_def by (erule ssubst) simp

lemma same_config_trans: "same_config T T1 \<Longrightarrow> same_config T1 T2 \<Longrightarrow> same_config T T2"
  by (simp add: same_config_def)

lemma same_config_resolved: "same_config T T' \<Longrightarrow> resolved_dims T' f = resolved_dims T f"
  by (simp add: same_config_def resolved_dims_def)

lemma stats_of_fields:
  "rejectCount (stats_of T L) = Rej L" "trialIters (stats_of T L) = Iters L"
  "avgIterations (stats_of T L) = fst (snd (function_stats T L))"
  "rmsIterations (stats_of T L) = snd (snd (function_stats T L))"
  "rejectRate (stats_of T L) = ddiv (d_of_int (Rej L)) (d_of_int (IterCount T))"
  by (simp_all add: stats_of_def case_prod_beta function_stats_costs)

lemma run_fn_outcome:
  assumes "0 \<le> resolved_dims T f" "1 \<le> InnerIterCount T" "InnerIterCount T \<le> INT_MAX"
    and "length It = nat (IterCount T)"
  shows "\<exists>T1 L1 r1 c1 T' out'.
           fn_trials X T f It r c = Inr (T1, L1, r1, c1) \<and>
           run_fn X T f It r c out = Inr (T', Iters L1, r1, c1, out') \<and>
           same_config T T' \<and> length (Iters L1) = nat (IterCount T) \<and>
           fn_summary X T f (stats_of T1 L1) \<and>
           ItAvg T' = dadd (ItAvg T) (avgIterations (stats_of T1 L1)) \<and>
           ItRtAvg T' = dadd (ItRtAvg T)
                          (ddiv (rmsIterations (stats_of T1 L1)) (avgIterations (stats_of T1 L1))) \<and>
           RjAvg T' = dadd (RjAvg T) (rejectRate (stats_of T1 L1)) \<and>
           tc T' = tc T + ticks X (sum_list (map (trial_steps (InnerIterCount T)) (Iters L1))) c \<and>
           c1 = clock_after X (sum_list (map (trial_steps (InnerIterCount T)) (Iters L1))) c"
proof -
  from fn_trials_outcome [OF assms, of X r c]
  obtain T1 L1 r1 c1 where f: "fn_trials X T f It r c = Inr (T1, L1, r1, c1)"
    and fr: "T1 = T\<lparr>opt := opt T1, tc := tc T1\<rparr>"
    and len: "length (Iters L1) = nat (IterCount T)"
    and tal: "tallied (can_converge X f (CostThreshold T)) (InnerIterCount T) (nat (IterCount T)) L1"
    and tc1: "tc T1 = tc T + ticks X (sum_list (map (trial_steps (InnerIterCount T)) (Iters L1))) c"
    and c1: "c1 = clock_after X (sum_list (map (trial_steps (InnerIterCount T)) (Iters L1))) c"
    by blast
  have sc: "same_config T T1" by (rule same_config_frame [OF fr])
  have acc: "ItAvg T1 = ItAvg T" "ItRtAvg T1 = ItRtAvg T" "RjAvg T1 = RjAvg T"
    by (subst fr, simp)+
  obtain L2 Avg RMS where fs: "function_stats T1 L1 = (L2, Avg, RMS)"
    by (cases "function_stats T1 L1")
  have L2: "Rej L2 = Rej L1" "Iters L2 = Iters L1"
    using function_stats_costs(3,4) [of T1 L1] fs by simp_all
  let ?T' = "T1\<lparr>ItAvg := dadd (ItAvg T1) Avg, ItRtAvg := dadd (ItRtAvg T1) (ddiv RMS Avg),
                RjAvg := dadd (RjAvg T1) (ddiv (d_of_int (Rej L2)) (d_of_int (IterCount T1)))\<rparr>"
  have "\<exists>out'. run_fn X T f It r c out = Inr (?T', Iters L1, r1, c1, out')"
    using f fs L2 by (simp add: run_fn_def)
  moreover have "same_config T ?T'"
    using sc by (simp add: same_config_def)
  moreover have "fn_summary X T f (stats_of T1 L1)"
    using sc len tal by (auto simp: fn_summary_def same_config_def)
  moreover have "ItAvg ?T' = dadd (ItAvg T) (avgIterations (stats_of T1 L1))"
    "ItRtAvg ?T' = dadd (ItRtAvg T)
                          (ddiv (rmsIterations (stats_of T1 L1)) (avgIterations (stats_of T1 L1)))"
    "RjAvg ?T' = dadd (RjAvg T) (rejectRate (stats_of T1 L1))"
    "tc ?T' = tc T + ticks X (sum_list (map (trial_steps (InnerIterCount T)) (Iters L1))) c"
    using fs acc L2 tc1 by (simp_all add: stats_of_fields)
  ultimately show ?thesis
    using f len c1 by blast
qed


lemma fn_summary_config:
  "same_config T T' \<Longrightarrow> fn_summary X T' f s = fn_summary X T f s"
  by (simp add: fn_summary_def same_config_def)

lemma run_fns_outcome:
  assumes "\<forall>f \<in> set fs. 0 \<le> resolved_dims T f" "1 \<le> InnerIterCount T"
    and "InnerIterCount T \<le> INT_MAX" "length It = nat (IterCount T)"
  shows "\<exists>T' It' r' c' out'.
           run_fns X T fs It r c out = Inr (T', It', r', c', out') \<and> same_config T T' \<and>
           list_all2 (fn_summary X T) fs (corpus_stats X T fs It r c out) \<and>
           ItAvg T' = foldl dadd (ItAvg T) (map avgIterations (corpus_stats X T fs It r c out)) \<and>
           ItRtAvg T' = foldl dadd (ItRtAvg T)
                          (map (\<lambda>s. ddiv (rmsIterations s) (avgIterations s))
                             (corpus_stats X T fs It r c out)) \<and>
           RjAvg T' = foldl dadd (RjAvg T) (map rejectRate (corpus_stats X T fs It r c out)) \<and>
           tc T' = tc T + ticks X (stats_steps (InnerIterCount T) (corpus_stats X T fs It r c out)) c \<and>
           c' = clock_after X (stats_steps (InnerIterCount T) (corpus_stats X T fs It r c out)) c"
  using assms
proof (induction fs arbitrary: T It r c out)
  case Nil
  show ?case by (simp add: same_config_def stats_steps_def)
next
  case (Cons f fs)
  let ?N = "InnerIterCount T"
  have d: "0 \<le> resolved_dims T f" using Cons.prems(1) by simp
  from run_fn_outcome [OF d Cons.prems(2-4), of X r c out]
  obtain T1 L1 r1 c1 T2 out2 where
    ft: "fn_trials X T f It r c = Inr (T1, L1, r1, c1)"
    and rf: "run_fn X T f It r c out = Inr (T2, Iters L1, r1, c1, out2)"
    and sc: "same_config T T2" and len: "length (Iters L1) = nat (IterCount T)"
    and sm: "fn_summary X T f (stats_of T1 L1)"
    and a1: "ItAvg T2 = dadd (ItAvg T) (avgIterations (stats_of T1 L1))"
    and a2: "ItRtAvg T2 = dadd (ItRtAvg T)
                          (ddiv (rmsIterations (stats_of T1 L1)) (avgIterations (stats_of T1 L1)))"
    and a3: "RjAvg T2 = dadd (RjAvg T) (rejectRate (stats_of T1 L1))"
    and a4: "tc T2 = tc T + ticks X (sum_list (map (trial_steps ?N) (Iters L1))) c"
    and a5: "c1 = clock_after X (sum_list (map (trial_steps ?N) (Iters L1))) c"
    by blast
  have cfg: "InnerIterCount T2 = ?N" "IterCount T2 = IterCount T"
    using sc by (simp_all add: same_config_def)
  have p1: "\<forall>f \<in> set fs. 0 \<le> resolved_dims T2 f"
    using Cons.prems(1) sc by (simp add: same_config_resolved)
  let ?S = "corpus_stats X T2 fs (Iters L1) r1 c1 out2"
  from Cons.IH [OF p1, of "Iters L1" r1 c1 out2] cfg Cons.prems(2,3) len
  obtain T' It' r' c' out' where
    rs: "run_fns X T2 fs (Iters L1) r1 c1 out2 = Inr (T', It', r', c', out')"
    and sc': "same_config T2 T'"
    and la: "list_all2 (fn_summary X T2) fs ?S"
    and b1: "ItAvg T' = foldl dadd (ItAvg T2) (map avgIterations ?S)"
    and b2: "ItRtAvg T' = foldl dadd (ItRtAvg T2)
                            (map (\<lambda>s. ddiv (rmsIterations s) (avgIterations s)) ?S)"
    and b3: "RjAvg T' = foldl dadd (RjAvg T2) (map rejectRate ?S)"
    and b4: "tc T' = tc T2 + ticks X (stats_steps ?N ?S) c1"
    and b5: "c' = clock_after X (stats_steps ?N ?S) c1"
    by auto
  have cs: "corpus_stats X T (f # fs) It r c out = stats_of T1 L1 # ?S"
    using ft rf by simp
  have "fn_summary X T2 = fn_summary X T"
    using sc by (simp add: fn_summary_config fun_eq_iff)
  with la have la': "list_all2 (fn_summary X T) fs ?S"
    by simp
  have st: "stats_steps ?N (stats_of T1 L1 # ?S)
              = sum_list (map (trial_steps ?N) (Iters L1)) + stats_steps ?N ?S"
    by (simp add: stats_steps_def stats_of_fields)
  have "tc T' = (tc T + ticks X (sum_list (map (trial_steps ?N) (Iters L1))) c)
                  + ticks X (stats_steps ?N ?S)
                      (clock_after X (sum_list (map (trial_steps ?N) (Iters L1))) c)"
    using b4 unfolding a4 a5 .
  then have tk1: "tc T' = tc T + ticks X (stats_steps ?N (stats_of T1 L1 # ?S)) c"
    unfolding st ticks_add [THEN conjunct1] by (simp only: add.assoc)
  have "c' = clock_after X (stats_steps ?N ?S)
               (clock_after X (sum_list (map (trial_steps ?N) (Iters L1))) c)"
    using b5 unfolding a5 .
  then have tk2: "c' = clock_after X (stats_steps ?N (stats_of T1 L1 # ?S)) c"
    unfolding st ticks_add [THEN conjunct2] .
  note tk = tk1 tk2
  have "run_fns X T (f # fs) It r c out = Inr (T', It', r', c', out')"
    using rf rs by simp
  moreover have "same_config T T'"
    using sc sc' by (rule same_config_trans)
  ultimately show ?case
    using la' sm a1 a2 a3 b1 b2 b3 tk unfolding cs by auto
qed


lemma run_outcome:
  assumes "0 \<le> IterCount T" "1 \<le> InnerIterCount T" "InnerIterCount T \<le> INT_MAX"
    and "\<forall>f \<in> set (take (nat (FnCount T)) (Funcs T)). 0 \<le> resolved_dims T f"
  shows "\<exists>T' r' c' out.
           run X T r c = Inr (T', r', c', out) \<and> same_config T T' \<and>
           list_all2 (fn_summary X T) (take (nat (FnCount T)) (Funcs T)) (run_stats X T r c) \<and>
           ItAvg T' = ddiv (dsum (map avgIterations (run_stats X T r c))) (d_of_int (FnCount T)) \<and>
           ItRtAvg T' = ddiv (dsum (map (\<lambda>s. ddiv (rmsIterations s) (avgIterations s))
                                     (run_stats X T r c))) (d_of_int (FnCount T)) \<and>
           RjAvg T' = ddiv (dsum (map rejectRate (run_stats X T r c))) (d_of_int (FnCount T)) \<and>
           tc T' = ticks X (stats_steps (InnerIterCount T) (run_stats X T r c)) c \<and>
           c' = clock_after X (stats_steps (InnerIterCount T) (run_stats X T r c)) c"
proof -
  let ?T0 = "T\<lparr>ItAvg := Finite 0, ItRtAvg := Finite 0, RjAvg := Finite 0, tc := 0\<rparr>"
  let ?fs = "take (nat (FnCount T)) (Funcs T)"
  let ?S = "run_stats X T r c"
  have sc0: "same_config T ?T0" by (simp add: same_config_def)
  have S: "?S = corpus_stats X ?T0 ?fs (new_int (IterCount T)) r c []"
    by (simp add: run_stats_def)
  have p: "\<forall>f \<in> set ?fs. 0 \<le> resolved_dims ?T0 f"
    using assms(4) same_config_resolved [OF sc0] by simp
  have q: "1 \<le> InnerIterCount ?T0" "InnerIterCount ?T0 \<le> INT_MAX"
    "length (new_int (IterCount T)) = nat (IterCount ?T0)"
    using assms(2,3) by (simp_all add: new_int_def)
  from run_fns_outcome [OF p q, of X r c "[]"]
  obtain T1 It1 r1 c1 out1 where
    rs: "run_fns X ?T0 ?fs (new_int (IterCount T)) r c [] = Inr (T1, It1, r1, c1, out1)"
    and sc1: "same_config ?T0 T1"
    and la: "list_all2 (fn_summary X ?T0) ?fs ?S"
    and b1: "ItAvg T1 = dsum (map avgIterations ?S)"
    and b2: "ItRtAvg T1 = dsum (map (\<lambda>s. ddiv (rmsIterations s) (avgIterations s)) ?S)"
    and b3: "RjAvg T1 = dsum (map rejectRate ?S)"
    and b4: "tc T1 = ticks X (stats_steps (InnerIterCount T) ?S) c"
    and b5: "c1 = clock_after X (stats_steps (InnerIterCount T) ?S) c"
    unfolding S dsum_def by auto
  have fc: "FnCount T1 = FnCount T" using sc1 by (simp add: same_config_def)
  let ?T2 = "T1\<lparr>ItAvg := ddiv (ItAvg T1) (d_of_int (FnCount T1)),
                ItRtAvg := ddiv (ItRtAvg T1) (d_of_int (FnCount T1)),
                RjAvg := ddiv (RjAvg T1) (d_of_int (FnCount T1))\<rparr>"
  have "\<exists>out. run X T r c = Inr (?T2, r1, c1, out)"
    using rs assms(1) by (simp add: run_def Let_def)
  moreover have "same_config T ?T2"
    using sc1 by (simp add: same_config_def)
  moreover have "fn_summary X ?T0 = fn_summary X T"
    using sc0 by (simp add: fn_summary_config fun_eq_iff)
  ultimately show ?thesis
    using la b1 b2 b3 b4 b5 fc by auto
qed


lemma list_all2_set_right:
  "list_all2 P xs ys \<Longrightarrow> y \<in> set ys \<Longrightarrow> \<exists>x \<in> set xs. P x y"
  by (induction rule: list_all2_induct) auto

lemma function_stats_sentinel:
  "IterCount T \<le> Rej L \<Longrightarrow> snd (function_stats T L) = (Finite 1000000, Finite 1000000)"
  by (simp add: function_stats_def Let_def)

lemma init_resolved:
  "resolved_dims (init d Corpus thr ic iic rz pr T) f = (if FnDims f = 0 then d else FnDims f)"
  by (simp add: resolved_dims_def)

lemma run_init_outcome:
  assumes "0 \<le> ic" "1 \<le> iic" "iic \<le> INT_MAX"
    and "\<forall>f \<in> set Corpus. 0 \<le> (if FnDims f = 0 then d else FnDims f)"
  shows "\<exists>T' r' c' out.
           run X (init d Corpus thr ic iic rz pr T) r c = Inr (T', r', c', out) \<and>
           list_all2 (fn_summary X (init d Corpus thr ic iic rz pr T)) Corpus
             (run_stats X (init d Corpus thr ic iic rz pr T) r c) \<and>
           ItAvg T' = dmean (map avgIterations (run_stats X (init d Corpus thr ic iic rz pr T) r c)) \<and>
           ItRtAvg T' = dmean (map (\<lambda>s. ddiv (rmsIterations s) (avgIterations s))
                                 (run_stats X (init d Corpus thr ic iic rz pr T) r c)) \<and>
           RjAvg T' = dmean (map rejectRate (run_stats X (init d Corpus thr ic iic rz pr T) r c)) \<and>
           tc T' = ticks X (stats_steps iic (run_stats X (init d Corpus thr ic iic rz pr T) r c)) c \<and>
           c' = clock_after X (stats_steps iic (run_stats X (init d Corpus thr ic iic rz pr T) r c)) c"
proof -
  let ?T = "init d Corpus thr ic iic rz pr T"
  have tk: "take (nat (FnCount ?T)) (Funcs ?T) = Corpus" by simp
  have h: "0 \<le> IterCount ?T" "1 \<le> InnerIterCount ?T" "InnerIterCount ?T \<le> INT_MAX"
    "\<forall>f \<in> set (take (nat (FnCount ?T)) (Funcs ?T)). 0 \<le> resolved_dims ?T f"
    using assms by (simp_all add: init_resolved)
  from run_outcome [OF h, of X r c]
  obtain T' r' c' out where
    r: "run X ?T r c = Inr (T', r', c', out)"
    and la: "list_all2 (fn_summary X ?T) Corpus (run_stats X ?T r c)"
    and rest: "ItAvg T' = ddiv (dsum (map avgIterations (run_stats X ?T r c))) (d_of_int (FnCount ?T))"
      "ItRtAvg T' = ddiv (dsum (map (\<lambda>s. ddiv (rmsIterations s) (avgIterations s))
                                     (run_stats X ?T r c))) (d_of_int (FnCount ?T))"
      "RjAvg T' = ddiv (dsum (map rejectRate (run_stats X ?T r c))) (d_of_int (FnCount ?T))"
      "tc T' = ticks X (stats_steps (InnerIterCount ?T) (run_stats X ?T r c)) c"
      "c' = clock_after X (stats_steps (InnerIterCount ?T) (run_stats X ?T r c)) c"
    unfolding tk by blast
  have len: "length (run_stats X ?T r c) = length Corpus"
    using la by (simp add: list_all2_lengthD)
  from r la rest len show ?thesis
    by (simp add: dmean_def)
qed

lemma dsum_replicate: "foldl dadd (Finite a) (replicate n (Finite b)) = Finite (a + real n * b)"
  by (induction n arbitrary: a) (simp_all add: algebra_simps)

lemma dmean_const:
  assumes "xs \<noteq> []" "\<forall>x \<in> set xs. x = Finite b"
  shows "dmean xs = Finite b"
proof -
  have "xs = replicate (length xs) (Finite b)"
    using assms(2) by (simp add: replicate_length_same)
  then have "dsum xs = Finite (real (length xs) * b)"
    unfolding dsum_def using dsum_replicate [of 0 "length xs" b] by simp
  with assms(1) show ?thesis
    by (simp add: dmean_def d_of_int_def)
qed

lemmas run_eval = run_def run_fn_def stats_eval

subsection \<open>The aggregate statistics\<close>

text \<open>
  C8. A run that \<^verbatim>\<open>init\<close> has set up with a trial count that is not negative, a step
  budget of at least 1 and resolved dimensionalities that are not negative returns, and
  then \<^verbatim>\<open>ItAvg\<close> is the arithmetic mean of the \<^verbatim>\<open>Avg\<close> of the functions of the corpus,
  \<^verbatim>\<open>ItRtAvg\<close> the mean of their ratios \<^verbatim>\<open>RMS / Avg\<close> and \<^verbatim>\<open>RjAvg\<close> the mean of their reject
  rates (sums from 0.0 in corpus order, divided by the number of functions). \<^verbatim>\<open>tc\<close> is
  the sum, over all the optimizer steps of all the trials of all the functions, of
  the difference of the two counter readings around the step. A function whose trials
  are all rejected enters the mean with the average 1000000.
\<close>

theorem aggregate_statistics:
  assumes "0 \<le> ic" "1 \<le> iic" "iic \<le> INT_MAX"
    and "\<forall>f \<in> set Corpus. 0 \<le> (if FnDims f = 0 then d else FnDims f)"
  shows "\<exists>T' r' c' out.
           run X (init d Corpus thr ic iic rz pr T) r c = Inr (T', r', c', out) \<and>
           length (run_stats X (init d Corpus thr ic iic rz pr T) r c) = length Corpus \<and>
           ItAvg T' = dmean (map avgIterations (run_stats X (init d Corpus thr ic iic rz pr T) r c)) \<and>
           ItRtAvg T' = dmean (map (\<lambda>s. ddiv (rmsIterations s) (avgIterations s))
                                 (run_stats X (init d Corpus thr ic iic rz pr T) r c)) \<and>
           RjAvg T' = dmean (map rejectRate (run_stats X (init d Corpus thr ic iic rz pr T) r c)) \<and>
           tc T' = ticks X (stats_steps iic (run_stats X (init d Corpus thr ic iic rz pr T) r c)) c \<and>
           (\<forall>s \<in> set (run_stats X (init d Corpus thr ic iic rz pr T) r c).
              ic \<le> rejectCount s \<longrightarrow> avgIterations s = Finite 1000000)"
proof -
  let ?T = "init d Corpus thr ic iic rz pr T"
  from run_init_outcome [OF assms, of X thr rz pr T r c]
  obtain T' r' c' out where
    r: "run X ?T r c = Inr (T', r', c', out)"
    and la: "list_all2 (fn_summary X ?T) Corpus (run_stats X ?T r c)"
    and rest: "ItAvg T' = dmean (map avgIterations (run_stats X ?T r c))"
      "ItRtAvg T' = dmean (map (\<lambda>s. ddiv (rmsIterations s) (avgIterations s)) (run_stats X ?T r c))"
      "RjAvg T' = dmean (map rejectRate (run_stats X ?T r c))"
      "tc T' = ticks X (stats_steps iic (run_stats X ?T r c)) c"
    by blast
  have len: "length (run_stats X ?T r c) = length Corpus"
    using la by (simp add: list_all2_lengthD)
  have sen: "\<forall>s \<in> set (run_stats X ?T r c). ic \<le> rejectCount s \<longrightarrow> avgIterations s = Finite 1000000"
  proof (intro ballI impI)
    fix s assume s: "s \<in> set (run_stats X ?T r c)" and rj: "ic \<le> rejectCount s"
    from list_all2_set_right [OF la s] obtain T1 :: "'a CTester" and L1 where
      "s = stats_of T1 L1" "IterCount T1 = ic"
      by (auto simp: fn_summary_def)
    with rj show "avgIterations s = Finite 1000000"
      using function_stats_sentinel [of T1 L1] by (simp add: stats_of_fields)
  qed
  from r len rest sen show ?thesis by blast
qed

theorem aggregate_statistics_witness:
  "0 \<le> (1::int) \<and> 1 \<le> (2::int) \<and> 2 \<le> INT_MAX \<and>
   0 \<le> (if FnDims sphere = 0 then 2 else FnDims sphere) \<and>
   map avgIterations (run_stats X_stub (T_stub [sphere, sphere] (Finite (1/2)) 1 2 False 0) 0 0)
     = [Finite 1, Finite 1000000] \<and>
   map rmsIterations (run_stats X_stub (T_stub [sphere, sphere] (Finite (1/2)) 1 2 False 0) 0 0)
     = [Finite 0, Finite 1000000] \<and>
   map rejectRate (run_stats X_stub (T_stub [sphere, sphere] (Finite (1/2)) 1 2 False 0) 0 0)
     = [Finite 0, Finite 1] \<and>
   map trialIters (run_stats X_stub (T_stub [sphere, sphere] (Finite (1/2)) 1 2 False 0) 0 0)
     = [[1], [- 1]] \<and>
   (case run X_stub (T_stub [sphere, sphere] (Finite (1/2)) 1 2 False 0) 0 0 of
      Inl e \<Rightarrow> False
    | Inr (T', r', c', out) \<Rightarrow>
        ItAvg T' = Finite (1000001 / 2) \<and> ItRtAvg T' = Finite (1 / 2) \<and>
        RjAvg T' = Finite (1 / 2) \<and> tc T' = 15)"
proof -
  let ?T = "T_stub [sphere, sphere] (Finite (1/2)) 1 2 False 0"
  let ?S = "run_stats X_stub ?T 0 0"
  have h: "0 \<le> (1::int)" "1 \<le> (2::int)" "2 \<le> INT_MAX"
    "\<forall>f \<in> set [sphere, sphere]. 0 \<le> (if FnDims f = 0 then 2 else FnDims f)"
    by (simp_all add: INT_MAX_def sphere_fields)
  have S: "?S = [\<lparr>avgIterations = Finite 1, rmsIterations = Finite 0, rejectRate = Finite 0,
                  avgCostOnSuccess = Finite 0, avgCostOnReject = NaN, rejectCount = 0,
                  trialIters = [1]\<rparr>,
                \<lparr>avgIterations = Finite 1000000, rmsIterations = Finite 1000000,
                  rejectRate = Finite 1, avgCostOnSuccess = NaN, avgCostOnReject = Finite 1,
                  rejectCount = 1, trialIters = [- 1]\<rparr>]"
    by (simp add: run_stats_def stub_eval run_eval)
  from aggregate_statistics [OF h, of X_stub "Finite (1/2)" False False _ 0 0]
  have "\<exists>T' r' c' out. run X_stub ?T 0 0 = Inr (T', r', c', out) \<and>
          ItAvg T' = dmean (map avgIterations ?S) \<and>
          ItRtAvg T' = dmean (map (\<lambda>s. ddiv (rmsIterations s) (avgIterations s)) ?S) \<and>
          RjAvg T' = dmean (map rejectRate ?S) \<and>
          tc T' = ticks X_stub (stats_steps 2 ?S) 0"
    unfolding T_stub_def by blast
  then have "case run X_stub ?T 0 0 of
      Inl e \<Rightarrow> False
    | Inr (T', r', c', out) \<Rightarrow>
        ItAvg T' = Finite (1000001 / 2) \<and> ItRtAvg T' = Finite (1 / 2) \<and>
        RjAvg T' = Finite (1 / 2) \<and> tc T' = 15"
    unfolding S
    by (auto simp: dmean_def dsum_def d_of_int_def stats_steps_def trial_steps_def
        eval_nat_numeral X_stub_sel clock_stub_def)
  with h(1-3) show ?thesis
    by (simp add: S sphere_fields)
qed

subsection \<open>Total failure\<close>

lemma trial_never_reject:
  assumes "adapter_ready T f D" "1 \<le> InnerIterCount T" "InnerIterCount T \<le> INT_MAX"
    and "trial_never_within X T D r c"
  shows "\<exists>T' L' r' c'. trial X T D j L r c = Inr (T', L', r', c') \<and> Rej L' = Rej L + 1 \<and>
           T' = T\<lparr>opt := opt T', tc := tc T'\<rparr> \<and> adapter_ready T' f D"
proof -
  let ?E = "trial_entry X T D r"
  let ?N = "InnerIterCount T"
  have fr: "fst ?E = T\<lparr>opt := opt (fst ?E)\<rparr>" by (rule trial_entry_frame)
  have N: "InnerIterCount (fst ?E) = ?N"
    by (subst fr) simp
  have eq: "trial X T D j L r c = while_loop X (fst ?E) j 0 L (snd ?E) c"
    by (rule trial_eq_entry [OF assms(1)])
  define m where "m = nat ?N - 1"
  have m: "?N = int (Suc m)" and m': "nat ?N = Suc m"
    using assms(2) by (simp_all add: m_def)
  have "\<forall>n \<in> set [1..<Suc (Suc m)]. \<not> reached X (fst ?E) (snd ?E) c n"
    using assms(4) unfolding trial_never_within_def case_prod_beta list_all_iff m' .
  then have nv: "\<forall>k. 1 \<le> k \<and> k \<le> Suc m \<longrightarrow> \<not> reached X (fst ?E) (snd ?E) c k"
    unfolding set_upt by (metis atLeastLessThan_iff less_Suc_eq_le)
  have "while_loop X (fst ?E) j 0 L (snd ?E) c =
     (let S = steps X (Suc m) (fst ?E, snd ?E, c) in
      Inr (fst S, L\<lparr>AvgRjCost := dadd (AvgRjCost L) (getBestCost X (fst S)),
                     Rej := Rej L + 1,
                     Iters := (Iters L)[nat j := - 1]\<rparr>, snd S))"
    using nv m assms(3) N by (intro while_loop_reject) simp_all
  with eq obtain T1 L1 r1 c1 where t: "trial X T D j L r c = Inr (T1, L1, r1, c1)"
    and rj: "Rej L1 = Rej L + 1"
    by (cases "snd (steps X (Suc m) (fst ?E, snd ?E, c))") (simp add: Let_def)
  from trial_outcome [OF assms(1-3), of X j L r c] t
  have "T1 = T\<lparr>opt := opt T1, tc := tc T1\<rparr> \<and> adapter_ready T1 f D"
    by auto
  with t rj show ?thesis by blast
qed

lemma trials_never_reject:
  assumes "adapter_ready T f D" "1 \<le> InnerIterCount T" "InnerIterCount T \<le> INT_MAX"
    and "trials_never_within X T D js L r c"
  shows "\<exists>T' L' r' c'. trials X T D js L r c = Inr (T', L', r', c') \<and>
           Rej L' = Rej L + int (length js)"
  using assms
proof (induction js arbitrary: T L r c)
  case Nil
  show ?case by simp
next
  case (Cons j js)
  from Cons.prems(4) have nv: "trial_never_within X T D r c" by simp
  from trial_never_reject [OF Cons.prems(1-3) nv, of "int j" L]
  obtain T1 L1 r1 c1 where t: "trial X T D (int j) L r c = Inr (T1, L1, r1, c1)"
    and rj: "Rej L1 = Rej L + 1" and fr: "T1 = T\<lparr>opt := opt T1, tc := tc T1\<rparr>"
    and rd: "adapter_ready T1 f D"
    by blast
  have N: "InnerIterCount T1 = InnerIterCount T"
    by (subst fr) simp
  from Cons.prems(4) t have nv': "trials_never_within X T1 D js L1 r1 c1" by simp
  from Cons.IH [OF rd _ _ nv'] N Cons.prems(2,3)
  obtain T' L' r' c' where "trials X T1 D js L1 r1 c1 = Inr (T', L', r', c')"
    and "Rej L' = Rej L1 + int (length js)"
    by auto
  with t rj show ?case by simp
qed

lemma fn_never_reject:
  assumes "0 \<le> resolved_dims T f" "1 \<le> InnerIterCount T" "InnerIterCount T \<le> INT_MAX"
    and "fns_never_within X T (f # fs) It r c out"
  shows "\<exists>T1 L1 r1 c1. fn_trials X T f It r c = Inr (T1, L1, r1, c1) \<and>
           Rej L1 = int (nat (IterCount T))"
proof -
  let ?L = "\<lparr>AvgIter = Finite 0, AvgCost = Finite 0, AvgRjCost = Finite 0, Rej = 0, Iters = It\<rparr>"
  from fn_setup_Inr [OF assms(1)] obtain T1 where s: "fn_setup X T f = Inr T1" ..
  note rd = fn_setup_ready(1) [OF s] and fr = fn_setup_ready(2) [OF s]
  have N: "InnerIterCount T1 = InnerIterCount T"
    by (subst fr) simp
  from assms(4) s
  have nv: "trials_never_within X T1 (resolved_dims T f) [0..<nat (IterCount T)] ?L r c"
    by simp
  from trials_never_reject [OF rd _ _ nv] N assms(2,3)
  obtain T' L' r' c' where
    "trials X T1 (resolved_dims T f) [0..<nat (IterCount T)] ?L r c = Inr (T', L', r', c')"
    and "Rej L' = Rej ?L + int (length [0..<nat (IterCount T)])"
    by auto
  with s show ?thesis
    by (simp add: fn_trials_def)
qed

lemma corpus_never_reject:
  assumes "\<forall>f \<in> set fs. 0 \<le> resolved_dims T f" "1 \<le> InnerIterCount T"
    and "InnerIterCount T \<le> INT_MAX" "length It = nat (IterCount T)"
    and "fns_never_within X T fs It r c out"
  shows "\<forall>s \<in> set (corpus_stats X T fs It r c out). rejectCount s = int (nat (IterCount T))"
  using assms
proof (induction fs arbitrary: T It r c out)
  case Nil
  show ?case by simp
next
  case (Cons f fs)
  have d: "0 \<le> resolved_dims T f" using Cons.prems(1) by simp
  from run_fn_outcome [OF d Cons.prems(2-4), of X r c out]
  obtain T1 L1 r1 c1 T2 out2 where
    ft: "fn_trials X T f It r c = Inr (T1, L1, r1, c1)"
    and rf: "run_fn X T f It r c out = Inr (T2, Iters L1, r1, c1, out2)"
    and sc: "same_config T T2" and len: "length (Iters L1) = nat (IterCount T)"
    by blast
  from fn_never_reject [OF d Cons.prems(2,3,5)] ft
  have rj: "Rej L1 = int (nat (IterCount T))" by simp
  have cfg: "InnerIterCount T2 = InnerIterCount T" "IterCount T2 = IterCount T"
    using sc by (simp_all add: same_config_def)
  have p1: "\<forall>f \<in> set fs. 0 \<le> resolved_dims T2 f"
    using Cons.prems(1) sc by (simp add: same_config_resolved)
  from Cons.prems(5) rf have nv: "fns_never_within X T2 fs (Iters L1) r1 c1 out2"
    by simp
  from Cons.IH [OF p1 _ _ _ nv] cfg Cons.prems(2,3) len
  have ih: "\<forall>s \<in> set (corpus_stats X T2 fs (Iters L1) r1 c1 out2).
              rejectCount s = int (nat (IterCount T))"
    by simp
  have cs: "corpus_stats X T (f # fs) It r c out
              = stats_of T1 L1 # corpus_stats X T2 fs (Iters L1) r1 c1 out2"
    using ft rf by simp
  show ?case
    unfolding cs using ih rj by (simp add: stats_of_fields)
qed

lemma run_never_reject:
  assumes "0 \<le> ic" "1 \<le> iic" "iic \<le> INT_MAX"
    and "\<forall>f \<in> set Corpus. 0 \<le> (if FnDims f = 0 then d else FnDims f)"
    and "run_never_within X (init d Corpus thr ic iic rz pr T) r c"
  shows "\<forall>s \<in> set (run_stats X (init d Corpus thr ic iic rz pr T) r c). rejectCount s = ic"
proof -
  let ?T = "init d Corpus thr ic iic rz pr T"
  let ?T0 = "?T\<lparr>ItAvg := Finite 0, ItRtAvg := Finite 0, RjAvg := Finite 0, tc := 0\<rparr>"
  have nv: "fns_never_within X ?T0 Corpus (new_int ic) r c []"
    using assms(5) by (simp add: run_never_within_def)
  have p: "\<forall>f \<in> set Corpus. 0 \<le> resolved_dims ?T0 f"
    using assms(4) by (simp add: resolved_dims_def cong: if_cong)
  have q: "1 \<le> InnerIterCount ?T0" "InnerIterCount ?T0 \<le> INT_MAX"
    "length (new_int ic) = nat (IterCount ?T0)"
    using assms(2,3) by (simp_all add: new_int_def)
  from corpus_never_reject [OF p q nv] assms(1) show ?thesis
    by (simp add: run_stats_def)
qed


lemma sphere1_fields:
  "FnDims sphere1 = 1" "RangeMin sphere1 = Finite (- 10)" "RangeMax sphere1 = Finite 10"
  "OptValue sphere1 = Finite 0" "Name sphere1 = ''sphere1''"
  by (simp_all add: sphere1_def sphere_def)

text \<open>
  C4. Whenever \<^verbatim>\<open>Rej >= IterCount\<close>, the average and the deviation of the step counts
  of the function are both 1000000. And in a run (set up as for C8, on a corpus that is
  not empty) in which the best cost that the optimizer reports after each step of each
  trial never satisfies \<^verbatim>\<open>getBestCost() - OptValue < CostThreshold\<close>, as with a negative
  threshold and costs that are not below the optimum, every function has
  \<^verbatim>\<open>Rej = IterCount\<close> and the average 1000000, and so has the aggregate \<^verbatim>\<open>ItAvg\<close>.
\<close>

theorem total_failure_sentinel:
  assumes "0 \<le> ic" "1 \<le> iic" "iic \<le> INT_MAX"
    and "\<forall>f \<in> set Corpus. 0 \<le> (if FnDims f = 0 then d else FnDims f)"
    and "Corpus \<noteq> []"
    and "run_never_within (X :: ('s, 'r, 'c) externals) (init d Corpus thr ic iic rz pr T) r c"
  shows "(\<forall>(U :: 's CTester) L. IterCount U \<le> Rej L \<longrightarrow>
            snd (function_stats U L) = (Finite 1000000, Finite 1000000)) \<and>
         (\<exists>T' r' c' out.
            run X (init d Corpus thr ic iic rz pr T) r c = Inr (T', r', c', out) \<and>
            length (run_stats X (init d Corpus thr ic iic rz pr T) r c) = length Corpus \<and>
            (\<forall>s \<in> set (run_stats X (init d Corpus thr ic iic rz pr T) r c).
               rejectCount s = ic \<and> avgIterations s = Finite 1000000 \<and>
               rmsIterations s = Finite 1000000) \<and>
            ItAvg T' = Finite 1000000)"
proof (intro conjI allI impI)
  fix U :: "'s CTester" and L :: locals
  assume "IterCount U \<le> Rej L"
  then show "snd (function_stats U L) = (Finite 1000000, Finite 1000000)"
    by (rule function_stats_sentinel)
next
  let ?T = "init d Corpus thr ic iic rz pr T"
  let ?S = "run_stats X ?T r c"
  from run_init_outcome [OF assms(1-4), of X thr rz pr T r c]
  obtain T' r' c' out where
    r: "run X ?T r c = Inr (T', r', c', out)"
    and la: "list_all2 (fn_summary X ?T) Corpus ?S"
    and avg: "ItAvg T' = dmean (map avgIterations ?S)"
    by blast
  have len: "length ?S = length Corpus"
    using la by (simp add: list_all2_lengthD)
  note rj = run_never_reject [OF assms(1-4,6)]
  have all: "\<forall>s \<in> set ?S. rejectCount s = ic \<and> avgIterations s = Finite 1000000 \<and>
               rmsIterations s = Finite 1000000"
  proof
    fix s assume s: "s \<in> set ?S"
    from list_all2_set_right [OF la s] obtain T1 :: "'s CTester" and L1 where
      s1: "s = stats_of T1 L1" and ic1: "IterCount T1 = ic"
      by (auto simp: fn_summary_def)
    from rj s have "rejectCount s = ic" by blast
    with s1 have "Rej L1 = ic" by (simp add: stats_of_fields)
    then show "rejectCount s = ic \<and> avgIterations s = Finite 1000000 \<and>
               rmsIterations s = Finite 1000000"
      using function_stats_sentinel [of T1 L1] ic1 s1 by (simp add: stats_of_fields)
  qed
  have "dmean (map avgIterations ?S) = Finite 1000000"
    using all len assms(5) by (intro dmean_const) auto
  with r len all avg show "\<exists>T' r' c' out.
            run X ?T r c = Inr (T', r', c', out) \<and> length ?S = length Corpus \<and>
            (\<forall>s \<in> set ?S. rejectCount s = ic \<and> avgIterations s = Finite 1000000 \<and>
               rmsIterations s = Finite 1000000) \<and>
            ItAvg T' = Finite 1000000"
    by auto
qed

theorem total_failure_sentinel_witness:
  "0 \<le> (2::int) \<and> 1 \<le> (2::int) \<and> 2 \<le> INT_MAX \<and>
   0 \<le> (if FnDims sphere1 = 0 then 2 else FnDims sphere1) \<and>
   [sphere1, sphere1] \<noteq> [] \<and>
   run_never_within X_stub (T_stub [sphere1, sphere1] (Finite (1/2)) 2 2 True 0) 0 0 \<and>
   can_converge X_stub sphere1 (Finite (1/2)) \<and>
   map rejectCount (run_stats X_stub (T_stub [sphere1, sphere1] (Finite (1/2)) 2 2 True 0) 0 0)
     = [2, 2] \<and>
   map avgIterations (run_stats X_stub (T_stub [sphere1, sphere1] (Finite (1/2)) 2 2 True 0) 0 0)
     = [Finite 1000000, Finite 1000000] \<and>
   map trialIters (run_stats X_stub (T_stub [sphere1, sphere1] (Finite (1/2)) 2 2 True 0) 0 0)
     = [[- 1, - 1], [- 1, - 1]] \<and>
   map avgCostOnReject (run_stats X_stub (T_stub [sphere1, sphere1] (Finite (1/2)) 2 2 True 0) 0 0)
     = [Finite 1, Finite 1] \<and>
   (case run X_stub (T_stub [sphere1, sphere1] (Finite (1/2)) 2 2 True 0) 0 0 of
      Inl e \<Rightarrow> False
    | Inr (T', r', c', out) \<Rightarrow> ItAvg T' = Finite 1000000)"
proof -
  let ?T = "T_stub [sphere1, sphere1] (Finite (1/2)) 2 2 True 0"
  let ?S = "run_stats X_stub ?T 0 0"
  have up: "[Suc 0..<3] = [Suc 0, Suc (Suc 0)]"
    by (simp add: upt_conv_Cons)
  have nv: "run_never_within X_stub ?T 0 0"
    by (simp add: run_never_within_def trial_never_within_def trial_entry_def trial_signs_def
        trial_rnd_def reached_def sign_of_def up stub_eval run_eval sphere1_fields)
  have h: "0 \<le> (2::int)" "1 \<le> (2::int)" "2 \<le> INT_MAX"
    "\<forall>f \<in> set [sphere1, sphere1]. 0 \<le> (if FnDims f = 0 then 2 else FnDims f)"
    "[sphere1, sphere1] \<noteq> []"
    by (simp_all add: INT_MAX_def sphere1_fields)
  have cc: "can_converge X_stub sphere1 (Finite (1/2))"
    unfolding can_converge_def by (rule exI [of _ 0]) (simp add: stub_eval sphere1_fields)
  have S: "?S = [\<lparr>avgIterations = Finite 1000000, rmsIterations = Finite 1000000,
                  rejectRate = Finite 1, avgCostOnSuccess = NaN, avgCostOnReject = Finite 1,
                  rejectCount = 2, trialIters = [- 1, - 1]\<rparr>,
                \<lparr>avgIterations = Finite 1000000, rmsIterations = Finite 1000000,
                  rejectRate = Finite 1, avgCostOnSuccess = NaN, avgCostOnReject = Finite 1,
                  rejectCount = 2, trialIters = [- 1, - 1]\<rparr>]"
    by (simp add: run_stats_def stub_eval run_eval sphere1_fields)
  from total_failure_sentinel [OF h nv [unfolded T_stub_def]]
  have "\<exists>T' r' c' out. run X_stub ?T 0 0 = Inr (T', r', c', out) \<and> ItAvg T' = Finite 1000000"
    unfolding T_stub_def by blast
  then have "case run X_stub ?T 0 0 of
      Inl e \<Rightarrow> False
    | Inr (T', r', c', out) \<Rightarrow> ItAvg T' = Finite 1000000"
    by auto
  with h(1-3) nv cc show ?thesis
    by (simp add: S sphere1_fields)
qed

section \<open>Runs without trials\<close>

lemma fn_setup_error:
  "fn_setup X T f = Inl e \<Longrightarrow> e = BadArrayNewLength \<and> resolved_dims T f < 0"
  by (simp add: fn_setup_def updateDims_def Let_def split: if_splits)

lemma fn_setup_frame:
  "fn_setup X T f = Inr T1 \<Longrightarrow> same_config T T1 \<and> tc T1 = tc T"
  using fn_setup_ready(2) [of X T f T1]
  by (metis CTester.select_convs(6) CTester.surjective CTester.update_convs(2) same_config_frame
      CTester.update_convs(6))

lemma run_fn_no_trials:
  assumes "IterCount T = 0"
  shows "case run_fn X T f It r c out of
           Inl e \<Rightarrow> e = BadArrayNewLength \<and> resolved_dims T f < 0
         | Inr (T', It', r', c', out') \<Rightarrow>
             r' = r \<and> c' = c \<and> tc T' = tc T \<and> same_config T T' \<and>
             fan (opt T') = fan_updateDims X (resolved_dims T f) 0 (fan (opt T))"
proof (cases "fn_setup X T f")
  case (Inl e)
  with fn_setup_error [OF Inl] show ?thesis
    by (simp add: run_fn_def fn_trials_def)
next
  case (Inr T1)
  from fn_setup_frame [OF Inr] fn_setup_ready(3) [OF Inr] Inr assms show ?thesis
    by (simp add: run_fn_def fn_trials_def case_prod_beta same_config_def)
qed

lemma run_fns_no_trials:
  assumes "IterCount T = 0 \<or> fs = []"
  shows "case run_fns X T fs It r c out of
           Inl e \<Rightarrow> e = BadArrayNewLength \<and> (\<exists>f \<in> set fs. resolved_dims T f < 0)
         | Inr (T', It', r', c', out') \<Rightarrow>
             r' = r \<and> c' = c \<and> tc T' = tc T \<and> same_config T T' \<and>
             fan (opt T') = dims_only X T fs (fan (opt T))"
  using assms
proof (induction fs arbitrary: T It out)
  case Nil
  show ?case by (simp add: same_config_def dims_only_def)
next
  case (Cons f fs)
  then have ic: "IterCount T = 0" by simp
  show ?case
  proof (cases "run_fn X T f It r c out")
    case (Inl e)
    with run_fn_no_trials [OF ic, where X = X and f = f and It = It and r = r and c = c and out = out] show ?thesis by simp
  next
    case (Inr res)
    obtain T1 It1 r1 c1 out1 where res: "res = (T1, It1, r1, c1, out1)"
      by (cases res) auto
    from run_fn_no_trials [OF ic, where X = X and f = f and It = It and r = r and c = c and out = out] Inr res
    have a: "r1 = r" "c1 = c" "tc T1 = tc T" "same_config T T1"
      "fan (opt T1) = fan_updateDims X (resolved_dims T f) 0 (fan (opt T))"
      by simp_all
    have ic1: "IterCount T1 = 0 \<or> fs = []" using a(4) ic by (simp add: same_config_def)
    have rd: "resolved_dims T1 g = resolved_dims T g" for g
      using a(4) by (rule same_config_resolved)
    have dm: "dims_only X T1 fs s = dims_only X T fs s" for s
      by (simp add: dims_only_def rd)
    from Cons.IH [OF ic1, of It1 out1] Inr res a show ?thesis
      by (auto simp: rd dm dims_only_def same_config_def split: sum.splits)
  qed
qed

lemma run_no_trials:
  assumes "0 \<le> IterCount T" "IterCount T = 0 \<or> take (nat (FnCount T)) (Funcs T) = []"
  shows "case run X T r c of
           Inl e \<Rightarrow> e = BadArrayNewLength \<and>
                    (\<exists>f \<in> set (take (nat (FnCount T)) (Funcs T)). resolved_dims T f < 0)
         | Inr (T', r', c', out) \<Rightarrow>
             r' = r \<and> c' = c \<and> tc T' = 0 \<and>
             fan (opt T') = dims_only X T (take (nat (FnCount T)) (Funcs T)) (fan (opt T))"
proof -
  let ?T0 = "T\<lparr>ItAvg := Finite 0, ItRtAvg := Finite 0, RjAvg := Finite 0, tc := 0\<rparr>"
  let ?fs = "take (nat (FnCount T)) (Funcs T)"
  from assms(2) have nt: "IterCount ?T0 = 0 \<or> ?fs = []" by simp
  have rd: "resolved_dims ?T0 f = resolved_dims T f" for f
    by (simp add: resolved_dims_def)
  have dm: "dims_only X ?T0 ?fs s = dims_only X T ?fs s" for s
    by (simp add: dims_only_def rd)
  note nf = run_fns_no_trials [OF nt, where X = X and It = "new_int (IterCount T)" and r = r
      and c = c and out = "[]"]
  show ?thesis
  proof (cases "run_fns X ?T0 ?fs (new_int (IterCount T)) r c []")
    case (Inl e)
    with nf have "e = BadArrayNewLength \<and> (\<exists>f \<in> set ?fs. resolved_dims T f < 0)"
      by (simp add: rd)
    with Inl assms(1) show ?thesis
      by (simp add: run_def Let_def)
  next
    case (Inr res)
    obtain T1 It1 r1 c1 out1 where res: "res = (T1, It1, r1, c1, out1)"
      by (cases res) auto
    from nf Inr res
    have "r1 = r" "c1 = c" "tc T1 = 0" "fan (opt T1) = dims_only X T ?fs (fan (opt T))"
      by (simp_all add: dm)
    with Inr res assms(1) show ?thesis
      by (simp add: run_def Let_def)
  qed
qed

lemma X_count_sel:
  "getRndValue X_count = rnd_stub" "rdtsc X_count = clock_stub"
  "fan_updateDims X_count = (\<lambda>d fs s. s)"
  "fan_init X_count = (\<lambda>h s r. ((fst s + 1, snd s), r))"
  "fan_optimize X_count = (\<lambda>h s r. ((fst s, snd s + 1), r))"
  "fan_getBestCost X_count = (\<lambda>s. Finite 0)"
  by (simp_all add: X_count_def)

lemma T_count_explicit:
  "T_count d Cs ic iic =
     \<lparr>DefDims = d, opt = \<lparr>fn = sphere, optDoRandomize = False, Dims = 0, signs = [], tp = [],
                              fan = (0, 0)\<rparr>,
      ItAvg = NaN, ItRtAvg = NaN, RjAvg = NaN, tc = 0, Funcs = Cs, FnCount = count_corpus Cs 0,
      CostThreshold = Finite (1/2), IterCount = ic, InnerIterCount = iic, DoRandomize = False,
      DoPrint = False\<rparr>"
  by (simp add: T_count_def tester_count_def init_def)

lemmas count_eval = T_count_explicit X_count_sel sphere_fields rnd_stub_def clock_stub_def
  fn_trials_def fn_setup_def updateDims_def resolved_dims_def new_double_def new_int_def
  trial_def rnd_sign_def while_loop_unfold timed_optimize_def getBestCost_def converged_def
  dsub_def d_of_int_def Let_def INT_MAX_def run_eval

subsection \<open>What \<^verbatim>\<open>run\<close> does on a degenerate configuration\<close>

text \<open>
  C3, as the code has it. Neither \<^verbatim>\<open>init\<close> nor \<^verbatim>\<open>run\<close> checks the configuration. With a
  negative \<^verbatim>\<open>IterCount\<close> the run fails, on the allocation of \<^verbatim>\<open>Iters\<close>, before it visits
  a function. With an empty corpus or \<^verbatim>\<open>IterCount = 0\<close> no trial runs: the generator
  and the cycle counter are not used, \<^verbatim>\<open>tc\<close> is 0 and the optimizer has only seen the
  calls of \<^verbatim>\<open>updateDims\<close>, so it is neither initialized nor stepped; the run fails
  only where a negative resolved dimensionality makes \<^verbatim>\<open>updateDims\<close> throw, and
  otherwise it completes. On an empty corpus it completes with the three aggregate
  means NaN. \<^verbatim>\<open>InnerIterCount <= 0\<close> and a resolved dimensionality of 0 do not stop
  the trials.
\<close>

theorem no_validation_before_trials:
  "(ic < 0 \<longrightarrow> run X (init d Corpus thr ic iic rz pr T) r c = Inl BadArrayNewLength) \<and>
   (0 \<le> ic \<and> (Corpus = [] \<or> ic = 0) \<longrightarrow>
      (case run X (init d Corpus thr ic iic rz pr T) r c of
         Inl e \<Rightarrow> e = BadArrayNewLength \<and>
                  (\<exists>f \<in> set Corpus. (if FnDims f = 0 then d else FnDims f) < 0)
       | Inr (T', r', c', out) \<Rightarrow>
           r' = r \<and> c' = c \<and> tc T' = 0 \<and>
           fan (opt T') = dims_only X (init d Corpus thr ic iic rz pr T) Corpus (fan (opt T)))) \<and>
   (0 \<le> ic \<and> Corpus = [] \<longrightarrow>
      (\<exists>T' out. run X (init d Corpus thr ic iic rz pr T) r c = Inr (T', r, c, out) \<and>
         ItAvg T' = NaN \<and> ItRtAvg T' = NaN \<and> RjAvg T' = NaN))"
proof (intro conjI impI)
  assume "ic < 0"
  then show "run X (init d Corpus thr ic iic rz pr T) r c = Inl BadArrayNewLength"
    by (simp add: run_def)
next
  let ?T = "init d Corpus thr ic iic rz pr T"
  assume a: "0 \<le> ic \<and> (Corpus = [] \<or> ic = 0)"
  have tk: "take (nat (int (length Corpus))) Corpus = Corpus" by simp
  have h: "0 \<le> IterCount ?T" "IterCount ?T = 0 \<or> take (nat (FnCount ?T)) (Funcs ?T) = []"
    using a by auto
  from run_no_trials [OF h, where X = X and r = r and c = c]
  show "case run X ?T r c of
         Inl e \<Rightarrow> e = BadArrayNewLength \<and>
                  (\<exists>f \<in> set Corpus. (if FnDims f = 0 then d else FnDims f) < 0)
       | Inr (T', r', c', out) \<Rightarrow>
           r' = r \<and> c' = c \<and> tc T' = 0 \<and>
           fan (opt T') = dims_only X ?T Corpus (fan (opt T))"
    unfolding init_resolved init_fields tk .
next
  assume "0 \<le> ic \<and> Corpus = []"
  then show "\<exists>T' out. run X (init d Corpus thr ic iic rz pr T) r c = Inr (T', r, c, out) \<and>
         ItAvg T' = NaN \<and> ItRtAvg T' = NaN \<and> RjAvg T' = NaN"
    by (simp add: run_def Let_def d_of_int_def)
qed

theorem no_validation_before_trials_witness:
  "- 1 < (0::int) \<and>
   run X_count (T_count 2 [sphere] (- 1) 1) 0 0 = Inl BadArrayNewLength \<and>
   (0::int) \<le> 0 \<and>
   (case run X_count (T_count 2 [sphere] 0 1) 0 0 of
      Inl e \<Rightarrow> False
    | Inr (T', r', c', out) \<Rightarrow>
        r' = 0 \<and> c' = 0 \<and> tc T' = 0 \<and> fan (opt T') = (0, 0) \<and> ItAvg T' = Finite 1000000) \<and>
   (case run X_count (T_count 2 [] 1 1) 0 0 of
      Inl e \<Rightarrow> False
    | Inr (T', r', c', out) \<Rightarrow> r' = 0 \<and> c' = 0 \<and> ItAvg T' = NaN)"
proof -
  note th = no_validation_before_trials [where X = X_count and d = 2 and thr = "Finite (1/2)"
      and rz = False and pr = False and r = 0 and c = 0 and T = tester_count, folded T_count_def]
  have a: "run X_count (T_count 2 [sphere] (- 1) 1) 0 0 = Inl BadArrayNewLength"
    using th [where ic = "- 1" and Corpus = "[sphere]" and iic = 1] by simp
  have "case run X_count (T_count 2 [sphere] 0 1) 0 0 of
      Inl e \<Rightarrow> e = BadArrayNewLength \<and> (\<exists>f \<in> set [sphere]. (if FnDims f = 0 then 2 else FnDims f) < 0)
    | Inr (T', r', c', out) \<Rightarrow>
        r' = 0 \<and> c' = 0 \<and> tc T' = 0 \<and>
        fan (opt T') = dims_only X_count (T_count 2 [sphere] 0 1) [sphere] (fan (opt tester_count))"
    using th [where ic = 0 and Corpus = "[sphere]" and iic = 1] by simp
  moreover have "\<exists>T' out. run X_count (T_count 2 [sphere] 0 1) 0 0 = Inr (T', 0, 0, out) \<and>
      ItAvg T' = Finite 1000000"
    by (simp add: count_eval)
  ultimately have b: "case run X_count (T_count 2 [sphere] 0 1) 0 0 of
      Inl e \<Rightarrow> False
    | Inr (T', r', c', out) \<Rightarrow>
        r' = 0 \<and> c' = 0 \<and> tc T' = 0 \<and> fan (opt T') = (0, 0) \<and> ItAvg T' = Finite 1000000"
    by (auto simp: dims_only_def X_count_sel tester_count_def)
  have "\<exists>T' out. run X_count (T_count 2 [] 1 1) 0 0 = Inr (T', 0, 0, out) \<and> ItAvg T' = NaN"
    using th [where ic = 1 and Corpus = "[]" and iic = 1] by simp blast
  then have c: "case run X_count (T_count 2 [] 1 1) 0 0 of
      Inl e \<Rightarrow> False
    | Inr (T', r', c', out) \<Rightarrow> r' = 0 \<and> c' = 0 \<and> ItAvg T' = NaN"
    by auto
  from a b c show ?thesis by simp
qed

text \<open>
  With the counting optimizer: a run with \<^verbatim>\<open>InnerIterCount = 0\<close>, and a run with the
  resolved dimensionality 0, initialize and step the optimizer once and compute the
  statistics; a run on the empty corpus completes.
\<close>

theorem no_validation_counterexample:
  "(case run X_count (T_count 2 [sphere] 1 0) 0 0 of
      Inl e \<Rightarrow> False
    | Inr (T', r', c', out) \<Rightarrow>
        fan (opt T') = (1, 1) \<and> ItAvg T' = Finite 1 \<and> RjAvg T' = Finite 0 \<and> tc T' = 5) \<and>
   (case run X_count (T_count 0 [sphere] 1 1) 0 0 of
      Inl e \<Rightarrow> False
    | Inr (T', r', c', out) \<Rightarrow>
        Dims (opt T') = 0 \<and> fan (opt T') = (1, 1) \<and> ItAvg T' = Finite 1) \<and>
   (case run X_count (T_count 2 [] 1 1) 0 0 of
      Inl e \<Rightarrow> False
    | Inr (T', r', c', out) \<Rightarrow> fan (opt T') = (0, 0) \<and> ItAvg T' = NaN)"
  by (simp add: count_eval)

section \<open>The results of a run and the cycle counter\<close>

lemma no_clock_sel [simp]:
  "getRndValue (no_clock X) = getRndValue X" "rdtsc (no_clock X) = (\<lambda>c. (0, c))"
  "fan_updateDims (no_clock X) = fan_updateDims X" "fan_init (no_clock X) = fan_init X"
  "fan_optimize (no_clock X) = fan_optimize X" "fan_getBestCost (no_clock X) = fan_getBestCost X"
  by (simp_all add: no_clock_def)

lemma no_clock_update [simp]: "no_clock (X\<lparr>rdtsc := k\<rparr>) = no_clock X"
  by (simp add: no_clock_def)

lemma scaled_no_clock [simp]: "scaled (no_clock X) b = scaled X b"
  by (simp add: scaled_def fun_eq_iff)

lemma rnd_sign_no_clock [simp]: "rnd_sign (no_clock X) = rnd_sign X"
  by (simp add: rnd_sign_def fun_eq_iff)

lemma hooks_no_clock [simp]: "hooks (no_clock X) t = hooks X t"
  by (simp add: hooks_def getMinValues_def getMaxValues_def fun_eq_iff)

lemma erase_tc_sel [simp]:
  "opt (erase_tc T) = opt T" "tc (erase_tc T) = 0"
  "CostThreshold (erase_tc T) = CostThreshold T" "InnerIterCount (erase_tc T) = InnerIterCount T"
  "IterCount (erase_tc T) = IterCount T" "DoRandomize (erase_tc T) = DoRandomize T"
  "DoPrint (erase_tc T) = DoPrint T" "DefDims (erase_tc T) = DefDims T"
  "FnCount (erase_tc T) = FnCount T" "Funcs (erase_tc T) = Funcs T"
  "ItAvg (erase_tc T) = ItAvg T" "ItRtAvg (erase_tc T) = ItRtAvg T" "RjAvg (erase_tc T) = RjAvg T"
  by (simp_all add: erase_tc_def)

lemma erase_tc_opt [simp]: "(erase_tc T)\<lparr>opt := t\<rparr> = erase_tc (T\<lparr>opt := t\<rparr>)"
  by (simp add: erase_tc_def)

lemma erase_tc_tc [simp]: "erase_tc (T\<lparr>tc := w\<rparr>) = erase_tc T" "erase_tc (erase_tc T) = erase_tc T"
  by (simp_all add: erase_tc_def)


lemma converged_no_clock [simp]: "converged (no_clock X) (erase_tc T) = converged X T"
  by (simp add: converged_def getBestCost_def)

lemma getBestCost_no_clock [simp]: "getBestCost (no_clock X) (erase_tc T) = getBestCost X T"
  by (simp add: getBestCost_def)



lemma erase_loop_simps [simp]:
  "erase_loop c0 (Inl e) = Inl e"
  "erase_loop c0 (Inr (T', L', r', c')) = Inr (erase_tc T', L', r', c0)"
  by (simp_all add: erase_loop_def)

lemma erase_fn_simps [simp]:
  "erase_fn c0 (Inl e) = Inl e"
  "erase_fn c0 (Inr (T', It', r', c', out')) = Inr (erase_tc T', It', r', c0, out')"
  by (simp_all add: erase_fn_def)




lemma resolved_dims_erase [simp]: "resolved_dims (erase_tc T) f = resolved_dims T f"
  by (simp add: resolved_dims_def)


lemma function_stats_erase [simp]: "function_stats (erase_tc T) L = function_stats T L"
  by (simp add: function_stats_def Let_def cong: if_cong)

lemma stats_of_erase [simp]: "stats_of (erase_tc T) L = stats_of T L"
  by (simp add: stats_of_def)






lemma stats_view_simps [simp]:
  "stats_view (Inl e) = Inl e"
  "stats_view (Inr (T', r', c', out)) = Inr (erase_tc T', r', map erase_report out)"
  by (simp_all add: stats_view_def)



subsection \<open>Two runs from the same generator state\<close>



end
